(* ===== verification/Prelude.thy ===== *)
theory Prelude
  imports Main "HOL-Library.Sublist"
begin

text \<open>
  Shared vocabulary of the development: the Python string operations that
  \<^verbatim>\<open>src/scraper/rules/platforms/fasttrack.py\<close> uses (\<^verbatim>\<open>str.lower\<close>,
  \<^verbatim>\<open>str.startswith\<close>, the containment test \<^verbatim>\<open>a in b\<close>, \<^verbatim>\<open>sep.join\<close>,
  slicing \<^verbatim>\<open>s[:n]\<close>, \<^verbatim>\<open>str(n)\<close> of a non-negative int and the truthiness of
  strings), each as an executable HOL function, with the generic lemmas the
  component theories share.

  A Python \<^verbatim>\<open>str\<close> is a sequence of code points; the model uses HOL's
  \<^typ>\<open>char\<close>, which has 256 values, so it covers the code points below 256
  (ASCII and Latin-1), one \<^typ>\<open>char\<close> per code point, so that \<^const>\<open>length\<close>
  is Python's \<^verbatim>\<open>len\<close>.
\<close>

named_theorems py_simps "rewrite rules for the Python string operations"

type_synonym pystr = string

subsection \<open>Case folding\<close>

text \<open>\<^verbatim>\<open>str.lower\<close> on code points below 256: \<^verbatim>\<open>A\<close>..\<^verbatim>\<open>Z\<close> and the Latin-1
  capitals U+00C0..U+00DE (but the multiplication sign U+00D7) map 32 up.\<close>

definition py_is_upper :: "char \<Rightarrow> bool" where
  "py_is_upper c \<longleftrightarrow>
     (let n = of_char c :: nat in (65 \<le> n \<and> n \<le> 90) \<or> (192 \<le> n \<and> n \<le> 222 \<and> n \<noteq> 215))"

definition py_lower_chr :: "char \<Rightarrow> char" where
  "py_lower_chr c = (if py_is_upper c then char_of (of_char c + (32::nat)) else c)"

definition py_lower :: "pystr \<Rightarrow> pystr" where
  "py_lower s = map py_lower_chr s"

subsection \<open>Prefix and containment\<close>

text \<open>\<^verbatim>\<open>s.startswith(p)\<close>, compared character by character.\<close>

fun py_startswith :: "pystr \<Rightarrow> pystr \<Rightarrow> bool" where
  "py_startswith s [] = True"
| "py_startswith [] (c # cs) = False"
| "py_startswith (x # xs) (c # cs) = (x = c \<and> py_startswith xs cs)"

text \<open>\<^verbatim>\<open>p in s\<close> for strings: the scan that tries every start position.\<close>

fun py_in :: "pystr \<Rightarrow> pystr \<Rightarrow> bool" where
  "py_in p [] = (p = [])"
| "py_in p (x # xs) = (py_startswith (x # xs) p \<or> py_in p xs)"

subsection \<open>Joining, slicing, printing\<close>

text \<open>\<^verbatim>\<open>sep.join(xs)\<close>.\<close>

fun py_join :: "pystr \<Rightarrow> pystr list \<Rightarrow> pystr" where
  "py_join sep [] = []"
| "py_join sep [x] = x"
| "py_join sep (x # y # zs) = x @ sep @ py_join sep (y # zs)"

text \<open>\<^verbatim>\<open>s.split(c)\<close>: the pieces between the occurrences of \<open>c\<close>; never empty.\<close>

fun py_split :: "char \<Rightarrow> pystr \<Rightarrow> pystr list" where
  "py_split c [] = [[]]"
| "py_split c (x # xs) =
     (let ws = py_split c xs in if x = c then [] # ws else (x # hd ws) # tl ws)"

text \<open>\<^verbatim>\<open>str(n)\<close> for a non-negative Python int: its decimal digits.\<close>

fun py_str_nat :: "nat \<Rightarrow> pystr" where
  "py_str_nat n =
     (if n < 10 then [char_of (48 + n)] else py_str_nat (n div 10) @ [char_of (48 + n mod 10)])"

declare py_str_nat.simps [simp del]

text \<open>\<^verbatim>\<open>int(s)\<close> on a string of decimal digits: the inverse of \<open>py_str_nat\<close>.\<close>

definition digits_value :: "pystr \<Rightarrow> nat" where
  "digits_value s = foldl (\<lambda>n c. 10 * n + (of_char c - 48)) 0 s"

text \<open>The truthiness of an optional string (\<^verbatim>\<open>x or d\<close>, \<^verbatim>\<open>if x:\<close>):
  \<^verbatim>\<open>None\<close> and \<^verbatim>\<open>''\<close> are false.\<close>

fun py_truthy :: "pystr option \<Rightarrow> bool" where
  "py_truthy None = False"
| "py_truthy (Some s) = (s \<noteq> [])"

fun py_or :: "pystr option \<Rightarrow> pystr \<Rightarrow> pystr" where
  "py_or (Some s) d = (if s \<noteq> [] then s else d)"
| "py_or None d = d"

text \<open>\<^verbatim>\<open>xs[0] if xs else None\<close>: the first element of a list, if any.\<close>

fun py_first :: "'a list \<Rightarrow> 'a option" where
  "py_first [] = None"
| "py_first (x # _) = Some x"

subsection \<open>Lemmas\<close>

lemma py_startswith_prefix [simp]: "py_startswith s p \<longleftrightarrow> prefix p s"
  by (induction s p rule: py_startswith.induct) auto

lemma py_in_sublist [simp]: "py_in p s \<longleftrightarrow> sublist p s"
  by (induction p s rule: py_in.induct) (auto simp: sublist_Cons_right)

lemma py_lower_Nil [simp, py_simps]: "py_lower [] = []"
  by (simp add: py_lower_def)

lemma py_lower_Cons [simp, py_simps]: "py_lower (c # s) = py_lower_chr c # py_lower s"
  by (simp add: py_lower_def)

lemma py_lower_append [simp, py_simps]: "py_lower (s @ t) = py_lower s @ py_lower t"
  by (simp add: py_lower_def)

lemma py_lower_length [simp, py_simps]: "length (py_lower s) = length s"
  by (simp add: py_lower_def)

lemma py_lower_chr_not_upper: "\<not> py_is_upper (py_lower_chr c)"
  by (auto simp: py_lower_chr_def py_is_upper_def Let_def)

lemma py_lower_chr_idem [simp, py_simps]: "py_lower_chr (py_lower_chr c) = py_lower_chr c"
  using py_lower_chr_not_upper [of c] by (simp add: py_lower_chr_def [of "py_lower_chr c"])

lemma py_lower_idem [simp, py_simps]: "py_lower (py_lower s) = py_lower s"
  by (induction s) simp_all

lemma sublist_py_lower: "sublist p s \<Longrightarrow> sublist (py_lower p) (py_lower s)"
  unfolding sublist_def by (metis py_lower_append)

lemma py_first_Some [simp]: "py_first xs = Some x \<longleftrightarrow> xs \<noteq> [] \<and> x = hd xs"
  by (cases xs) auto

lemma py_first_None [simp]: "py_first xs = None \<longleftrightarrow> xs = []"
  by (cases xs) auto

lemma py_truthy_iff [simp]: "py_truthy x \<longleftrightarrow> (\<exists>s. x = Some s \<and> s \<noteq> [])"
  by (cases x) auto

lemma sum_list_map_le_const:
  "\<forall>x\<in>set xs. f x \<le> (c::nat) \<Longrightarrow> sum_list (map f xs) \<le> length xs * c"
  by (induction xs) auto

lemma py_lower_join [py_simps]:
  "py_lower (py_join sep xs) = py_join (py_lower sep) (map py_lower xs)"
  by (induction sep xs rule: py_join.induct) simp_all

text \<open>A word without a space occurs in the space-joined values only inside one
  of them.\<close>

lemma sublist_join_space:
  assumes "CHR '' '' \<notin> set w" "w \<noteq> []"
  shows "sublist w (py_join '' '' cs) \<longleftrightarrow> (\<exists>c\<in>set cs. sublist w c)"
proof (induction "'' ''" cs rule: py_join.induct)
  case 1
  then show ?case using assms(2) by simp
next
  case (2 x)
  then show ?case by simp
next
  case (3 x y zs)
  have "sublist w (x @ '' '' @ py_join '' '' (y # zs)) \<longleftrightarrow>
        sublist w x \<or> sublist w (py_join '' '' (y # zs))"
  proof
    assume "sublist w (x @ '' '' @ py_join '' '' (y # zs))"
    then show "sublist w x \<or> sublist w (py_join '' '' (y # zs))"
      using assms(1) by (auto simp: sublist_append sublist_Cons_right prefix_Cons)
  qed (auto simp: sublist_append sublist_Cons_right)
  with "3" show ?case by simp
qed

text \<open>\<^verbatim>\<open>int(str(n)) == n\<close>, and \<^verbatim>\<open>str(n)\<close> is made of digits.\<close>

lemma digits_value_snoc: "digits_value (s @ [c]) = 10 * digits_value s + (of_char c - 48)"
  by (simp add: digits_value_def)

lemma py_str_nat_roundtrip: "digits_value (py_str_nat n) = n"
proof (induction n rule: py_str_nat.induct)
  case (1 n)
  have "of_char (char_of (48 + n mod 10) :: char) - 48 = n mod 10"
    by (simp add: of_char_of)
  moreover have "n < 10 \<Longrightarrow> of_char (char_of (48 + n) :: char) - 48 = n"
    by (simp add: of_char_of)
  ultimately show ?case
    using "1" by (subst py_str_nat.simps) (simp add: digits_value_snoc digits_value_def)
qed

lemma py_str_nat_digits: "\<forall>c\<in>set (py_str_nat n). (48::nat) \<le> of_char c \<and> of_char c \<le> (57::nat)"
proof (induction n rule: py_str_nat.induct)
  case (1 n)
  have "n mod 10 < 10" by simp
  then show ?case
    using "1" by (subst py_str_nat.simps) (auto simp: of_char_of)
qed
text \<open>\<^verbatim>\<open>split\<close> and \<^verbatim>\<open>join\<close> are inverse.\<close>

lemma py_split_ne [simp]: "py_split c s \<noteq> []"
  by (induction s) (auto simp: Let_def)

lemma py_join_Cons_Cons: "py_join sep ((x # w) # ws) = x # py_join sep (w # ws)"
  by (cases ws) simp_all

lemma py_join_split: "py_join [c] (py_split c s) = s"
proof (induction s)
  case (Cons x xs)
  obtain y ys where ws: "py_split c xs = y # ys" by (cases "py_split c xs") auto
  show ?case
    using Cons by (simp add: Let_def ws py_join_Cons_Cons)
qed simp

lemma py_split_append_nosep:
  "c \<notin> set w \<Longrightarrow> py_split c (w @ s) = (w @ hd (py_split c s)) # tl (py_split c s)"
  by (induction w) (auto simp: Let_def)

lemma py_split_join:
  "ws \<noteq> [] \<Longrightarrow> \<forall>w\<in>set ws. c \<notin> set w \<Longrightarrow> py_split c (py_join [c] ws) = ws"
proof (induction "[c]" ws rule: py_join.induct)
  case (2 x)
  then show ?case using py_split_append_nosep [of c x "[]"] by simp
next
  case (3 x y zs)
  then show ?case using py_split_append_nosep [of c x "c # py_join [c] (y # zs)"] by (simp add: Let_def)
qed simp

lemma py_split_nosep: "w \<in> set (py_split c s) \<Longrightarrow> c \<notin> set w"
proof (induction s arbitrary: w)
  case (Cons x xs)
  obtain y ys where ws: "py_split c xs = y # ys" by (cases "py_split c xs") auto
  from Cons.prems show ?case
    using Cons.IH [of y] Cons.IH ws by (auto simp: Let_def split: if_splits)
qed simp

end
