(* ===== verification/PyRe.thy ===== *)
theory PyRe
  imports Prelude
begin

text \<open>
  The part of Python's \<^verbatim>\<open>re\<close> module the plugin relies on: every pattern of
  \<^verbatim>\<open>fasttrack.py\<close> is compiled with \<^verbatim>\<open>re.I\<close> and used through
  \<^verbatim>\<open>search\<close> (directly at line 176, and through BeautifulSoup's attribute and
  string filters at lines 67--68, 83, 110--112 and 157--158). The patterns use
  literals, \<^verbatim>\<open>.\<close>, \<^verbatim>\<open>\d\<close>, \<^verbatim>\<open>\s\<close>, a character set, greedy and lazy
  \<^verbatim>\<open>*\<close>, greedy \<^verbatim>\<open>+\<close> and \<^verbatim>\<open>?\<close>, concatenation and alternation.

  \<open>bt\<close> is the backtracking matcher of Python's engine in
  continuation-passing style: alternatives are tried left to right, a greedy
  repetition tries one more iteration before it tries to stop, a lazy one the
  reverse, and the first way that lets the rest of the pattern (the
  continuation) succeed wins. \<open>re_search\<close> tries every start position
  from the left, as \<^verbatim>\<open>re.search\<close> does, and returns the text before the
  match, the match (\<^verbatim>\<open>m.group()\<close>) and the text after it.

  \<open>lang\<close> is the declarative meaning of a pattern (the set of strings it
  matches as a whole); the lemmas show that the matcher is sound and complete
  for it and that \<open>re_search\<close> finds the leftmost match.
\<close>

subsection \<open>Character classes\<close>

text \<open>\<^verbatim>\<open>\s\<close> on a \<^verbatim>\<open>str\<close> pattern: the code points below 256 for which
  \<^verbatim>\<open>str.isspace()\<close> holds; \<^verbatim>\<open>\d\<close>: the decimal digits among them.\<close>

definition py_is_space :: "char \<Rightarrow> bool" where
  "py_is_space c \<longleftrightarrow>
     (let n = of_char c :: nat in (9 \<le> n \<and> n \<le> 13) \<or> (28 \<le> n \<and> n \<le> 32) \<or> n = 133 \<or> n = 160)"

definition py_is_digit :: "char \<Rightarrow> bool" where
  "py_is_digit c \<longleftrightarrow> (let n = of_char c :: nat in 48 \<le> n \<and> n \<le> 57)"

datatype cls =
    AnyNL                \<comment> \<open>\<^verbatim>\<open>.\<close>: any character but a newline\<close>
  | Digit                \<comment> \<open>\<^verbatim>\<open>\d\<close>\<close>
  | Space                \<comment> \<open>\<^verbatim>\<open>\s\<close>\<close>
  | OneOf "char list"    \<comment> \<open>\<^verbatim>\<open>[...]\<close>\<close>

text \<open>Under \<^verbatim>\<open>re.I\<close> a set member matches in either case.\<close>

fun cls_match :: "cls \<Rightarrow> char \<Rightarrow> bool" where
  "cls_match AnyNL c = (c \<noteq> CHR 0x0A)"
| "cls_match Digit c = py_is_digit c"
| "cls_match Space c = py_is_space c"
| "cls_match (OneOf cs) c = (py_lower_chr c \<in> set (map py_lower_chr cs))"

subsection \<open>Patterns\<close>

datatype rx =
    Lit pystr            \<comment> \<open>a literal, compared under \<^verbatim>\<open>re.I\<close>\<close>
  | Cls cls              \<comment> \<open>one character of a class\<close>
  | Star bool cls        \<comment> \<open>\<^verbatim>\<open>c*\<close> (greedy, \<^const>\<open>True\<close>) or \<^verbatim>\<open>c*?\<close> (lazy)\<close>
  | Plus cls             \<comment> \<open>\<^verbatim>\<open>c+\<close>, greedy\<close>
  | Opt rx               \<comment> \<open>\<^verbatim>\<open>(?:r)?\<close>, greedy\<close>
  | Seq rx rx
  | Alt rx rx            \<comment> \<open>\<^verbatim>\<open>r|s\<close>\<close>

text \<open>A literal prefix, compared case-insensitively; the rest of the input.\<close>

fun lit_match :: "pystr \<Rightarrow> pystr \<Rightarrow> pystr option" where
  "lit_match [] s = Some s"
| "lit_match (p # ps) [] = None"
| "lit_match (p # ps) (c # cs) =
     (if py_lower_chr p = py_lower_chr c then lit_match ps cs else None)"

text \<open>The matcher: \<open>bt r s k\<close> matches \<open>r\<close> at the start of \<open>s\<close> and passes the
  rest of the input to the continuation \<open>k\<close>, backtracking into \<open>r\<close> while
  \<open>k\<close> fails.\<close>

fun bt :: "rx \<Rightarrow> pystr \<Rightarrow> (pystr \<Rightarrow> 'a option) \<Rightarrow> 'a option" where
  "bt (Lit p) s k = (case lit_match p s of None \<Rightarrow> None | Some s' \<Rightarrow> k s')"
| "bt (Cls c) [] k = None"
| "bt (Cls c) (x # xs) k = (if cls_match c x then k xs else None)"
| "bt (Star True c) [] k = k []"
| "bt (Star True c) (x # xs) k =
     (if cls_match c x
      then (case bt (Star True c) xs k of None \<Rightarrow> k (x # xs) | Some y \<Rightarrow> Some y)
      else k (x # xs))"
| "bt (Star False c) [] k = k []"
| "bt (Star False c) (x # xs) k =
     (case k (x # xs) of
        Some y \<Rightarrow> Some y
      | None \<Rightarrow> (if cls_match c x then bt (Star False c) xs k else None))"
| "bt (Plus c) [] k = None"
| "bt (Plus c) (x # xs) k = (if cls_match c x then bt (Star True c) xs k else None)"
| "bt (Opt r) s k = (case bt r s k of None \<Rightarrow> k s | Some y \<Rightarrow> Some y)"
| "bt (Seq r1 r2) s k = bt r1 s (\<lambda>s'. bt r2 s' k)"
| "bt (Alt r1 r2) s k = (case bt r1 s k of None \<Rightarrow> bt r2 s k | Some y \<Rightarrow> Some y)"

text \<open>\<^verbatim>\<open>re.search\<close>: the first start position where the pattern matches;
  the result is (text before, \<^verbatim>\<open>m.group()\<close>, text after).\<close>

fun search_at :: "rx \<Rightarrow> pystr \<Rightarrow> pystr \<Rightarrow> (pystr \<times> pystr \<times> pystr) option" where
  "search_at r pre s =
     (case bt r s Some of
        Some rest \<Rightarrow> Some (pre, take (length s - length rest) s, rest)
      | None \<Rightarrow> (case s of [] \<Rightarrow> None | x # xs \<Rightarrow> search_at r (pre @ [x]) xs))"

definition re_search :: "rx \<Rightarrow> pystr \<Rightarrow> (pystr \<times> pystr \<times> pystr) option" where
  "re_search r s = search_at r [] s"

text \<open>The truth value of a search, as BeautifulSoup's filters use it.\<close>

definition re_found :: "rx \<Rightarrow> pystr \<Rightarrow> bool" where
  "re_found r s \<longleftrightarrow> re_search r s \<noteq> None"

text \<open>An alternation of literals, \<^verbatim>\<open>w1|w2|...\<close>.\<close>

fun alts :: "pystr list \<Rightarrow> rx" where
  "alts [] = Lit []"
| "alts [w] = Lit w"
| "alts (w # ws) = Alt (Lit w) (alts ws)"

subsection \<open>Meaning of a pattern\<close>

fun lang :: "rx \<Rightarrow> pystr \<Rightarrow> bool" where
  "lang (Lit p) w = (length w = length p \<and> py_lower w = py_lower p)"
| "lang (Cls c) w = (case w of [x] \<Rightarrow> cls_match c x | _ \<Rightarrow> False)"
| "lang (Star b c) w = list_all (cls_match c) w"
| "lang (Plus c) w = (w \<noteq> [] \<and> list_all (cls_match c) w)"
| "lang (Opt r) w = (w = [] \<or> lang r w)"
| "lang (Seq r1 r2) w =
     list_ex (\<lambda>n. lang r1 (take n w) \<and> lang r2 (drop n w)) [0..<Suc (length w)]"
| "lang (Alt r1 r2) w = (lang r1 w \<or> lang r2 w)"

subsection \<open>Lemmas on the building blocks\<close>

lemma lit_match_SomeD:
  "lit_match p s = Some s' \<Longrightarrow> \<exists>u. s = u @ s' \<and> lang (Lit p) u"
proof (induction p s rule: lit_match.induct)
  case (3 p ps c cs)
  then obtain u where "cs = u @ s'" "length u = length ps" "py_lower u = py_lower ps"
    by (auto split: if_splits)
  with "3.prems" show ?case
    by (intro exI [of _ "c # u"]) (auto split: if_splits)
qed auto

lemma lit_match_append:
  "length u = length p \<Longrightarrow> py_lower u = py_lower p \<Longrightarrow> lit_match p (u @ v) = Some v"
proof (induction p arbitrary: u)
  case (Cons q ps)
  then show ?case by (cases u) auto
qed simp

lemma lang_Seq:
  "lang (Seq r1 r2) w \<longleftrightarrow> (\<exists>u v. w = u @ v \<and> lang r1 u \<and> lang r2 v)"
proof
  assume "lang (Seq r1 r2) w"
  then have "\<exists>n. lang r1 (take n w) \<and> lang r2 (drop n w)"
    by (auto simp: list_ex_iff simp del: upt_Suc)
  then show "\<exists>u v. w = u @ v \<and> lang r1 u \<and> lang r2 v"
    by (metis append_take_drop_id)
next
  assume "\<exists>u v. w = u @ v \<and> lang r1 u \<and> lang r2 v"
  then obtain u v where "w = u @ v" "lang r1 u" "lang r2 v" by blast
  then show "lang (Seq r1 r2) w"
    by (auto simp: list_ex_iff intro!: bexI [of _ "length u"])
qed

declare lang.simps(6) [simp del]
declare lang_Seq [simp]

lemma lang_Cls: "lang (Cls c) w \<longleftrightarrow> (\<exists>x. w = [x] \<and> cls_match c x)"
  by (auto split: list.splits)

lemmas lang_simps = lang.simps(1,3,4,5,7) lang_Seq lang_Cls

subsection \<open>Soundness of the matcher\<close>

lemma bt_star_sound:
  "bt (Star b c) s k = Some y \<Longrightarrow> \<exists>u v. s = u @ v \<and> list_all (cls_match c) u \<and> k v = Some y"
proof (induction s)
  case Nil
  then show ?case by (cases b) auto
next
  case (Cons x xs)
  show ?case
  proof (cases "cls_match c x")
    case True
    show ?thesis
    proof (cases "bt (Star b c) xs k = Some y \<and> (b \<or> k (x # xs) = None)")
      case True
      with Cons.IH obtain u v where "xs = u @ v" "list_all (cls_match c) u" "k v = Some y"
        by blast
      with \<open>cls_match c x\<close>
      have "x # xs = (x # u) @ v \<and> list_all (cls_match c) (x # u) \<and> k v = Some y"
        by simp
      then show ?thesis by blast
    next
      case False
      with Cons.prems True have "k (x # xs) = Some y"
        by (cases b) (auto split: option.splits)
      then show ?thesis by force
    qed
  next
    case False
    with Cons.prems have "k (x # xs) = Some y"
      by (cases b) (auto split: option.splits)
    then show ?thesis by force
  qed
qed

theorem bt_sound:
  "bt r s k = Some y \<Longrightarrow> \<exists>u v. s = u @ v \<and> lang r u \<and> k v = Some y"
proof (induction r arbitrary: s k y)
  case (Lit p)
  then obtain s' where "lit_match p s = Some s'" "k s' = Some y"
    by (auto split: option.splits)
  then show ?case by (blast dest: lit_match_SomeD)
next
  case (Cls c)
  then obtain x xs where "s = x # xs" "cls_match c x" "k xs = Some y"
    by (cases s) (auto split: if_splits)
  then have "s = [x] @ xs \<and> lang (Cls c) [x] \<and> k xs = Some y" by simp
  then show ?case by blast
next
  case (Star b c)
  then show ?case by (auto dest: bt_star_sound)
next
  case (Plus c)
  show ?case
  proof (cases s)
    case (Cons x xs)
    with Plus have "cls_match c x" "bt (Star True c) xs k = Some y"
      by (auto split: if_splits)
    then obtain u v where "xs = u @ v" "list_all (cls_match c) u" "k v = Some y"
      by (blast dest: bt_star_sound)
    with Cons \<open>cls_match c x\<close>
    have "s = (x # u) @ v \<and> lang (Plus c) (x # u) \<and> k v = Some y"
      by simp
    then show ?thesis by blast
  qed (use Plus in simp)
next
  case (Opt r)
  show ?case
  proof (cases "bt r s k")
    case None
    with Opt.prems have "k s = Some y" by simp
    then have "s = [] @ s \<and> lang (Opt r) [] \<and> k s = Some y" by simp
    then show ?thesis by blast
  next
    case (Some y')
    with Opt.prems have "bt r s k = Some y" by simp
    from Opt.IH [OF this] show ?thesis by auto
  qed
next
  case (Seq r1 r2)
  from Seq.prems obtain u1 v1 where "s = u1 @ v1" "lang r1 u1" "bt r2 v1 k = Some y"
    using Seq.IH(1) [of s "\<lambda>s'. bt r2 s' k" y] by auto
  moreover from this(3) obtain u2 v2 where "v1 = u2 @ v2" "lang r2 u2" "k v2 = Some y"
    using Seq.IH(2) by blast
  ultimately have "s = (u1 @ u2) @ v2 \<and> lang (Seq r1 r2) (u1 @ u2) \<and> k v2 = Some y"
    by auto
  then show ?case by blast
next
  case (Alt r1 r2)
  have "bt r1 s k = Some y \<or> bt r2 s k = Some y"
    using Alt.prems by (auto split: option.splits)
  then show ?case
  proof
    assume "bt r1 s k = Some y"
    from Alt.IH(1) [OF this] show ?case by auto
  next
    assume "bt r2 s k = Some y"
    from Alt.IH(2) [OF this] show ?case by auto
  qed
qed

subsection \<open>Completeness of the matcher\<close>

lemma bt_star_stop: "k s \<noteq> None \<Longrightarrow> bt (Star b c) s k \<noteq> None"
  by (cases s; cases b) (auto split: option.splits)

lemma bt_star_complete:
  "list_all (cls_match c) u \<Longrightarrow> k v \<noteq> None \<Longrightarrow> bt (Star b c) (u @ v) k \<noteq> None"
proof (induction u)
  case Nil
  then show ?case by (simp add: bt_star_stop)
next
  case (Cons x u)
  then show ?case by (cases b) (auto split: option.splits)
qed

theorem bt_complete:
  "lang r u \<Longrightarrow> k v \<noteq> None \<Longrightarrow> bt r (u @ v) k \<noteq> None"
proof (induction r arbitrary: u v k)
  case (Lit p)
  then show ?case by (simp add: lit_match_append)
next
  case (Cls c)
  then show ?case by (auto split: list.splits)
next
  case (Star b c)
  then show ?case by (simp add: bt_star_complete)
next
  case (Plus c)
  then obtain x u' where "u = x # u'" "cls_match c x" "list_all (cls_match c) u'"
    by (cases u) auto
  with Plus.prems show ?case by (simp add: bt_star_complete)
next
  case (Opt r)
  show ?case
  proof (cases "u = []")
    case True
    with Opt.prems show ?thesis by (auto split: option.splits)
  next
    case False
    with Opt.prems have "lang r u" by simp
    with Opt.IH Opt.prems have "bt r (u @ v) k \<noteq> None" by blast
    then show ?thesis by (auto split: option.splits)
  qed
next
  case (Seq r1 r2)
  from Seq.prems(1) obtain u1 u2 where "u = u1 @ u2" "lang r1 u1" "lang r2 u2"
    by auto
  with Seq.IH Seq.prems show ?case by fastforce
next
  case (Alt r1 r2)
  from Alt.prems(1) have "bt r1 (u @ v) k \<noteq> None \<or> bt r2 (u @ v) k \<noteq> None"
    using Alt.IH Alt.prems(2) by auto
  then show ?case by (auto split: option.splits)
qed

subsection \<open>Search\<close>

declare search_at.simps [simp del]

lemma bt_Some_found: "lang r u \<Longrightarrow> bt r (u @ v) Some \<noteq> None"
  by (rule bt_complete) simp_all

lemma search_at_sound:
  "search_at r pre s = Some (a, m, b) \<Longrightarrow> pre @ s = a @ m @ b \<and> lang r m \<and> prefix pre a"
proof (induction r pre s rule: search_at.induct)
  case (1 r pre s)
  show ?case
  proof (cases "bt r s Some")
    case (Some rest)
    from Some "1.prems" have res: "a = pre \<and> m = take (length s - length rest) s \<and> b = rest"
      by (auto simp: search_at.simps [of r pre s])
    from Some obtain u where "s = u @ rest" "lang r u"
      using bt_sound [of r s Some rest] by auto
    with res show ?thesis by simp
  next
    case None
    with "1.prems" obtain x xs where s: "s = x # xs"
      and rec: "search_at r (pre @ [x]) xs = Some (a, m, b)"
      by (auto simp: search_at.simps [of r pre s] split: list.splits)
    have ih: "(pre @ [x]) @ xs = a @ m @ b \<and> lang r m \<and> prefix (pre @ [x]) a"
      by (rule "1.IH" [OF None s rec])
    then have "prefix pre a"
      by (metis prefix_order.trans prefixI)
    with ih s show ?thesis by simp
  qed
qed

lemma search_at_complete:
  "s = a' @ m' @ b' \<Longrightarrow> lang r m' \<Longrightarrow> search_at r pre s \<noteq> None"
proof (induction a' arbitrary: pre s)
  case Nil
  then have "bt r s Some \<noteq> None" by (simp add: bt_Some_found)
  then show ?case by (auto simp: search_at.simps [of r pre s])
next
  case (Cons x a')
  then have "search_at r (pre @ [x]) (a' @ m' @ b') \<noteq> None" by blast
  with Cons.prems(1) show ?case
    unfolding search_at.simps [of r pre s] by (auto split: option.splits)
qed

lemma search_at_leftmost:
  "search_at r pre s = Some (a, m, b) \<Longrightarrow> s = a' @ m' @ b' \<Longrightarrow> lang r m' \<Longrightarrow>
   length a \<le> length pre + length a'"
proof (induction a' arbitrary: pre s)
  case Nil
  then have "bt r s Some \<noteq> None" by (simp add: bt_Some_found)
  with Nil.prems(1) show ?case
    by (auto simp: search_at.simps [of r pre s] split: option.splits)
next
  case (Cons x a')
  show ?case
  proof (cases "bt r s Some")
    case None
    from Cons.prems(1) have "(case bt r s Some of
        Some rest \<Rightarrow> Some (pre, take (length s - length rest) s, rest)
      | None \<Rightarrow> (case s of [] \<Rightarrow> None | x # xs \<Rightarrow> search_at r (pre @ [x]) xs)) = Some (a, m, b)"
      by (simp only: search_at.simps [of r pre s, symmetric])
    with None Cons.prems(2) have "search_at r (pre @ [x]) (a' @ m' @ b') = Some (a, m, b)"
      by simp
    with Cons.IH Cons.prems(3) show ?thesis by fastforce
  next
    case (Some rest)
    with Cons.prems(1) show ?thesis by (simp add: search_at.simps [of r pre s])
  qed
qed

lemma re_found_iff_infix:
  "re_found r s \<longleftrightarrow> (\<exists>a m b. s = a @ m @ b \<and> lang r m)"
proof
  assume "re_found r s"
  then have "search_at r [] s \<noteq> None"
    by (simp add: re_found_def re_search_def)
  then obtain a m b where "search_at r [] s = Some (a, m, b)"
    by (metis not_None_eq prod_cases3)
  then have "[] @ s = a @ m @ b \<and> lang r m \<and> prefix [] a"
    by (rule search_at_sound)
  then have "s = a @ m @ b \<and> lang r m" by simp
  then show "\<exists>a m b. s = a @ m @ b \<and> lang r m" by blast
next
  assume "\<exists>a m b. s = a @ m @ b \<and> lang r m"
  then obtain a m b where "s = a @ m @ b" "lang r m" by blast
  then have "search_at r [] s \<noteq> None" by (rule search_at_complete)
  then show "re_found r s"
    by (simp add: re_found_def re_search_def)
qed

subsection \<open>Alternations of literals are case-insensitive substring tests\<close>

lemma lang_alts:
  "ws \<noteq> [] \<Longrightarrow> lang (alts ws) m \<longleftrightarrow> (\<exists>w\<in>set ws. length m = length w \<and> py_lower m = py_lower w)"
proof (induction ws rule: alts.induct)
  case (3 w v vs)
  then show ?case by (simp only: alts.simps lang.simps(7) list.set) simp
qed simp_all

lemma infix_py_lower:
  "(\<exists>a m b. s = a @ m @ b \<and> length m = length w \<and> py_lower m = py_lower w) \<longleftrightarrow>
   sublist (py_lower w) (py_lower s)"
proof
  assume "\<exists>a m b. s = a @ m @ b \<and> length m = length w \<and> py_lower m = py_lower w"
  then show "sublist (py_lower w) (py_lower s)"
    by (metis py_lower_append sublist_appendI)
next
  assume "sublist (py_lower w) (py_lower s)"
  then obtain p q where "map py_lower_chr s = p @ (py_lower w @ q)"
    by (auto simp: sublist_def py_lower_def)
  then obtain a v where "s = a @ v" "py_lower w @ q = map py_lower_chr v"
    by (auto simp: map_eq_append_conv)
  moreover from this(2) obtain m b where "v = m @ b" "py_lower w = map py_lower_chr m"
    by (metis map_eq_append_conv)
  ultimately show "\<exists>a m b. s = a @ m @ b \<and> length m = length w \<and> py_lower m = py_lower w"
    by (metis length_map py_lower_def py_lower_length)
qed

lemma re_found_alts:
  assumes "ws \<noteq> []"
  shows "re_found (alts ws) s \<longleftrightarrow> (\<exists>w\<in>set ws. sublist (py_lower w) (py_lower s))"
proof -
  have "re_found (alts ws) s \<longleftrightarrow>
    (\<exists>a m b. s = a @ m @ b \<and> (\<exists>w\<in>set ws. length m = length w \<and> py_lower m = py_lower w))"
    by (simp add: re_found_iff_infix lang_alts [OF assms])
  also have "\<dots> \<longleftrightarrow>
    (\<exists>w\<in>set ws. \<exists>a m b. s = a @ m @ b \<and> length m = length w \<and> py_lower m = py_lower w)"
    by blast
  also have "\<dots> \<longleftrightarrow> (\<exists>w\<in>set ws. sublist (py_lower w) (py_lower s))"
    by (simp only: infix_py_lower)
  finally show ?thesis .
qed

section \<open>Properties of the search\<close>

text \<open>C21. Soundness of \<^verbatim>\<open>re.search\<close>: a reported match splits the input
  into the text before, a string the pattern denotes, and the text after.\<close>

theorem re_search_sound:
  "re_search r s = Some (a, m, b) \<Longrightarrow> s = a @ m @ b \<and> lang r m"
proof -
  assume "re_search r s = Some (a, m, b)"
  then have "search_at r [] s = Some (a, m, b)" by (simp add: re_search_def)
  then have "[] @ s = a @ m @ b \<and> lang r m \<and> prefix [] a" by (rule search_at_sound)
  then show ?thesis by simp
qed

text \<open>C22. Completeness: if some substring of the input is denoted by the
  pattern, \<^verbatim>\<open>re.search\<close> reports a match.\<close>

theorem re_search_complete:
  "s = a @ m @ b \<Longrightarrow> lang r m \<Longrightarrow> re_search r s \<noteq> None"
proof -
  assume "s = a @ m @ b" "lang r m"
  then have "search_at r [] s \<noteq> None" by (rule search_at_complete)
  then show ?thesis by (simp add: re_search_def)
qed

text \<open>C23. The reported match is the leftmost one: no match of the pattern
  starts before it.\<close>

theorem re_search_leftmost:
  "re_search r s = Some (a, m, b) \<Longrightarrow> s = a' @ m' @ b' \<Longrightarrow> lang r m' \<Longrightarrow>
   length a \<le> length a'"
proof -
  assume S: "re_search r s = Some (a, m, b)" and D: "s = a' @ m' @ b'" "lang r m'"
  from S have "search_at r [] s = Some (a, m, b)" by (simp add: re_search_def)
  from search_at_leftmost [OF this D] show ?thesis by simp
qed

section \<open>Witnesses\<close>

lemma re_search_example:
  "re_search (Seq (Lit ''ab'') (Plus Digit)) ''xAB12y'' = Some (''x'', ''AB12'', ''y'')"
  by code_simp

theorem re_search_sound_witness:
  "re_search (Seq (Lit ''ab'') (Plus Digit)) ''xAB12y'' = Some (''x'', ''AB12'', ''y'') \<and>
   ''xAB12y'' = ''x'' @ ''AB12'' @ ''y'' \<and> lang (Seq (Lit ''ab'') (Plus Digit)) ''AB12''"
  using re_search_sound [OF re_search_example] re_search_example by simp

theorem re_search_complete_witness:
  "lang (Seq (Lit ''ab'') (Plus Digit)) ''ab7'' \<and>
   re_search (Seq (Lit ''ab'') (Plus Digit)) (''zz'' @ ''ab7'' @ ''!'') \<noteq> None"
proof -
  have l: "lang (Seq (Lit ''ab'') (Plus Digit)) ''ab7''" by code_simp
  show ?thesis using re_search_complete [OF refl l, of "''zz''" "''!''"] l by simp
qed

theorem re_search_leftmost_witness:
  "re_search (Seq (Lit ''ab'') (Plus Digit)) ''xAB12y'' = Some (''x'', ''AB12'', ''y'') \<and>
   ''xAB12y'' = ''x'' @ ''AB12'' @ ''y'' \<and> lang (Seq (Lit ''ab'') (Plus Digit)) ''AB12'' \<and>
   length ''x'' \<le> length ''x''"
proof -
  have l: "lang (Seq (Lit ''ab'') (Plus Digit)) ''AB12''" by code_simp
  have s: "''xAB12y'' = ''x'' @ ''AB12'' @ ''y''" by simp
  from re_search_leftmost [OF re_search_example s l] re_search_example s l show ?thesis
    by blast
qed

end
