(* ===== verification/Soup.thy ===== *)
theory Soup
  imports PyRe
begin

text \<open>
  The parsed document (a BeautifulSoup tree) and the queries the plugin makes
  of it: \<^verbatim>\<open>get_text()\<close>, the \<^verbatim>\<open>.string\<close> property, \<^verbatim>\<open>find_all\<close> with a
  tag-name list and one filter (a \<^verbatim>\<open>class_\<close> regex, an \<^verbatim>\<open>href\<close> regex or a
  \<^verbatim>\<open>text\<close> regex), and \<^verbatim>\<open>select\<close> with a class or a type selector.
  An element keeps its tag name, its \<^verbatim>\<open>class\<close> values, its \<^verbatim>\<open>href\<close> and its
  children; a document is the root element (BeautifulSoup's
  \<^verbatim>\<open>[document]\<close> tag), and every query runs over its descendants in
  document order, as BeautifulSoup's \<^verbatim>\<open>descendants\<close> generator yields them.
  This is the library the plugin calls, modelled from its documented
  behaviour (bs4 4.x), not code of the repository.
\<close>

datatype node =
    Text pystr
  | Elem pystr "pystr list" "pystr option" "node list"
      \<comment> \<open>tag name, \<^verbatim>\<open>class\<close> values, \<^verbatim>\<open>href\<close>, children\<close>

type_synonym soup = node

subsection \<open>Text of a node\<close>

text \<open>\<^verbatim>\<open>Tag.get_text()\<close>: the strings of all descendants, concatenated.\<close>

fun get_text :: "node \<Rightarrow> pystr" where
  "get_text (Text s) = s"
| "get_text (Elem t cs h ns) = concat (map get_text ns)"

text \<open>\<^verbatim>\<open>Tag.string\<close>: the only string below a chain of only children, else
  \<^verbatim>\<open>None\<close>.\<close>

fun node_string :: "node \<Rightarrow> pystr option" where
  "node_string (Text s) = Some s"
| "node_string (Elem t cs h [n]) = node_string n"
| "node_string (Elem t cs h ns) = None"

text \<open>\<^verbatim>\<open>Tag.get('href')\<close>.\<close>

fun node_href :: "node \<Rightarrow> pystr option" where
  "node_href (Elem t cs h ns) = h"
| "node_href (Text s) = None"

text \<open>\<^verbatim>\<open>Tag.descendants\<close>, in document order (pre-order).\<close>

fun descendants :: "node \<Rightarrow> node list" where
  "descendants (Text s) = []"
| "descendants (Elem t cs h ns) = concat (map (\<lambda>n. n # descendants n) ns)"

subsection \<open>\<^verbatim>\<open>find_all\<close> and \<^verbatim>\<open>select\<close>\<close>

text \<open>A regex filter on the multi-valued \<^verbatim>\<open>class\<close> attribute matches if it
  matches one of the values or the values joined by spaces.\<close>

definition class_matches :: "rx \<Rightarrow> pystr list \<Rightarrow> bool" where
  "class_matches r cs \<longleftrightarrow> list_ex (re_found r) cs \<or> re_found r (py_join '' '' cs)"

text \<open>\<^verbatim>\<open>soup.find_all(names, class_=r)\<close>\<close>

fun class_filter :: "pystr list \<Rightarrow> rx \<Rightarrow> node \<Rightarrow> bool" where
  "class_filter names r (Elem t cs h ns) \<longleftrightarrow> t \<in> set names \<and> class_matches r cs"
| "class_filter names r (Text s) \<longleftrightarrow> False"

definition find_all_class :: "pystr list \<Rightarrow> rx \<Rightarrow> soup \<Rightarrow> node list" where
  "find_all_class names r doc = filter (class_filter names r) (descendants doc)"

text \<open>\<^verbatim>\<open>soup.find_all(names, href=r)\<close>: an element without \<^verbatim>\<open>href\<close> never
  matches.\<close>

fun href_filter :: "pystr list \<Rightarrow> rx \<Rightarrow> node \<Rightarrow> bool" where
  "href_filter names r (Elem t cs (Some h) ns) \<longleftrightarrow> t \<in> set names \<and> re_found r h"
| "href_filter names r n \<longleftrightarrow> False"

definition find_all_href :: "pystr list \<Rightarrow> rx \<Rightarrow> soup \<Rightarrow> node list" where
  "find_all_href names r doc = filter (href_filter names r) (descendants doc)"

text \<open>\<^verbatim>\<open>soup.find_all(names, text=r)\<close>: the element's \<^verbatim>\<open>.string\<close> must exist
  and match.\<close>

fun string_filter :: "pystr list \<Rightarrow> rx \<Rightarrow> node \<Rightarrow> bool" where
  "string_filter names r (Elem t cs h ns) \<longleftrightarrow>
     t \<in> set names \<and> (case node_string (Elem t cs h ns) of None \<Rightarrow> False | Some s \<Rightarrow> re_found r s)"
| "string_filter names r (Text s) \<longleftrightarrow> False"

definition find_all_string :: "pystr list \<Rightarrow> rx \<Rightarrow> soup \<Rightarrow> node list" where
  "find_all_string names r doc = filter (string_filter names r) (descendants doc)"

text \<open>The two CSS selector forms the plugin uses: \<^verbatim>\<open>.name\<close> and a tag name.\<close>

datatype selector = ByClass pystr | ByTag pystr

fun sel_matches :: "selector \<Rightarrow> node \<Rightarrow> bool" where
  "sel_matches (ByClass c) (Elem t cs h ns) \<longleftrightarrow> c \<in> set cs"
| "sel_matches (ByTag n) (Elem t cs h ns) \<longleftrightarrow> t = n"
| "sel_matches sel (Text s) \<longleftrightarrow> False"

definition select :: "selector \<Rightarrow> soup \<Rightarrow> node list" where
  "select sel doc = filter (sel_matches sel) (descendants doc)"

subsection \<open>A table as a grid\<close>

text \<open>The \<^verbatim>\<open>html_table_to_2d\<close> utility (not under \<^verbatim>\<open>src/\<close>; modelled from
  its contract): the rows (\<^verbatim>\<open>tr\<close>) of the table, each as the texts of its
  \<^verbatim>\<open>td\<close> and \<^verbatim>\<open>th\<close> cells.\<close>

fun is_tag :: "pystr list \<Rightarrow> node \<Rightarrow> bool" where
  "is_tag names (Elem t cs h ns) \<longleftrightarrow> t \<in> set names"
| "is_tag names (Text s) \<longleftrightarrow> False"

definition table_to_2d :: "node \<Rightarrow> pystr list list" where
  "table_to_2d tbl =
     map (\<lambda>row. map get_text (filter (is_tag [''td'', ''th'']) (descendants row)))
       (filter (is_tag [''tr'']) (descendants tbl))"

subsection \<open>Lemmas\<close>

lemma node_string_get_text: "node_string n = Some s \<Longrightarrow> get_text n = s"
  by (induction n rule: node_string.induct) auto

lemma string_filter_text:
  assumes "string_filter names r n"
  shows "\<exists>s. node_string n = Some s \<and> get_text n = s \<and> re_found r s"
proof (cases n)
  case (Elem t cs h ns)
  with assms obtain s where "node_string n = Some s" "re_found r s"
    by (auto split: option.splits simp del: node_string.simps)
  moreover from this(1) have "get_text n = s" by (rule node_string_get_text)
  ultimately show ?thesis by blast
qed (use assms in simp)

lemma find_all_string_text:
  "n \<in> set (find_all_string names r doc) \<Longrightarrow> re_found r (get_text n)"
  by (auto simp: find_all_string_def dest: string_filter_text)

text \<open>The texts \<^verbatim>\<open>find_all(names, text=r)\<close> yields are the \<^verbatim>\<open>.string\<close>s of
  the elements with one of the names whose \<^verbatim>\<open>.string\<close> exists and matches.\<close>

lemma find_all_string_strings:
  "map get_text (find_all_string names r doc) =
   List.map_filter (\<lambda>el. if is_tag names el then
       (case node_string el of Some s \<Rightarrow> if re_found r s then Some s else None | None \<Rightarrow> None) else None)
     (descendants doc)"
proof -
  have "map get_text (filter (string_filter names r) xs) =
        List.map_filter (\<lambda>el. if is_tag names el then
          (case node_string el of Some s \<Rightarrow> if re_found r s then Some s else None | None \<Rightarrow> None) else None) xs"
    for xs
  proof (induction xs)
    case (Cons x xs)
    then show ?case
      by (cases x) (auto simp: map_filter_simps node_string_get_text simp del: node_string.simps get_text.simps
          split: option.splits)
  qed (simp add: map_filter_simps)
  then show ?thesis by (simp add: find_all_string_def)
qed

end
