(* ===== verification/IpAddress.thy ===== *)
theory IpAddress
  imports Prelude "HOL-Library.Code_Target_Nat"
begin

unbundle bit_operations_syntax

text \<open>
  The validation \<^verbatim>\<open>urlsplit\<close> performs on a network location that has
  both brackets (CPython 3.12, \<^verbatim>\<open>urllib.parse._check_bracketed_netloc\<close>
  and \<^verbatim>\<open>_check_bracketed_host\<close>), with the parts of the
  \<^verbatim>\<open>ipaddress\<close> module it calls: \<^verbatim>\<open>IPv4Address\<close> and \<^verbatim>\<open>IPv6Address\<close>
  built from a string, and \<^verbatim>\<open>ip_address\<close>. An address is its value, a
  Python int (\<open>nat\<close>); \<^verbatim>\<open>AddressValueError\<close> and \<^verbatim>\<open>ValueError\<close> are
  \<open>None\<close>, and a check that raises is \<open>False\<close>. The lemmas show that the
  octet parser inverts \<^verbatim>\<open>str\<close> on bytes and that \<^verbatim>\<open>IPv4Address\<close> accepts
  exactly the canonical dotted quads.
\<close>

subsection \<open>Digits\<close>

definition is_ascii_digit :: "char \<Rightarrow> bool" where
  "is_ascii_digit c \<longleftrightarrow> (48::nat) \<le> of_char c \<and> of_char c \<le> (57::nat)"

text \<open>\<^verbatim>\<open>_HEX_DIGITS = frozenset('0123456789abcdefABCDEF')\<close>\<close>

definition is_hex_digit :: "char \<Rightarrow> bool" where
  "is_hex_digit c \<longleftrightarrow> c \<in> set ''0123456789abcdefABCDEF''"

definition hex_val :: "char \<Rightarrow> nat" where
  "hex_val c =
     (if is_ascii_digit c then of_char c - 48
      else if c \<in> set ''abcdef'' then of_char c - 87 else of_char c - 55)"

text \<open>\<^verbatim>\<open>int(s, 16)\<close> on a string of hex digits.\<close>

definition hex_value :: "pystr \<Rightarrow> nat" where
  "hex_value s = foldl (\<lambda>n c. 16 * n + hex_val c) 0 s"

text \<open>\<^verbatim>\<open>'%x' % n\<close>\<close>

definition hex_char :: "nat \<Rightarrow> char" where
  "hex_char d = (if d < 10 then char_of (48 + d) else char_of (87 + d))"

fun py_hex :: "nat \<Rightarrow> pystr" where
  "py_hex n = (if n < 16 then [hex_char n] else py_hex (n div 16) @ [hex_char (n mod 16)])"

declare py_hex.simps [simp del]

subsection \<open>\<^verbatim>\<open>IPv4Address\<close>\<close>

text \<open>\<^verbatim>\<open>IPv4Address._parse_octet\<close>: ASCII digits, at most three, no leading
  zero, at most 255.\<close>

definition parse_octet :: "pystr \<Rightarrow> nat option" where
  "parse_octet s =
     (if s = [] then None
      else if \<not> list_all is_ascii_digit s then None
      else if 3 < length s then None
      else if s \<noteq> ''0'' \<and> hd s = CHR ''0'' then None
      else if 255 < digits_value s then None
      else Some (digits_value s))"

text \<open>\<^verbatim>\<open>IPv4Address._ip_int_from_string\<close>: four octets separated by dots,
  read as a big-endian number (\<^verbatim>\<open>int.from_bytes(..., 'big')\<close>).\<close>

definition ipv4_int :: "pystr \<Rightarrow> nat option" where
  "ipv4_int s =
     (if s = [] then None
      else let octets = py_split CHR ''.'' s in
        if length octets \<noteq> 4 then None
        else map_option (foldl (\<lambda>n b. 256 * n + b) 0) (those (map parse_octet octets)))"

text \<open>\<^verbatim>\<open>IPv4Address(s)\<close> for a string \<open>s\<close>.\<close>

definition ipv4_address :: "pystr \<Rightarrow> nat option" where
  "ipv4_address s = (if CHR ''/'' \<in> set s then None else ipv4_int s)"

text \<open>\<^verbatim>\<open>str(IPv4Address(v))\<close>: the four bytes in decimal, joined by dots.\<close>

definition ipv4_str :: "nat \<Rightarrow> pystr" where
  "ipv4_str v =
     py_join ''.'' (map py_str_nat [v div 2 ^ 24 mod 256, v div 2 ^ 16 mod 256, v div 2 ^ 8 mod 256, v mod 256])"

subsection \<open>\<^verbatim>\<open>IPv6Address\<close>\<close>

text \<open>\<^verbatim>\<open>IPv6Address._parse_hextet\<close>: hex digits only, at most four
  (\<^verbatim>\<open>int('', 16)\<close> raises on the empty string).\<close>

definition parse_hextet :: "pystr \<Rightarrow> nat option" where
  "parse_hextet s =
     (if \<not> list_all is_hex_digit s then None
      else if 4 < length s then None
      else if s = [] then None
      else Some (hex_value s))"

text \<open>\<^verbatim>\<open>ip_int <<= 16; ip_int |= hextet\<close> over a list of hextets.\<close>

definition shift_in :: "nat \<Rightarrow> nat list \<Rightarrow> nat" where
  "shift_in ip hs = foldl (\<lambda>n h. push_bit 16 n OR h) ip hs"

text \<open>An IPv4 suffix is replaced by two hextets written in hex.\<close>

definition ipv4_suffix :: "pystr list \<Rightarrow> pystr list option" where
  "ipv4_suffix parts =
     (if CHR ''.'' \<in> set (last parts)
      then map_option (\<lambda>v. butlast parts @ [py_hex (drop_bit 16 v AND 65535), py_hex (v AND 65535)])
             (ipv4_address (last parts))
      else Some parts)"

text \<open>The position of the one empty part between the ends (the \<^verbatim>\<open>::\<close>), if any;
  \<open>None\<close> when there are two.\<close>

definition skip_index :: "pystr list \<Rightarrow> nat option option" where
  "skip_index parts =
     (case filter (\<lambda>i. parts ! i = []) [1..<length parts - 1] of
        [] \<Rightarrow> Some None
      | [i] \<Rightarrow> Some (Some i)
      | _ \<Rightarrow> None)"

text \<open>The numbers of hextets before and after the \<^verbatim>\<open>::\<close> and the number it
  stands for, checked as \<^verbatim>\<open>_ip_int_from_string\<close> checks them.\<close>

definition hextet_layout :: "pystr list \<Rightarrow> nat option \<Rightarrow> (nat \<times> nat \<times> nat) option" where
  "hextet_layout parts sk =
     (case sk of
        None \<Rightarrow> if length parts \<noteq> 8 then None else Some (length parts, 0, 0)
      | Some i \<Rightarrow>
          let hi = i - (if hd parts = [] then 1 else 0);
              lo = length parts - i - 1 - (if last parts = [] then 1 else 0)
          in if hd parts = [] \<and> i \<noteq> 1 then None
             else if last parts = [] \<and> length parts - i - 1 \<noteq> 1 then None
             else if 8 < hi + lo + 1 then None
             else Some (hi, lo, 8 - (hi + lo)))"

definition ipv6_int :: "pystr \<Rightarrow> nat option" where
  "ipv6_int s =
     (if s = [] then None
      else let parts0 = py_split CHR '':'' s in
        if length parts0 < 3 then None
        else case ipv4_suffix parts0 of
          None \<Rightarrow> None
        | Some parts \<Rightarrow>
            if 9 < length parts then None
            else case skip_index parts of
              None \<Rightarrow> None
            | Some sk \<Rightarrow>
                (case hextet_layout parts sk of
                   None \<Rightarrow> None
                 | Some (hi, lo, skipped) \<Rightarrow>
                     (case (those (map parse_hextet (take hi parts)),
                            those (map parse_hextet (drop (length parts - lo) parts))) of
                        (Some hs, Some ls) \<Rightarrow> Some (shift_in (push_bit (16 * skipped) (shift_in 0 hs)) ls)
                      | _ \<Rightarrow> None)))"

text \<open>\<^verbatim>\<open>IPv6Address(s)\<close>: no slash, an optional non-empty scope after one
  \<^verbatim>\<open>%\<close>, then the address.\<close>

definition ipv6_address :: "pystr \<Rightarrow> nat option" where
  "ipv6_address s =
     (if CHR ''/'' \<in> set s then None
      else let addr = takeWhile (\<lambda>c. c \<noteq> CHR ''%'') s; scope = dropWhile (\<lambda>c. c \<noteq> CHR ''%'') s in
        if scope \<noteq> [] \<and> (tl scope = [] \<or> CHR ''%'' \<in> set (tl scope)) then None
        else ipv6_int addr)"

datatype ip_addr = IPv4Address nat | IPv6Address nat

text \<open>\<^verbatim>\<open>ipaddress.ip_address(s)\<close>: IPv4 first, then IPv6.\<close>

definition ip_address :: "pystr \<Rightarrow> ip_addr option" where
  "ip_address s =
     (case ipv4_address s of
        Some v \<Rightarrow> Some (IPv4Address v)
      | None \<Rightarrow> map_option IPv6Address (ipv6_address s))"

subsection \<open>The bracketed network location\<close>

text \<open>\<^verbatim>\<open>re.match(r"\Av[a-fA-F0-9]+\..+\z", hostname)\<close>: the hex digits
  are the longest run after the \<^verbatim>\<open>v\<close>, since a dot is not one.\<close>

definition ipvfuture_ok :: "pystr \<Rightarrow> bool" where
  "ipvfuture_ok h \<longleftrightarrow>
     (let r = drop 1 h; rest = dropWhile is_hex_digit r in
      prefix ''v'' h \<and> takeWhile is_hex_digit r \<noteq> [] \<and> rest \<noteq> [] \<and> hd rest = CHR ''.'' \<and>
      tl rest \<noteq> [] \<and> CHR 0x0A \<notin> set (tl rest))"

definition check_bracketed_host :: "pystr \<Rightarrow> bool" where
  "check_bracketed_host h \<longleftrightarrow>
     (if prefix ''v'' h then ipvfuture_ok h
      else case ip_address h of Some (IPv6Address v) \<Rightarrow> True | _ \<Rightarrow> False)"

text \<open>\<^verbatim>\<open>_check_bracketed_netloc\<close>: after the last \<^verbatim>\<open>@\<close>, nothing before the
  bracket, only a port after it, and a valid bracketed host; when no bracket
  follows the last \<^verbatim>\<open>@\<close>, the host checked is the text before the first
  \<^verbatim>\<open>:\<close> (\<^verbatim>\<open>hostname_and_port.partition(':')\<close>).\<close>

definition check_bracketed_netloc :: "pystr \<Rightarrow> bool" where
  "check_bracketed_netloc n \<longleftrightarrow>
     (let hp = rev (takeWhile (\<lambda>c. c \<noteq> CHR ''@'') (rev n)) in
      if CHR ''['' \<in> set hp then
        (let bracketed = drop 1 (dropWhile (\<lambda>c. c \<noteq> CHR ''['') hp);
             port = drop 1 (dropWhile (\<lambda>c. c \<noteq> CHR '']'') bracketed)
         in takeWhile (\<lambda>c. c \<noteq> CHR ''['') hp = [] \<and> (port = [] \<or> prefix '':'' port) \<and>
            check_bracketed_host (takeWhile (\<lambda>c. c \<noteq> CHR '']'') bracketed))
      else check_bracketed_host (takeWhile (\<lambda>c. c \<noteq> CHR '':'') hp))"

subsection \<open>Octets and the dotted quad\<close>

text \<open>Bytes of a 32-bit number, decimal strings of octets, and their parser.\<close>

lemma byte_step: "d < 256 \<Longrightarrow> (256 * k + d) div 256 = k \<and> (256 * k + d) mod 256 = (d::nat)"
  by simp

lemma div_2_pow_bytes:
  "(x::nat) div 2 ^ 16 = x div 256 div 256" "(x::nat) div 2 ^ 24 = x div 256 div 256 div 256"
  "(x::nat) div 2 ^ 8 = x div 256"
  using div_mult2_eq [of x 256 256] div_mult2_eq [of x 65536 256] by simp_all

lemma bytes4_join:
  "v < 2 ^ 32 \<Longrightarrow>
   256 * (256 * (256 * (v div 2 ^ 24 mod 256) + v div 2 ^ 16 mod 256) + v div 2 ^ 8 mod 256) + v mod 256 = (v::nat)"
proof -
  assume v: "v < 2 ^ 32"
  have "v div 256 div 256 div 256 < 256"
    using v by (simp add: div_mult2_eq [symmetric] div_less_iff_less_mult)
  then have a: "v div 256 div 256 div 256 mod 256 = v div 256 div 256 div 256" by simp
  show ?thesis
    by (simp only: div_2_pow_bytes a mult_div_mod_eq)
qed

lemma bytes4_split:
  assumes "a < 256" "b < 256" "c < 256" "d < (256::nat)"
  shows "(256 * (256 * (256 * a + b) + c) + d) div 2 ^ 24 mod 256 = a \<and>
         (256 * (256 * (256 * a + b) + c) + d) div 2 ^ 16 mod 256 = b \<and>
         (256 * (256 * (256 * a + b) + c) + d) div 2 ^ 8 mod 256 = c \<and>
         (256 * (256 * (256 * a + b) + c) + d) mod 256 = d \<and>
         256 * (256 * (256 * a + b) + c) + d < 2 ^ 32"
proof -
  have e: "256 * (256 * (256 * a + b) + c) + d = 16777216 * a + 65536 * b + 256 * c + d" by simp
  have s: "256 * (256 * (256 * a + b) + c) + d < 2 ^ 32"
  proof -
    have "(2::nat) ^ 32 = 4294967296" by simp
    then show ?thesis unfolding e using assms by linarith
  qed
  have x1: "(256 * (256 * (256 * a + b) + c) + d) div 256 = 256 * (256 * a + b) + c"
    "(256 * (256 * (256 * a + b) + c) + d) mod 256 = d"
    using byte_step [OF assms(4), of "256 * (256 * a + b) + c"] by auto
  have x2: "(256 * (256 * a + b) + c) div 256 = 256 * a + b" "(256 * (256 * a + b) + c) mod 256 = c"
    using byte_step [OF assms(3), of "256 * a + b"] by auto
  have x3: "(256 * a + b) div 256 = a" "(256 * a + b) mod 256 = b"
    using byte_step [OF assms(2), of a] by auto
  have a: "a mod 256 = a" using assms(1) by simp
  show ?thesis
    by (simp only: div_2_pow_bytes x1 x2 x3 a s simp_thms)
qed

lemma foldl_digits_ge: "(a::nat) \<le> foldl (\<lambda>n c. 10 * n + (of_char c - 48)) a (xs :: pystr)"
proof (induction xs arbitrary: a)
  case (Cons x xs)
  have "a \<le> 10 * a + (of_char x - (48::nat))" by simp
  also have "\<dots> \<le> foldl (\<lambda>n c. 10 * n + (of_char c - 48)) (10 * a + (of_char x - 48)) xs"
    by (rule Cons.IH)
  finally show ?case by simp
qed simp

lemma py_str_nat_ne: "py_str_nat n \<noteq> []"
  by (subst py_str_nat.simps) simp

lemma py_str_nat_0: "py_str_nat 0 = ''0''"
  by code_simp

lemma py_str_nat_canonical:
  "s \<noteq> [] \<Longrightarrow> list_all is_ascii_digit s \<Longrightarrow> (s = ''0'' \<or> hd s \<noteq> CHR ''0'') \<Longrightarrow>
   py_str_nat (digits_value s) = s"
proof (induction s rule: rev_induct)
  case (snoc c s)
  from snoc.prems(2) have c: "(48::nat) \<le> of_char c" "of_char c \<le> (57::nat)"
    by (simp_all add: is_ascii_digit_def)
  define d where "d = of_char c - (48::nat)"
  have d: "d < 10" "char_of (48 + d) = c" using c by (simp_all add: d_def)
  have dv: "digits_value (s @ [c]) = 10 * digits_value s + d"
    by (simp add: digits_value_snoc d_def)
  show ?case
  proof (cases "s = []")
    case True
    then have "digits_value (s @ [c]) = d" by (simp add: dv digits_value_def d_def)
    with True d show ?thesis by (subst py_str_nat.simps) simp
  next
    case False
    then obtain x xs where s: "s = x # xs" by (cases s) auto
    from snoc.prems(3) s have hx: "x \<noteq> CHR ''0''" by auto
    from snoc.prems(2) s have "is_ascii_digit x" by simp
    moreover have "of_char x \<noteq> (48::nat)"
    proof
      assume "of_char x = (48::nat)"
      then have "x = char_of (48::nat)" by (metis char_of_char)
      moreover have "char_of (48::nat) = CHR ''0''" by code_simp
      ultimately show False using hx by simp
    qed
    ultimately have "1 \<le> of_char x - (48::nat)"
      by (auto simp: is_ascii_digit_def)
    also have "\<dots> \<le> digits_value s"
      using foldl_digits_ge [of "of_char x - 48" xs] by (simp add: s digits_value_def)
    finally have pos: "0 < digits_value s" by simp
    have ih: "py_str_nat (digits_value s) = s"
      using snoc.IH False snoc.prems(2) s hx by simp
    have "py_str_nat (10 * digits_value s + d) = py_str_nat (digits_value s) @ [char_of (48 + d)]"
      using pos d(1) by (subst py_str_nat.simps) simp
    with ih d(2) dv show ?thesis by simp
  qed
qed simp

lemma py_str_nat_hd: "n \<noteq> 0 \<Longrightarrow> hd (py_str_nat n) \<noteq> CHR ''0''"
proof (induction n rule: py_str_nat.induct)
  case (1 n)
  show ?case
  proof (cases "n < 10")
    case True
    then have "of_char (char_of (48 + n) :: char) = 48 + n" by (simp add: of_char_of)
    moreover have "of_char (CHR ''0'') = (48::nat)" by code_simp
    ultimately have "char_of (48 + n) \<noteq> CHR ''0''" using "1.prems" by (metis add_cancel_left_right)
    with True show ?thesis by (subst py_str_nat.simps) simp
  next
    case False
    then have "hd (py_str_nat (n div 10)) \<noteq> CHR ''0''" using "1.IH" by simp
    with False show ?thesis by (subst py_str_nat.simps) (simp add: py_str_nat_ne)
  qed
qed

lemma py_str_nat_length: "n < 1000 \<Longrightarrow> length (py_str_nat n) \<le> 3"
proof -
  assume "n < 1000"
  have l1: "m < 10 \<Longrightarrow> length (py_str_nat m) = 1" for m by (subst py_str_nat.simps) simp
  have l2: "m < 100 \<Longrightarrow> length (py_str_nat m) \<le> 2" for m
    using l1 [of "m div 10"] by (subst py_str_nat.simps) simp
  show ?thesis using l2 [of "n div 10"] \<open>n < 1000\<close> by (subst py_str_nat.simps) simp
qed

lemma py_str_nat_is_digits: "list_all is_ascii_digit (py_str_nat n)"
  using py_str_nat_digits [of n] by (simp add: list_all_iff is_ascii_digit_def)

lemma parse_octet_str: "x \<le> 255 \<Longrightarrow> parse_octet (py_str_nat x) = Some x"
proof -
  assume x: "x \<le> 255"
  have "py_str_nat x \<noteq> ''0'' \<Longrightarrow> hd (py_str_nat x) \<noteq> CHR ''0''"
    using py_str_nat_hd [of x] by (cases "x = 0") (simp_all add: py_str_nat_0)
  then show ?thesis
    using x py_str_nat_length [of x] by (auto simp: parse_octet_def py_str_nat_ne py_str_nat_is_digits
        py_str_nat_roundtrip)
qed

lemma parse_octet_SomeD: "parse_octet s = Some x \<Longrightarrow> x \<le> 255 \<and> py_str_nat x = s"
  by (auto simp: parse_octet_def py_str_nat_canonical split: if_splits)

lemma set_py_join: "set (py_join sep ws) \<subseteq> set sep \<union> \<Union> (set ` set ws)"
  by (induction sep ws rule: py_join.induct) auto

lemma py_join_ne: "w \<noteq> [] \<Longrightarrow> py_join sep (w # ws) \<noteq> []"
  by (cases ws) simp_all

subsection \<open>Canonical IPv4 strings\<close>

text \<open>\<^verbatim>\<open>IPv4Address\<close> accepts exactly the strings \<^verbatim>\<open>str\<close> prints:
  a string parses to the value v if and only if v is a 32-bit number and
  the string is v's dotted quad, so leading zeros, short or long quads,
  octets above 255 and non-digits are all refused, and printing then parsing
  gives the value back.\<close>

theorem ipv4_address_canonical:
  "ipv4_address s = Some v \<longleftrightarrow> v < 2 ^ 32 \<and> s = ipv4_str v"
proof
  assume A: "ipv4_address s = Some v"
  then have s: "s \<noteq> []" "length (py_split CHR ''.'' s) = 4"
    and T: "map_option (foldl (\<lambda>n b. 256 * n + b) 0) (those (map parse_octet (py_split CHR ''.'' s))) = Some v"
    by (auto simp: ipv4_address_def ipv4_int_def Let_def split: if_splits)
  from s(2) obtain o1 o2 o3 o4 where os: "py_split CHR ''.'' s = [o1, o2, o3, o4]"
    by (auto simp: numeral_eq_Suc length_Suc_conv)
  from T os obtain x1 x2 x3 x4 where
    x: "parse_octet o1 = Some x1" "parse_octet o2 = Some x2" "parse_octet o3 = Some x3" "parse_octet o4 = Some x4"
    and v: "v = 256 * (256 * (256 * x1 + x2) + x3) + x4"
    by (auto split: option.splits)
  from x have b: "x1 \<le> 255 \<and> py_str_nat x1 = o1" "x2 \<le> 255 \<and> py_str_nat x2 = o2"
    "x3 \<le> 255 \<and> py_str_nat x3 = o3" "x4 \<le> 255 \<and> py_str_nat x4 = o4"
    by (simp_all add: parse_octet_SomeD)
  then have "x1 < 256" "x2 < 256" "x3 < 256" "x4 < 256" by simp_all
  note bytes = bytes4_split [OF this]
  have "s = py_join ''.'' [o1, o2, o3, o4]"
    using py_join_split [of "CHR ''.''" s] os by simp
  with b bytes v show "v < 2 ^ 32 \<and> s = ipv4_str v"
    by (simp add: ipv4_str_def)
next
  assume "v < 2 ^ 32 \<and> s = ipv4_str v"
  then have v: "v < 2 ^ 32" and s: "s = ipv4_str v" by auto
  define xs where "xs = [v div 2 ^ 24 mod 256, v div 2 ^ 16 mod 256, v div 2 ^ 8 mod 256, v mod (256::nat)]"
  have s': "s = py_join ''.'' (map py_str_nat xs)" by (simp add: s ipv4_str_def xs_def)
  have nodot: "\<forall>w\<in>set (map py_str_nat xs). CHR ''.'' \<notin> set w"
  proof -
    have "CHR ''.'' \<notin> set (py_str_nat x)" for x
    proof
      assume "CHR ''.'' \<in> set (py_str_nat x)"
      with py_str_nat_digits [of x] have "(48::nat) \<le> of_char (CHR ''.'')" by blast
      moreover have "of_char (CHR ''.'') = (46::nat)" by code_simp
      ultimately show False by simp
    qed
    then show ?thesis by simp
  qed
  have split: "py_split CHR ''.'' s = map py_str_nat xs"
    using py_split_join [of "map py_str_nat xs" "CHR ''.''"] nodot by (simp add: s' xs_def)
  have oct: "those (map parse_octet (map py_str_nat xs)) = Some xs"
    by (simp add: xs_def parse_octet_str)
  have noslash: "CHR ''/'' \<notin> set s"
  proof
    assume "CHR ''/'' \<in> set s"
    with set_py_join [of "''.''" "map py_str_nat xs"] s' have
      "CHR ''/'' = CHR ''.'' \<or> (\<exists>x. CHR ''/'' \<in> set (py_str_nat x))" by auto
    moreover have "of_char (CHR ''/'') = (47::nat)" by code_simp
    ultimately show False using py_str_nat_digits by fastforce
  qed
  have "s \<noteq> []" using s' py_join_ne [of "py_str_nat (v div 2 ^ 24 mod 256)"] py_str_nat_ne
    by (simp add: xs_def)
  moreover have "v div 2 ^ 24 mod 256 = v div 2 ^ 24"
    using v by (simp add: div_less_iff_less_mult)
  ultimately show "ipv4_address s = Some v"
    using noslash split oct bytes4_join [OF v]
    by (simp add: ipv4_address_def ipv4_int_def xs_def)
qed
theorem ipv4_address_canonical_witness:
  "ipv4_address (ipv4_str 3232235521) = Some 3232235521 \<and> ipv4_str 3232235521 = ''192.168.0.1''"
proof
  show "ipv4_address (ipv4_str 3232235521) = Some 3232235521"
    using ipv4_address_canonical [of "ipv4_str 3232235521" 3232235521] by simp
  show "ipv4_str 3232235521 = ''192.168.0.1''" by code_simp
qed

end
