(* ===== verification/UrlParse.thy ===== *)
theory UrlParse
  imports IpAddress
begin

text \<open>
  The part of the standard library's \<^verbatim>\<open>urllib.parse\<close> that the plugin calls:
  \<^verbatim>\<open>urljoin(base, url)\<close>, with the \<^verbatim>\<open>urlsplit\<close>, \<^verbatim>\<open>urlparse\<close>,
  \<^verbatim>\<open>urlunsplit\<close> and \<^verbatim>\<open>urlunparse\<close> it is built from (CPython 3.12).
  A split URL is the record \<open>url_parts\<close> (the named tuple \<^verbatim>\<open>ParseResult\<close>);
  the \<^verbatim>\<open>ValueError\<close> that \<^verbatim>\<open>urlsplit\<close> raises on an unbalanced bracket in
  the network location, or on a bracketed host that is not an IPv6 or IPvFuture
  literal (theory \<open>IpAddress\<close>), is the result \<open>None\<close>.
\<close>

record url_parts =
  u_scheme :: pystr
  u_netloc :: pystr
  u_path :: pystr
  u_params :: pystr
  u_query :: pystr
  u_fragment :: pystr

subsection \<open>The scheme tables\<close>

definition uses_relative :: "pystr list" where
  "uses_relative =
     [[], ''ftp'', ''http'', ''gopher'', ''nntp'', ''imap'', ''wais'', ''file'', ''https'',
      ''shttp'', ''mms'', ''prospero'', ''rtsp'', ''rtsps'', ''rtspu'', ''sftp'', ''svn'',
      ''svn+ssh'', ''ws'', ''wss'']"

definition uses_netloc :: "pystr list" where
  "uses_netloc =
     [[], ''ftp'', ''http'', ''gopher'', ''nntp'', ''telnet'', ''imap'', ''wais'', ''file'',
      ''mms'', ''https'', ''shttp'', ''snews'', ''prospero'', ''rtsp'', ''rtsps'', ''rtspu'',
      ''rsync'', ''svn'', ''svn+ssh'', ''sftp'', ''nfs'', ''git'', ''git+ssh'', ''ws'', ''wss'',
      ''itms-services'']"

definition uses_params :: "pystr list" where
  "uses_params =
     [[], ''ftp'', ''hdl'', ''prospero'', ''http'', ''imap'', ''https'', ''shttp'', ''rtsp'',
      ''rtsps'', ''rtspu'', ''sip'', ''sips'', ''mms'', ''sftp'', ''tel'']"

subsection \<open>String helpers\<close>

text \<open>\<^verbatim>\<open>s.split(c, 1)\<close> where \<open>c\<close> occurs in \<open>s\<close>.\<close>

definition split_once :: "char \<Rightarrow> pystr \<Rightarrow> pystr \<times> pystr" where
  "split_once c s = (takeWhile (\<lambda>x. x \<noteq> c) s, drop 1 (dropWhile (\<lambda>x. x \<noteq> c) s))"

text \<open>\<^verbatim>\<open>url.lstrip(_WHATWG_C0_CONTROL_OR_SPACE)\<close>, then the removal of tab,
  carriage return and line feed.\<close>

definition is_c0_or_space :: "char \<Rightarrow> bool" where
  "is_c0_or_space c \<longleftrightarrow> of_char c \<le> (32::nat)"

definition is_unsafe_byte :: "char \<Rightarrow> bool" where
  "is_unsafe_byte c \<longleftrightarrow> c \<in> set [CHR 0x09, CHR 0x0D, CHR 0x0A]"

definition url_strip :: "pystr \<Rightarrow> pystr" where
  "url_strip u = filter (\<lambda>c. \<not> is_unsafe_byte c) (dropWhile is_c0_or_space u)"

definition is_ascii_alpha :: "char \<Rightarrow> bool" where
  "is_ascii_alpha c \<longleftrightarrow>
     ((65::nat) \<le> of_char c \<and> of_char c \<le> (90::nat)) \<or> ((97::nat) \<le> of_char c \<and> of_char c \<le> (122::nat))"

text \<open>\<^verbatim>\<open>scheme_chars\<close>: ASCII letters, digits and \<^verbatim>\<open>+-.\<close>.\<close>

definition is_scheme_char :: "char \<Rightarrow> bool" where
  "is_scheme_char c \<longleftrightarrow>
     is_ascii_alpha c \<or> ((48::nat) \<le> of_char c \<and> of_char c \<le> (57::nat)) \<or> c \<in> set ''+-.''"

subsection \<open>\<^verbatim>\<open>urlsplit\<close> and \<^verbatim>\<open>urlparse\<close>\<close>

text \<open>The scheme: the text before the first colon when it starts with an
  ASCII letter and has only scheme characters, lowered; else the default.\<close>

definition split_scheme_url :: "pystr \<Rightarrow> pystr \<Rightarrow> pystr \<times> pystr" where
  "split_scheme_url u sch =
     (let i = takeWhile (\<lambda>c. c \<noteq> CHR '':'') u in
      if CHR '':'' \<in> set u \<and> i \<noteq> [] \<and> is_ascii_alpha (hd i) \<and> list_all is_scheme_char i
      then (py_lower i, drop (Suc (length i)) u) else (sch, u))"

text \<open>\<^verbatim>\<open>_splitnetloc(url, 2)\<close>, applied after the two slashes.\<close>

definition split_netloc :: "pystr \<Rightarrow> pystr \<times> pystr" where
  "split_netloc u = (takeWhile (\<lambda>c. c \<notin> set ''/?#'') u, dropWhile (\<lambda>c. c \<notin> set ''/?#'') u)"

definition bad_brackets :: "pystr \<Rightarrow> bool" where
  "bad_brackets n \<longleftrightarrow>
     (CHR ''['' \<in> set n \<and> CHR '']'' \<notin> set n) \<or> (CHR '']'' \<in> set n \<and> CHR ''['' \<notin> set n)"

definition urlsplit :: "pystr \<Rightarrow> pystr \<Rightarrow> url_parts option" where
  "urlsplit url0 sch =
     (let (scheme, u) = split_scheme_url (url_strip url0) sch;
          (netloc, u) = (if prefix ''//'' u then split_netloc (drop 2 u) else ([], u))
      in if bad_brackets netloc then None
         else if CHR ''['' \<in> set netloc \<and> CHR '']'' \<in> set netloc \<and> \<not> check_bracketed_netloc netloc
         then None
         else
           let (u, fragment) = (if CHR ''#'' \<in> set u then split_once CHR ''#'' u else (u, []));
               (path, query) = (if CHR ''?'' \<in> set u then split_once CHR ''?'' u else (u, []))
           in Some \<lparr>u_scheme = scheme, u_netloc = netloc, u_path = path, u_params = [],
                    u_query = query, u_fragment = fragment\<rparr>)"

text \<open>\<^verbatim>\<open>_splitparams\<close>: the parameters start at the first semicolon of the
  last path segment.\<close>

definition split_params :: "pystr \<Rightarrow> pystr \<times> pystr" where
  "split_params p =
     (let k = length (dropWhile (\<lambda>c. c \<noteq> CHR ''/'') (rev p)); seg = drop k p in
      if CHR '';'' \<in> set seg
      then (take k p @ takeWhile (\<lambda>c. c \<noteq> CHR '';'') seg, drop 1 (dropWhile (\<lambda>c. c \<noteq> CHR '';'') seg))
      else (p, []))"

definition urlparse :: "pystr \<Rightarrow> pystr \<Rightarrow> url_parts option" where
  "urlparse url sch =
     (case urlsplit url sch of
        None \<Rightarrow> None
      | Some r \<Rightarrow>
          if u_scheme r \<in> set uses_params \<and> CHR '';'' \<in> set (u_path r)
          then (case split_params (u_path r) of (p, ps) \<Rightarrow> Some (r\<lparr>u_path := p, u_params := ps\<rparr>))
          else Some r)"

subsection \<open>\<^verbatim>\<open>urlunsplit\<close> and \<^verbatim>\<open>urlunparse\<close>\<close>

definition urlunsplit :: "pystr \<Rightarrow> pystr \<Rightarrow> pystr \<Rightarrow> pystr \<Rightarrow> pystr \<Rightarrow> pystr" where
  "urlunsplit scheme netloc url query fragment =
     (let url =
        (if netloc \<noteq> [] then ''//'' @ netloc @ (if url \<noteq> [] \<and> \<not> prefix ''/'' url then ''/'' @ url else url)
         else if prefix ''//'' url then ''//'' @ url
         else if scheme \<noteq> [] \<and> scheme \<in> set uses_netloc \<and> (url = [] \<or> prefix ''/'' url) then ''//'' @ url
         else url);
          url = (if scheme \<noteq> [] then scheme @ '':'' @ url else url)
      in url @ (if query \<noteq> [] then ''?'' @ query else []) @ (if fragment \<noteq> [] then ''#'' @ fragment else []))"

definition urlunparse :: "url_parts \<Rightarrow> pystr" where
  "urlunparse r =
     urlunsplit (u_scheme r) (u_netloc r)
       (u_path r @ (if u_params r \<noteq> [] then '';'' @ u_params r else [])) (u_query r) (u_fragment r)"

subsection \<open>\<^verbatim>\<open>urljoin\<close>\<close>

text \<open>The loop over the segments: \<^verbatim>\<open>..\<close> pops the last resolved segment (an
  empty stack raises \<^verbatim>\<open>IndexError\<close>, which is passed over), \<^verbatim>\<open>.\<close> is
  skipped, anything else is pushed.\<close>

fun resolve_segs :: "pystr list \<Rightarrow> pystr list \<Rightarrow> pystr list" where
  "resolve_segs acc [] = acc"
| "resolve_segs acc (seg # segs) =
     (if seg = ''..'' then resolve_segs (butlast acc) segs
      else if seg = ''.'' then resolve_segs acc segs
      else resolve_segs (acc @ [seg]) segs)"

text \<open>\<^verbatim>\<open>segments[1:-1] = filter(None, segments[1:-1])\<close>\<close>

definition drop_empty_middle :: "pystr list \<Rightarrow> pystr list" where
  "drop_empty_middle s =
     (if length s \<le> 2 then s else hd s # filter (\<lambda>x. x \<noteq> []) (butlast (tl s)) @ [last s])"

definition resolve_path :: "pystr \<Rightarrow> pystr \<Rightarrow> pystr" where
  "resolve_path bpath path =
     (let base_parts = py_split CHR ''/'' bpath;
          base_parts = (if last base_parts \<noteq> [] then butlast base_parts else base_parts);
          segments = (if prefix ''/'' path then py_split CHR ''/'' path
                      else drop_empty_middle (base_parts @ py_split CHR ''/'' path));
          resolved = resolve_segs [] segments @ (if last segments \<in> {''.'', ''..''} then [[]] else []);
          joined = py_join ''/'' resolved
      in if joined = [] then ''/'' else joined)"

definition py_urljoin :: "pystr \<Rightarrow> pystr \<Rightarrow> pystr option" where
  "py_urljoin base url =
     (if base = [] then Some url else if url = [] then Some base else
      case urlparse base [] of
        None \<Rightarrow> None
      | Some b \<Rightarrow>
      (case urlparse url (u_scheme b) of
        None \<Rightarrow> None
      | Some u \<Rightarrow>
          if u_scheme u \<noteq> u_scheme b \<or> u_scheme u \<notin> set uses_relative then Some url
          else if u_scheme u \<in> set uses_netloc \<and> u_netloc u \<noteq> [] then Some (urlunparse u)
          else
            let u = (if u_scheme u \<in> set uses_netloc then u\<lparr>u_netloc := u_netloc b\<rparr> else u)
            in if u_path u = [] \<and> u_params u = []
               then Some (urlunparse (u\<lparr>u_path := u_path b, u_params := u_params b,
                            u_query := (if u_query u = [] then u_query b else u_query u)\<rparr>))
               else Some (urlunparse (u\<lparr>u_path := resolve_path (u_path b) (u_path u)\<rparr>))))"

subsection \<open>Lemmas\<close>

subsubsection \<open>Resolution of dot segments\<close>

lemma resolve_segs_subset: "set (resolve_segs acc segs) \<subseteq> set acc \<union> set segs"
  by (induction acc segs rule: resolve_segs.induct) (auto dest: in_set_butlastD)

lemma resolve_segs_no_dots:
  "set acc \<inter> {''.'', ''..''} = {} \<Longrightarrow> set (resolve_segs acc segs) \<inter> {''.'', ''..''} = {}"
  by (induction acc segs rule: resolve_segs.induct) (auto dest: in_set_butlastD)

lemma drop_empty_middle_subset: "set (drop_empty_middle s) \<subseteq> set s"
proof (cases "length s \<le> 2")
  case False
  then have "s \<noteq> []" by auto
  then have "set (butlast (tl s)) \<subseteq> set s" "hd s \<in> set s" "last s \<in> set s"
    by (cases s; auto dest: in_set_butlastD)+
  with False show ?thesis by (auto simp: drop_empty_middle_def)
qed (simp add: drop_empty_middle_def)

lemma resolve_path_ne: "resolve_path bp p \<noteq> []"
  by (simp add: resolve_path_def Let_def)

subsubsection \<open>Splitting an absolute and a root-relative URL\<close>

lemma url_strip_id: "\<forall>c\<in>set u. (32::nat) < of_char c \<Longrightarrow> url_strip u = u"
proof -
  assume A: "\<forall>c\<in>set u. (32::nat) < of_char c"
  then have "dropWhile is_c0_or_space u = u"
    by (cases u) (auto simp: is_c0_or_space_def)
  moreover have "\<not> is_unsafe_byte c" if "c \<in> set u" for c
    using A that by (auto simp: is_unsafe_byte_def)
  ultimately show ?thesis
    by (simp add: url_strip_def)
qed

lemma http_schemes:
  "s \<in> {''http'', ''https''} \<Longrightarrow>
   s \<noteq> [] \<and> CHR '':'' \<notin> set s \<and> is_ascii_alpha (hd s) \<and> list_all is_scheme_char s \<and>
   py_lower s = s \<and> (\<forall>c\<in>set s. (32::nat) < of_char c) \<and>
   s \<in> set uses_relative \<and> s \<in> set uses_netloc"
  by (auto simp: is_ascii_alpha_def is_scheme_char_def uses_relative_def uses_netloc_def; code_simp)

lemma split_scheme_known:
  assumes "s \<noteq> []" "CHR '':'' \<notin> set s" "is_ascii_alpha (hd s)" "list_all is_scheme_char s"
  shows "split_scheme_url (s @ CHR '':'' # r) d = (py_lower s, r)"
proof -
  from assms(2) have "\<forall>x\<in>set s. x \<noteq> CHR '':''" by auto
  then have "takeWhile (\<lambda>c. c \<noteq> CHR '':'') (s @ CHR '':'' # r) = s"
    by (simp add: takeWhile_append2)
  with assms show ?thesis by (simp add: split_scheme_url_def Let_def)
qed

lemma split_scheme_slash: "split_scheme_url (CHR ''/'' # r) d = (d, CHR ''/'' # r)"
  by (simp add: split_scheme_url_def is_ascii_alpha_def)

lemma split_netloc_app:
  assumes "\<forall>c\<in>set n. c \<notin> set ''/?#''" "rest = [] \<or> hd rest \<in> set ''/?#''"
  shows "split_netloc (n @ rest) = (n, rest)"
  using assms by (cases rest) (auto simp: split_netloc_def takeWhile_append2 dropWhile_append2)

lemma prefix_slash_split_once:
  "prefix ''/'' u \<Longrightarrow> c \<noteq> CHR ''/'' \<Longrightarrow> prefix ''/'' (fst (split_once c u))"
  by (cases u) (auto simp: split_once_def)

lemma urlsplit_Some:
  assumes "split_scheme_url (url_strip url0) d = (sc, u)"
    and "(if prefix ''//'' u then split_netloc (drop 2 u) else ([], u)) = (n, v)"
    and "\<not> bad_brackets n"
    and "\<not> (CHR ''['' \<in> set n \<and> CHR '']'' \<in> set n \<and> \<not> check_bracketed_netloc n)"
  shows "\<exists>r. urlsplit url0 d = Some r \<and> u_scheme r = sc \<and> u_netloc r = n \<and>
           (prefix ''/'' v \<longrightarrow> prefix ''/'' (u_path r))"
proof -
  obtain v' f where F: "(if CHR ''#'' \<in> set v then split_once CHR ''#'' v else (v, [])) = (v', f)"
    by fastforce
  obtain pth q where Q: "(if CHR ''?'' \<in> set v' then split_once CHR ''?'' v' else (v', [])) = (pth, q)"
    by fastforce
  have "prefix ''/'' v \<longrightarrow> prefix ''/'' v'"
    using F prefix_slash_split_once [of v "CHR ''#''"] by (auto split: if_splits)
  moreover have "prefix ''/'' v' \<longrightarrow> prefix ''/'' pth"
    using Q prefix_slash_split_once [of v' "CHR ''?''"] by (auto split: if_splits)
  ultimately show ?thesis
    using assms F Q by (simp add: urlsplit_def)
qed

lemma prefix_slash_split_params: "prefix ''/'' p \<Longrightarrow> prefix ''/'' (fst (split_params p))"
proof -
  assume P: "prefix ''/'' p"
  then obtain p' where p: "p = CHR ''/'' # p'" by (auto simp: prefix_def)
  have "dropWhile (\<lambda>c. c \<noteq> CHR ''/'') (rev p) \<noteq> []"
    by (simp add: p dropWhile_append3)
  then have "0 < length (dropWhile (\<lambda>c. c \<noteq> CHR ''/'') (rev p))" by simp
  then show ?thesis
    using P by (auto simp: split_params_def Let_def p take_Cons')
qed

lemma urlparse_of_split:
  "urlsplit u d = Some r \<Longrightarrow>
   \<exists>r'. urlparse u d = Some r' \<and> u_scheme r' = u_scheme r \<and> u_netloc r' = u_netloc r \<and>
        (prefix ''/'' (u_path r) \<longrightarrow> prefix ''/'' (u_path r'))"
  using prefix_slash_split_params [of "u_path r"]
  by (auto simp: urlparse_def split: prod.splits)

lemma urlunsplit_abs:
  "s \<noteq> [] \<Longrightarrow> n \<noteq> [] \<Longrightarrow> url \<noteq> [] \<Longrightarrow>
   \<exists>t. urlunsplit s n url q f = s @ ''://'' @ n @ ''/'' @ t"
proof -
  assume "s \<noteq> []" "n \<noteq> []" "url \<noteq> []"
  moreover have "\<exists>t0. (if url \<noteq> [] \<and> \<not> prefix ''/'' url then ''/'' @ url else url) = CHR ''/'' # t0"
    using \<open>url \<noteq> []\<close> by (cases url) auto
  then obtain t0 where "(if url \<noteq> [] \<and> \<not> prefix ''/'' url then ''/'' @ url else url) = CHR ''/'' # t0" ..
  ultimately show ?thesis
    by (simp add: urlunsplit_def Let_def)
qed

lemma urlunparse_netloc:
  "u_scheme X \<noteq> [] \<Longrightarrow> u_netloc X \<noteq> [] \<Longrightarrow> \<exists>t. urlunparse X = u_scheme X @ ''://'' @ t"
  by (simp add: urlunparse_def urlunsplit_def Let_def)

lemma urlunparse_host:
  assumes "u_scheme X \<noteq> []" "u_netloc X \<noteq> []"
  shows "\<exists>t. urlunparse X = u_scheme X @ ''://'' @ u_netloc X @ t \<and> (t = [] \<or> hd t \<in> set ''/?#'')"
proof -
  define p where "p = u_path X @ (if u_params X \<noteq> [] then '';'' @ u_params X else [])"
  define q where "q = (if u_query X \<noteq> [] then ''?'' @ u_query X else [])"
  define f where "f = (if u_fragment X \<noteq> [] then ''#'' @ u_fragment X else [])"
  define p' where "p' = (if p \<noteq> [] \<and> \<not> prefix ''/'' p then ''/'' @ p else p)"
  have u: "urlunparse X = u_scheme X @ ''://'' @ u_netloc X @ (p' @ q @ f)"
    using assms by (simp add: urlunparse_def urlunsplit_def Let_def p_def q_def f_def p'_def)
  have "p' = [] \<or> hd p' = CHR ''/''"
    by (cases p) (auto simp: p'_def prefix_def)
  moreover have "q = [] \<or> hd q = CHR ''?''" "f = [] \<or> hd f = CHR ''#''"
    by (simp_all add: q_def f_def)
  ultimately have "p' @ q @ f = [] \<or> hd (p' @ q @ f) \<in> set ''/?#''"
    by (auto simp: hd_append)
  with u show ?thesis by blast
qed

text \<open>When the reference has no scheme of its own and the base has a network
  location, the join keeps the base's scheme and has a network location.\<close>

lemma urljoin_keeps_scheme:
  assumes "base \<noteq> []" "url \<noteq> []" "urlparse base [] = Some b" "u_scheme b = s" "u_netloc b \<noteq> []"
    and "s \<noteq> []" "s \<in> set uses_relative" "s \<in> set uses_netloc"
    and "urlparse url s = Some u" "u_scheme u = s"
  shows "\<exists>t. py_urljoin base url = Some (s @ ''://'' @ t)"
proof -
  have "\<exists>X. py_urljoin base url = Some (urlunparse X) \<and> u_scheme X = s \<and> u_netloc X \<noteq> []"
    using assms by (auto simp: py_urljoin_def Let_def)
  then obtain X where X: "py_urljoin base url = Some (urlunparse X)" "u_scheme X = s" "u_netloc X \<noteq> []"
    by blast
  from X(3) obtain t where "urlunparse X = s @ ''://'' @ t"
    using urlunparse_netloc [of X] X(2) assms(6) by blast
  with X(1) show ?thesis by (intro exI [of _ t]) simp
qed

lemma urlsplit_scheme:
  "split_scheme_url (url_strip url0) d = (sc, v) \<Longrightarrow> urlsplit url0 d = Some r \<Longrightarrow> u_scheme r = sc"
  by (auto simp: urlsplit_def split: prod.splits if_splits)

lemma urlparse_scheme:
  "urlparse url0 d = Some r \<Longrightarrow> \<exists>r0. urlsplit url0 d = Some r0 \<and> u_scheme r = u_scheme r0"
  by (auto simp: urlparse_def split: option.splits prod.splits if_splits)

lemma urlsplit_bad_brackets:
  "split_scheme_url (url_strip url0) d = (sc, v) \<Longrightarrow> prefix ''//'' v \<Longrightarrow>
   bad_brackets (fst (split_netloc (drop 2 v))) \<Longrightarrow> urlsplit url0 d = None"
  by (auto simp: urlsplit_def split: prod.splits)

text \<open>The absolute base the plugin passes: \<open>http(s)://host\<close> and the rest.\<close>

lemma urlparse_http_base:
  assumes S: "s \<in> {''http'', ''https''}"
    and N: "n \<noteq> []" "\<forall>c\<in>set n. c \<notin> set ''/?#[]''"
    and R: "rest = [] \<or> hd rest \<in> set ''/?#''"
    and C: "\<forall>c\<in>set (n @ rest). (32::nat) < of_char c"
  shows "\<exists>b. urlparse (s @ ''://'' @ n @ rest) [] = Some b \<and> u_scheme b = s \<and> u_netloc b = n"
proof -
  note hs = http_schemes [OF S]
  have nb: "\<not> bad_brackets n" using N(2) by (auto simp: bad_brackets_def)
  have "CHR ''['' \<notin> set n" using N(2) by auto
  then have nb2: "\<not> (CHR ''['' \<in> set n \<and> CHR '']'' \<in> set n \<and> \<not> check_bracketed_netloc n)"
    by blast
  have "url_strip (s @ ''://'' @ n @ rest) = s @ ''://'' @ n @ rest"
    using C hs by (intro url_strip_id) auto
  then have "split_scheme_url (url_strip (s @ ''://'' @ n @ rest)) [] = (s, ''//'' @ n @ rest)"
    using split_scheme_known [of s "''//'' @ n @ rest" "[]"] hs by simp
  moreover have "(if prefix ''//'' (''//'' @ n @ rest) then split_netloc (drop 2 (''//'' @ n @ rest))
                  else ([], ''//'' @ n @ rest)) = (n, rest)"
    using split_netloc_app [of n rest] N(2) R by auto
  ultimately obtain b0 where "urlsplit (s @ ''://'' @ n @ rest) [] = Some b0"
    "u_scheme b0 = s" "u_netloc b0 = n"
    using urlsplit_Some nb nb2 by blast
  then show ?thesis
    using urlparse_of_split by fastforce
qed

text \<open>C27. On a page whose URL is \<open>http(s)://host\<close> followed by nothing or by a
  path, query or fragment, \<^verbatim>\<open>urljoin\<close> resolves a root-relative reference
  \<^verbatim>\<open>/...\<close> to an absolute URL with the page's scheme and host, whatever
  dot segments the reference has.\<close>

theorem urljoin_root_relative:
  assumes S: "s \<in> {''http'', ''https''}"
    and N: "n \<noteq> []" "\<forall>c\<in>set n. c \<notin> set ''/?#[]''"
    and R: "rest = [] \<or> hd rest \<in> set ''/?#''"
    and C: "\<forall>c\<in>set (n @ rest @ p). (32::nat) < of_char c"
    and P: "\<not> prefix ''/'' p"
  shows "\<exists>t. py_urljoin (s @ ''://'' @ n @ rest) (CHR ''/'' # p) = Some (s @ ''://'' @ n @ ''/'' @ t)"
proof -
  note hs = http_schemes [OF S]
  obtain b where B: "urlparse (s @ ''://'' @ n @ rest) [] = Some b" "u_scheme b = s" "u_netloc b = n"
    using urlparse_http_base [OF S N R] C by auto
  have "url_strip (CHR ''/'' # p) = CHR ''/'' # p"
    using C by (intro url_strip_id) auto
  then have "split_scheme_url (url_strip (CHR ''/'' # p)) s = (s, CHR ''/'' # p)"
    by (simp add: split_scheme_slash)
  moreover have "(if prefix ''//'' (CHR ''/'' # p) then split_netloc (drop 2 (CHR ''/'' # p))
                  else ([], CHR ''/'' # p)) = ([], CHR ''/'' # p)"
    using P by simp
  moreover have "\<not> bad_brackets []" by (simp add: bad_brackets_def)
  moreover have "\<not> (CHR ''['' \<in> set [] \<and> CHR '']'' \<in> set [] \<and> \<not> check_bracketed_netloc [])"
    by simp
  ultimately have "\<exists>r. urlsplit (CHR ''/'' # p) s = Some r \<and> u_scheme r = s \<and> u_netloc r = [] \<and>
                  (prefix ''/'' (CHR ''/'' # p) \<longrightarrow> prefix ''/'' (u_path r))"
    by (rule urlsplit_Some)
  then obtain u0 where "urlsplit (CHR ''/'' # p) s = Some u0" "u_scheme u0 = s"
    "u_netloc u0 = []" "prefix ''/'' (u_path u0)"
    by auto
  then obtain u where U: "urlparse (CHR ''/'' # p) s = Some u" "u_scheme u = s" "u_netloc u = []"
    "prefix ''/'' (u_path u)"
    using urlparse_of_split by fastforce
  define u' where "u' = u\<lparr>u_netloc := n, u_path := resolve_path (u_path b) (u_path u)\<rparr>"
  have J: "py_urljoin (s @ ''://'' @ n @ rest) (CHR ''/'' # p) = Some (urlunparse u')"
    using B U hs by (auto simp: py_urljoin_def u'_def Let_def)
  have "\<exists>t. urlunparse u' = s @ ''://'' @ n @ ''/'' @ t"
    unfolding urlunparse_def using urlunsplit_abs [of "u_scheme u'" "u_netloc u'"]
    by (simp add: u'_def U(2) hs N(1) resolve_path_ne)
  with J show ?thesis by auto
qed

text \<open>However the base path and the reference combine, the path
  \<^verbatim>\<open>urljoin\<close> rebuilds has no \<^verbatim>\<open>.\<close> and no \<^verbatim>\<open>..\<close> segment left.\<close>

theorem resolve_path_no_dot_segments:
  "''.'' \<notin> set (py_split CHR ''/'' (resolve_path bp p)) \<and>
   ''..'' \<notin> set (py_split CHR ''/'' (resolve_path bp p))"
proof -
  define bps where "bps = (let base_parts = py_split CHR ''/'' bp in
    if last base_parts \<noteq> [] then butlast base_parts else base_parts)"
  define segs where "segs = (if prefix ''/'' p then py_split CHR ''/'' p
    else drop_empty_middle (bps @ py_split CHR ''/'' p))"
  define res where "res = resolve_segs [] segs @ (if last segs \<in> {''.'', ''..''} then [[]] else [])"
  have R: "resolve_path bp p = (if py_join ''/'' res = [] then ''/'' else py_join ''/'' res)"
    by (simp add: resolve_path_def bps_def segs_def res_def Let_def)
  have "set bps \<subseteq> set (py_split CHR ''/'' bp)"
    by (auto simp: bps_def Let_def dest: in_set_butlastD)
  then have "set segs \<subseteq> set (py_split CHR ''/'' bp) \<union> set (py_split CHR ''/'' p)"
    using drop_empty_middle_subset [of "bps @ py_split CHR ''/'' p"] by (auto simp: segs_def)
  moreover have "set res \<subseteq> set segs \<union> {[]}"
    using resolve_segs_subset [of "[]" segs] by (auto simp: res_def)
  ultimately have "w = [] \<or> w \<in> set (py_split CHR ''/'' bp) \<or> w \<in> set (py_split CHR ''/'' p)"
    if "w \<in> set res" for w
    using that by blast
  then have nosep: "\<forall>w\<in>set res. CHR ''/'' \<notin> set w"
    by (metis empty_iff empty_set py_split_nosep)
  have nodots: "set res \<inter> {''.'', ''..''} = {}"
    using resolve_segs_no_dots [of "[]" segs] by (auto simp: res_def)
  show ?thesis
  proof (cases "py_join ''/'' res = []")
    case True
    have "py_split CHR ''/'' ''/'' = [[], []]" by (simp add: Let_def)
    with True R show ?thesis by simp
  next
    case False
    then have "res \<noteq> []" by auto
    then have "py_split CHR ''/'' (py_join ''/'' res) = res"
      using nosep by (rule py_split_join)
    with False R nodots show ?thesis by auto
  qed
qed

lemma url_strip_slash:
  "url_strip (CHR ''/'' # p) = CHR ''/'' # filter (\<lambda>c. \<not> is_unsafe_byte c) p"
  by (simp add: url_strip_def is_c0_or_space_def is_unsafe_byte_def)

text \<open>Any reference starting with a slash, root-relative or network-path
  (\<^verbatim>\<open>//host/...\<close>), joined to such a base, is an absolute URL with the
  base's scheme, unless \<^verbatim>\<open>urlsplit\<close> raises \<^verbatim>\<open>ValueError\<close>.\<close>

lemma urljoin_slash:
  assumes S: "s \<in> {''http'', ''https''}"
    and N: "n \<noteq> []" "\<forall>c\<in>set n. c \<notin> set ''/?#[]''"
    and R: "rest = [] \<or> hd rest \<in> set ''/?#''"
    and C: "\<forall>c\<in>set (n @ rest). (32::nat) < of_char c"
  shows "py_urljoin (s @ ''://'' @ n @ rest) (CHR ''/'' # p) = None \<or>
         (\<exists>t. py_urljoin (s @ ''://'' @ n @ rest) (CHR ''/'' # p) = Some (s @ ''://'' @ t))"
proof -
  note hs = http_schemes [OF S]
  obtain b where B: "urlparse (s @ ''://'' @ n @ rest) [] = Some b" "u_scheme b = s" "u_netloc b = n"
    using urlparse_http_base [OF S N R C] by auto
  have sc: "split_scheme_url (url_strip (CHR ''/'' # p)) s =
            (s, CHR ''/'' # filter (\<lambda>c. \<not> is_unsafe_byte c) p)"
    by (simp add: url_strip_slash split_scheme_slash)
  show ?thesis
  proof (cases "urlparse (CHR ''/'' # p) s")
    case None
    with B show ?thesis by (simp add: py_urljoin_def)
  next
    case (Some u)
    with sc have "u_scheme u = s"
      using urlparse_scheme urlsplit_scheme by metis
    then have "\<exists>t. py_urljoin (s @ ''://'' @ n @ rest) (CHR ''/'' # p) = Some (s @ ''://'' @ t)"
      using Some B hs N(1) by (intro urljoin_keeps_scheme [of _ _ b _ u]) auto
    then show ?thesis ..
  qed
qed


text \<open>A network-path reference whose host part has an unbalanced bracket
  makes \<^verbatim>\<open>urlsplit\<close> raise \<^verbatim>\<open>ValueError\<close>: \<^verbatim>\<open>urljoin\<close> fails, on any
  non-empty base.\<close>

theorem urljoin_bad_brackets:
  assumes "base \<noteq> []" "bad_brackets (takeWhile (\<lambda>c. c \<notin> set ''/?#'') p)"
    and "\<forall>c\<in>set p. (32::nat) < of_char c"
  shows "py_urljoin base (''//'' @ p) = None"
proof -
  have "url_strip (''//'' @ p) = ''//'' @ p"
    using assms(3) by (intro url_strip_id) auto
  then have "split_scheme_url (url_strip (''//'' @ p)) d = (d, ''//'' @ p)" for d
    using split_scheme_slash [of "CHR ''/'' # p" d] by simp
  then have "urlsplit (''//'' @ p) d = None" for d
    using assms(2) by (intro urlsplit_bad_brackets) (auto simp: split_netloc_def)
  then have "urlparse (''//'' @ p) d = None" for d
    by (simp add: urlparse_def)
  with assms(1) show ?thesis
    by (simp add: py_urljoin_def split: option.splits)
qed

text \<open>\<^verbatim>\<open>c.join(s.split(c)) == s\<close> for every string, and splitting the
  join of a non-empty list of pieces without \<open>c\<close> gives the pieces back.\<close>

theorem py_split_join_roundtrip:
  "py_join [c] (py_split c s) = s \<and>
   (ws \<noteq> [] \<longrightarrow> (\<forall>w\<in>set ws. c \<notin> set w) \<longrightarrow> py_split c (py_join [c] ws) = ws)"
  by (simp add: py_join_split py_split_join)

subsection \<open>Evaluations\<close>

text \<open>The examples of RFC 3986, section 5.4, with the results CPython's own
  tests expect of \<^verbatim>\<open>urljoin\<close>.\<close>

lemma urljoin_rfc3986_examples:
  "map (py_urljoin ''http://a/b/c/d;p?q'')
     [''g:h'', ''g'', ''./g'', ''g/'', ''/g'', ''//g'', ''?y'', ''g?y'', ''#s'', ''g#s'', ''g?y#s'', '';x'',
      ''g;x'', ''g;x?y#s'', '''', ''.'', ''./'', ''..'', ''../'', ''../g'', ''../..'', ''../../'', ''../../g'',
      ''../../../g'', ''../../../../g'', ''/./g'', ''/../g'', ''g.'', ''.g'', ''g..'', ''..g'', ''./../g'',
      ''./g/.'', ''g/./h'', ''g/../h'', ''g;x=1/./y'', ''g;x=1/../y'', ''http:g'']
   = map Some
     [''g:h'', ''http://a/b/c/g'', ''http://a/b/c/g'', ''http://a/b/c/g/'', ''http://a/g'', ''http://g'',
      ''http://a/b/c/d;p?y'', ''http://a/b/c/g?y'', ''http://a/b/c/d;p?q#s'', ''http://a/b/c/g#s'',
      ''http://a/b/c/g?y#s'', ''http://a/b/c/;x'', ''http://a/b/c/g;x'', ''http://a/b/c/g;x?y#s'',
      ''http://a/b/c/d;p?q'', ''http://a/b/c/'', ''http://a/b/c/'', ''http://a/b/'', ''http://a/b/'',
      ''http://a/b/g'', ''http://a/'', ''http://a/'', ''http://a/g'', ''http://a/g'', ''http://a/g'',
      ''http://a/g'', ''http://a/g'', ''http://a/b/c/g.'', ''http://a/b/c/.g'', ''http://a/b/c/g..'',
      ''http://a/b/c/..g'', ''http://a/b/g'', ''http://a/b/c/g/'', ''http://a/b/c/g/h'', ''http://a/b/c/h'',
      ''http://a/b/c/g;x=1/y'', ''http://a/b/c/y'', ''http://a/b/c/g'']"
  by code_simp

text \<open>Network-path references with bracketed hosts, with the results of
  CPython 3.12: an \<^verbatim>\<open>@\<close> inside the brackets leaves an empty host before
  the \<^verbatim>\<open>:\<close>, text before the bracket or between the bracket and the
  port is refused, and user info, a port and an IPvFuture literal are
  accepted.\<close>

lemma urljoin_bracketed_examples:
  "map (py_urljoin ''https://county.gov/x'')
     [''//[@::1]/x.pdf'', ''//u@[::1]:8080/x.pdf'', ''//[::1]x/x.pdf'', ''//[v1.a]/x.pdf'',
      ''//a[::1]/x.pdf'', ''//[::1]@h]/x.pdf'', ''//[::1]@[::2]/x.pdf'', ''//[127.0.0.1]/x.pdf'']
   = [None, Some ''https://u@[::1]:8080/x.pdf'', None, Some ''https://[v1.a]/x.pdf'',
      None, None, Some ''https://[::1]@[::2]/x.pdf'', None]"
  by code_simp

subsection \<open>Witnesses\<close>

lemma urljoin_root_relative_witness:
  "py_urljoin ''https://county.gov/x'' ''/forms/../forms/permit-app.pdf'' =
     Some ''https://county.gov/forms/permit-app.pdf'' \<and>
   (\<exists>t. py_urljoin (''https'' @ ''://'' @ ''county.gov'' @ ''/x'') (CHR ''/'' # ''forms/../forms/permit-app.pdf'') =
        Some (''https'' @ ''://'' @ ''county.gov'' @ ''/'' @ t))"
proof -
  have h: "''https'' \<in> {''http'', ''https''}" "''county.gov'' \<noteq> []"
    "\<forall>c\<in>set ''county.gov''. c \<notin> set ''/?#[]''" "''/x'' = [] \<or> hd ''/x'' \<in> set ''/?#''"
    "\<forall>c\<in>set (''county.gov'' @ ''/x'' @ ''forms/../forms/permit-app.pdf''). (32::nat) < of_char c"
    "\<not> prefix ''/'' ''forms/../forms/permit-app.pdf''"
    by code_simp+
  have "py_urljoin ''https://county.gov/x'' ''/forms/../forms/permit-app.pdf'' =
     Some ''https://county.gov/forms/permit-app.pdf''" by code_simp
  with urljoin_root_relative [OF h] show ?thesis by simp
qed

lemma urljoin_bad_brackets_witness:
  "py_urljoin ''https://county.gov/x'' (''//'' @ ''[::1/permit.pdf'') = None"
proof -
  have h: "''https://county.gov/x'' \<noteq> []"
    "bad_brackets (takeWhile (\<lambda>c. c \<notin> set ''/?#'') ''[::1/permit.pdf'')"
    "\<forall>c\<in>set ''[::1/permit.pdf''. (32::nat) < of_char c"
    by code_simp+
  show ?thesis by (rule urljoin_bad_brackets [OF h])
qed

lemma py_split_join_roundtrip_witness:
  "py_join ''/'' (py_split CHR ''/'' ''/a//b/'') = ''/a//b/'' \<and>
   py_split CHR ''/'' (py_join ''/'' [''a'', '''', ''b'']) = [''a'', '''', ''b'']"
  using py_split_join_roundtrip [of "CHR ''/''" "''/a//b/''" "[''a'', '''', ''b'']"] by simp



text \<open>C28. On a page at \<open>http(s)://host...\<close>, a network-path reference
  \<open>//h...\<close> whose host \<open>h\<close> has no brackets is joined to a URL on \<open>h\<close>, not on
  the page's host: the result is the page's scheme, \<open>://\<close>, \<open>h\<close>, and then
  nothing or a path, query or fragment.\<close>

theorem urljoin_network_path:
  assumes S: "s \<in> {''http'', ''https''}"
    and N: "n \<noteq> []" "\<forall>c\<in>set n. c \<notin> set ''/?#[]''"
    and R: "rest = [] \<or> hd rest \<in> set ''/?#''"
    and C: "\<forall>c\<in>set (n @ rest @ h @ rest'). (32::nat) < of_char c"
    and H: "h \<noteq> []" "\<forall>c\<in>set h. c \<notin> set ''/?#[]''"
    and R': "rest' = [] \<or> hd rest' \<in> set ''/?#''"
  shows "\<exists>t. py_urljoin (s @ ''://'' @ n @ rest) (''//'' @ h @ rest') = Some (s @ ''://'' @ h @ t) \<and>
             (t = [] \<or> hd t \<in> set ''/?#'')"
proof -
  note hs = http_schemes [OF S]
  obtain b where B: "urlparse (s @ ''://'' @ n @ rest) [] = Some b" "u_scheme b = s" "u_netloc b = n"
    using urlparse_http_base [OF S N R] C by auto
  have "url_strip (''//'' @ h @ rest') = ''//'' @ h @ rest'"
    using C by (intro url_strip_id) auto
  then have sc: "split_scheme_url (url_strip (''//'' @ h @ rest')) s = (s, ''//'' @ h @ rest')"
    using split_scheme_slash [of "CHR ''/'' # h @ rest'" s] by simp
  have "split_netloc (h @ rest') = (h, rest')"
    using split_netloc_app [of h rest'] H(2) R' by auto
  then have "(if prefix ''//'' (''//'' @ h @ rest') then split_netloc (drop 2 (''//'' @ h @ rest'))
              else ([], ''//'' @ h @ rest')) = (h, rest')"
    by simp
  moreover have "\<not> bad_brackets h" using H(2) by (auto simp: bad_brackets_def)
  moreover have "\<not> (CHR ''['' \<in> set h \<and> CHR '']'' \<in> set h \<and> \<not> check_bracketed_netloc h)"
    using H(2) by auto
  ultimately obtain r0 where "urlsplit (''//'' @ h @ rest') s = Some r0" "u_scheme r0 = s" "u_netloc r0 = h"
    using urlsplit_Some [OF sc] by blast
  then obtain u where U: "urlparse (''//'' @ h @ rest') s = Some u" "u_scheme u = s" "u_netloc u = h"
    using urlparse_of_split by fastforce
  then have "py_urljoin (s @ ''://'' @ n @ rest) (''//'' @ h @ rest') = Some (urlunparse u)"
    using B hs N(1) H(1) by (simp add: py_urljoin_def)
  moreover obtain t where "urlunparse u = s @ ''://'' @ h @ t" "t = [] \<or> hd t \<in> set ''/?#''"
  proof -
    have "u_scheme u \<noteq> []" "u_netloc u \<noteq> []" using U hs H(1) by auto
    from urlunparse_host [OF this] U(2,3) show ?thesis using that by blast
  qed
  ultimately show ?thesis by (intro exI [of _ t]) simp
qed

lemma urljoin_network_path_witness:
  "py_urljoin ''https://county.gov/x'' ''//other.gov/forms/a.pdf'' = Some ''https://other.gov/forms/a.pdf'' \<and>
   (\<exists>t. py_urljoin (''https'' @ ''://'' @ ''county.gov'' @ ''/x'') (''//'' @ ''other.gov'' @ ''/forms/a.pdf'') =
        Some (''https'' @ ''://'' @ ''other.gov'' @ t) \<and> (t = [] \<or> hd t \<in> set ''/?#''))"
proof -
  have h: "''https'' \<in> {''http'', ''https''}" "''county.gov'' \<noteq> []"
    "\<forall>c\<in>set ''county.gov''. c \<notin> set ''/?#[]''" "''/x'' = [] \<or> hd ''/x'' \<in> set ''/?#''"
    "\<forall>c\<in>set (''county.gov'' @ ''/x'' @ ''other.gov'' @ ''/forms/a.pdf''). (32::nat) < of_char c"
    "''other.gov'' \<noteq> []" "\<forall>c\<in>set ''other.gov''. c \<notin> set ''/?#[]''"
    "''/forms/a.pdf'' = [] \<or> hd ''/forms/a.pdf'' \<in> set ''/?#''"
    by code_simp+
  have "py_urljoin ''https://county.gov/x'' ''//other.gov/forms/a.pdf'' = Some ''https://other.gov/forms/a.pdf''"
    by code_simp
  with urljoin_network_path [OF h] show ?thesis by simp
qed

end
