(* ===== verification/Models.thy ===== *)
theory Models
  imports Soup UrlParse
begin

text \<open>
  The data the plugin produces and the collaborators it calls. The
  \<^verbatim>\<open>Record\<close> and \<^verbatim>\<open>Download\<close> containers (\<^verbatim>\<open>scraper/models\<close>, not under
  \<^verbatim>\<open>src/\<close>) are modelled from the fields \<^verbatim>\<open>parse\<close> writes and the spec's data
  model. The utilities of \<^verbatim>\<open>scraper/utils\<close> (\<^verbatim>\<open>clean_text\<close>,
  \<^verbatim>\<open>find_contacts\<close>, \<^verbatim>\<open>find_address_block\<close>, \<^verbatim>\<open>html_table_to_2d\<close>,
  \<^verbatim>\<open>guess_jurisdiction\<close>), the standard library's \<^verbatim>\<open>urljoin\<close> and the
  \<^verbatim>\<open>Download\<close> constructor are the plugin's interface to the rest of the
  system: they are the fields of the record \<open>env\<close>, and every lemma about
  the plugin holds for every choice of them. \<^verbatim>\<open>urljoin\<close> and the
  \<^verbatim>\<open>Download\<close> constructor are the two calls inside the plugin's
  \<^verbatim>\<open>try\<close> block; an exception there is \<^const>\<open>None\<close>.

  Confidence is kept in tenths: the source's \<^verbatim>\<open>0.1\<close> is \<open>1\<close>, its
  increments \<^verbatim>\<open>0.1\<close>, \<^verbatim>\<open>0.2\<close>, \<^verbatim>\<open>0.3\<close> are \<open>1\<close>, \<open>2\<close>, \<open>3\<close> and the cap
  \<^verbatim>\<open>1.0\<close> is \<open>10\<close>. This is exact decimal arithmetic; the source adds
  binary floating-point numbers (see the header of the root theory).
\<close>

record download =
  dl_title :: pystr
  dl_url :: pystr

record permit_record =
  source_url :: pystr
  platform :: pystr
  state :: pystr
  county :: "pystr option"
  city :: "pystr option"
  department_name :: "pystr option"
  processing_instructions :: "pystr option"
  permit_fee :: "pystr option"
  phone :: "pystr option"
  email :: "pystr option"
  address :: "pystr option"
  hours :: "pystr option"
  turnaround_time :: "pystr option"
  downloadable_applications :: "download list"
  confidence :: nat

record env =
  clean_text :: "pystr \<Rightarrow> pystr"
  find_contacts :: "pystr \<Rightarrow> pystr list \<times> pystr list"
  find_address_block :: "soup \<Rightarrow> pystr option"
  html_table_to_2d :: "node \<Rightarrow> pystr list list"
  guess_jurisdiction :: "pystr \<Rightarrow> pystr option \<times> pystr option \<times> pystr option"
  urljoin :: "pystr \<Rightarrow> pystr \<Rightarrow> pystr option"
  make_download :: "pystr \<Rightarrow> pystr \<Rightarrow> download option"

text \<open>A plain \<^verbatim>\<open>Download\<close> container that never rejects its arguments.\<close>

definition plain_download :: "pystr \<Rightarrow> pystr \<Rightarrow> download option" where
  "plain_download t u = Some \<lparr>dl_title = t, dl_url = u\<rparr>"

subsection \<open>A sample environment\<close>

text \<open>Concrete collaborators under which theorems about particular pages are
  evaluated: \<^verbatim>\<open>clean_text\<close> strips surrounding white space, no contacts and
  no address are found, tables are read by \<^const>\<open>table_to_2d\<close>, no
  jurisdiction is guessed, \<^verbatim>\<open>urljoin\<close> is the standard library's
  (\<^const>\<open>py_urljoin\<close>) and \<^verbatim>\<open>Download\<close> is a plain container.\<close>

definition strip_ws :: "pystr \<Rightarrow> pystr" where
  "strip_ws s = rev (dropWhile py_is_space (rev (dropWhile py_is_space s)))"

definition sample_env :: env where
  "sample_env =
     \<lparr>clean_text = strip_ws, find_contacts = (\<lambda>h. ([], [])), find_address_block = (\<lambda>d. None),
      html_table_to_2d = table_to_2d, guess_jurisdiction = (\<lambda>h. (None, None, None)),
      urljoin = py_urljoin, make_download = plain_download\<rparr>"

end
