(* ===== verification/Detect.thy ===== *)
theory Detect
  imports Prelude
begin

text \<open>
  \<^verbatim>\<open>detect(url, html)\<close> (\<^verbatim>\<open>fasttrack.py\<close>, lines 12--31): the fixed list of
  indicator strings, both inputs lowered once, and the loop that returns
  \<^verbatim>\<open>True\<close> at the first indicator found in either input.
\<close>

definition indicators :: "pystr list" where
  "indicators =
     [''fasttrack.'', ''/onlineservices/'', ''FastTrack'', ''Online Services'',
      ''Building Permit Services'', ''County Building Department'', ''Permit Portal'']"

fun detect_loop :: "pystr list \<Rightarrow> pystr \<Rightarrow> pystr \<Rightarrow> bool" where
  "detect_loop [] url_lower html_lower = False"
| "detect_loop (indicator # rest) url_lower html_lower =
     (if py_in (py_lower indicator) url_lower \<or> py_in (py_lower indicator) html_lower then True
      else detect_loop rest url_lower html_lower)"

definition detect :: "pystr \<Rightarrow> pystr \<Rightarrow> bool" where
  "detect url html = detect_loop indicators (py_lower url) (py_lower html)"

lemma detect_loop_iff:
  "detect_loop ins u h \<longleftrightarrow> (\<exists>i\<in>set ins. sublist (py_lower i) u \<or> sublist (py_lower i) h)"
  by (induction ins u h rule: detect_loop.induct) auto

text \<open>C6. \<^verbatim>\<open>detect\<close> holds exactly when some indicator, lowered, occurs in
  the lowered URL or the lowered page.\<close>

theorem detect_iff_indicator:
  "detect url html \<longleftrightarrow>
   (\<exists>i\<in>set indicators. sublist (py_lower i) (py_lower url) \<or> sublist (py_lower i) (py_lower html))"
  by (simp add: detect_def detect_loop_iff)

text \<open>Detection is monotone: text added around the URL or the page never
  turns a detected page into an undetected one.\<close>

theorem detect_monotone:
  "detect url html \<Longrightarrow> detect (u1 @ url @ u2) (h1 @ html @ h2)"
proof -
  have mono: "sublist p (py_lower x) \<Longrightarrow> sublist p (py_lower y1 @ py_lower x @ py_lower y2)"
    for p x y1 y2
    by (simp add: sublist_def) (metis append.assoc)
  assume "detect url html"
  then show ?thesis by (auto simp: detect_def detect_loop_iff dest: mono)
qed

text \<open>Scenario A: the Orange County online-services URL with a body that
  mentions \<^verbatim>\<open>FastTrack Online Services\<close> is detected.\<close>

theorem detect_scenario_A:
  "detect ''https://ocfl.net/onlineservices/permits'' ''<p>FastTrack Online Services</p>''"
  by code_simp

theorem detect_iff_indicator_witness:
  "detect ''https://ocfl.net/onlineservices/permits'' ''<p>FastTrack Online Services</p>'' \<and>
   (\<exists>i\<in>set indicators. sublist (py_lower i) (py_lower ''https://ocfl.net/onlineservices/permits'') \<or>
      sublist (py_lower i) (py_lower ''<p>FastTrack Online Services</p>''))"
proof -
  have h: "detect ''https://ocfl.net/onlineservices/permits'' ''<p>FastTrack Online Services</p>''"
    by code_simp
  show ?thesis using detect_iff_indicator h by blast
qed

theorem detect_monotone_witness:
  "detect ''https://ocfl.net/onlineservices/permits'' ''<p>FastTrack Online Services</p>'' \<and>
   detect (''['' @ ''https://ocfl.net/onlineservices/permits'' @ '']'')
     (''<html>'' @ ''<p>FastTrack Online Services</p>'' @ ''</html>'')"
proof -
  have h: "detect ''https://ocfl.net/onlineservices/permits'' ''<p>FastTrack Online Services</p>''"
    by code_simp
  show ?thesis using detect_monotone [OF h] h by blast
qed

end
