(* ===== verification/FastTrack_Rules.thy ===== *)
theory FastTrack_Rules
  imports Models Detect
begin

text \<open>
  The extraction rules of \<^verbatim>\<open>parse\<close> (\<^verbatim>\<open>fasttrack.py\<close>, lines 39--180), one
  definition per block of the source and in its order. Each rule takes the
  record built so far and returns it updated, as the source mutates
  \<^verbatim>\<open>record\<close>; each loop is a recursive function with the source's
  \<^verbatim>\<open>break\<close> and \<^verbatim>\<open>continue\<close> as its equations. The patterns and keyword
  lists are the source's, verbatim.
\<close>

subsection \<open>The record at the start (lines 39--49)\<close>

definition initial_record :: "env \<Rightarrow> pystr \<Rightarrow> pystr \<Rightarrow> permit_record" where
  "initial_record E url html =
     (case guess_jurisdiction E html of (st, co, ci) \<Rightarrow>
       \<lparr>source_url = url, platform = ''fasttrack'', state = py_or st ''Unknown'',
        county = co, city = ci, department_name = None, processing_instructions = None,
        permit_fee = None, phone = None, email = None, address = None, hours = None,
        turnaround_time = None, downloadable_applications = [], confidence = 1\<rparr>)"

subsection \<open>Department name (lines 51--64)\<close>

definition dept_selectors :: "selector list" where
  "dept_selectors =
     [ByClass ''department-header'', ByClass ''agency-title'', ByTag ''h1'', ByTag ''h2'',
      ByClass ''page-title'', ByClass ''header-text'', ByClass ''site-title'']"

definition dept_text_ok :: "pystr \<Rightarrow> bool" where
  "dept_text_ok text \<longleftrightarrow>
     text \<noteq> [] \<and> list_ex (\<lambda>kw. py_in kw (py_lower text)) [''building'', ''planning'', ''development'', ''permit'']"

text \<open>The inner loop over the elements one selector selects; its
  \<^verbatim>\<open>break\<close> leaves this loop only.\<close>

fun dept_scan :: "env \<Rightarrow> node list \<Rightarrow> permit_record \<Rightarrow> permit_record" where
  "dept_scan E [] r = r"
| "dept_scan E (el # els) r =
     (let text = clean_text E (get_text el) in
      if dept_text_ok text
      then r\<lparr>department_name := Some text, confidence := confidence r + 2\<rparr>
      else dept_scan E els r)"

text \<open>The outer loop over the selectors, which always runs to its end.\<close>

fun dept_loop :: "env \<Rightarrow> soup \<Rightarrow> selector list \<Rightarrow> permit_record \<Rightarrow> permit_record" where
  "dept_loop E doc [] r = r"
| "dept_loop E doc (sel # sels) r = dept_loop E doc sels (dept_scan E (select sel doc) r)"

definition dept_rule :: "env \<Rightarrow> soup \<Rightarrow> permit_record \<Rightarrow> permit_record" where
  "dept_rule E doc r = dept_loop E doc dept_selectors r"

subsection \<open>Service description (lines 66--80)\<close>

definition service_rx :: rx where
  "service_rx = alts [''service'', ''permit'', ''building'', ''application'']"

definition service_text_ok :: "pystr \<Rightarrow> bool" where
  "service_text_ok text \<longleftrightarrow>
     text \<noteq> [] \<and> 15 < length text \<and> length text < 300 \<and>
     list_ex (\<lambda>kw. py_in kw (py_lower text)) [''permit'', ''license'', ''inspection'', ''application'']"

fun service_collect :: "env \<Rightarrow> node list \<Rightarrow> pystr list" where
  "service_collect E [] = []"
| "service_collect E (section # rest) =
     (let text = clean_text E (get_text section) in
      if service_text_ok text then take 200 text # service_collect E rest
      else service_collect E rest)"

definition service_rule :: "env \<Rightarrow> soup \<Rightarrow> permit_record \<Rightarrow> permit_record" where
  "service_rule E doc r =
     (let service_info =
        service_collect E (find_all_class [''div'', ''section'', ''td''] service_rx doc) in
      if service_info \<noteq> []
      then r\<lparr>processing_instructions := Some (py_join '' | '' (take 3 service_info)),
             confidence := confidence r + 3\<rparr>
      else r)"

subsection \<open>Documents and forms (lines 82--107)\<close>

text \<open>\<^verbatim>\<open>\.(pdf|doc|docx)\<close>\<close>

definition doc_rx :: rx where
  "doc_rx = Seq (Lit ''.'') (alts [''pdf'', ''doc'', ''docx''])"

definition doc_title_ok :: "pystr \<Rightarrow> bool" where
  "doc_title_ok title \<longleftrightarrow>
     list_ex (\<lambda>kw. py_in kw (py_lower title)) [''permit'', ''application'', ''form'', ''checklist'']"

text \<open>The body of the \<^verbatim>\<open>try\<close> block: \<^const>\<open>None\<close> is a \<^verbatim>\<open>continue\<close>, either
  the explicit one or the one of the bare \<^verbatim>\<open>except\<close>.\<close>

definition try_download :: "env \<Rightarrow> pystr \<Rightarrow> pystr \<Rightarrow> pystr \<Rightarrow> download option" where
  "try_download E url title href =
     (if py_startswith href ''/'' then
        (case urljoin E url href of None \<Rightarrow> None | Some href' \<Rightarrow> make_download E title href')
      else if \<not> py_startswith href ''http'' then None
      else make_download E title href)"

fun collect_apps :: "env \<Rightarrow> pystr \<Rightarrow> node list \<Rightarrow> download list" where
  "collect_apps E url [] = []"
| "collect_apps E url (link # links) =
     (let title = clean_text E (get_text link) in
      if doc_title_ok title then
        (case node_href link of
           None \<Rightarrow> collect_apps E url links
         | Some href \<Rightarrow>
             (case try_download E url title href of
                None \<Rightarrow> collect_apps E url links
              | Some d \<Rightarrow> d # collect_apps E url links))
      else collect_apps E url links)"

definition download_rule :: "env \<Rightarrow> pystr \<Rightarrow> soup \<Rightarrow> permit_record \<Rightarrow> permit_record" where
  "download_rule E url doc r =
     (let applications = collect_apps E url (find_all_href [''a''] doc_rx doc);
          r' = r\<lparr>downloadable_applications := take 5 applications\<rparr> in
      if applications \<noteq> [] then r'\<lparr>confidence := confidence r' + 2\<rparr> else r')"

subsection \<open>Fee information (lines 109--138)\<close>

definition fee_table_rx :: rx where
  "fee_table_rx = alts [''fee'', ''cost'', ''charge'']"

text \<open>\<^verbatim>\<open>fee.*\$|cost.*\$|\$\d+\<close>\<close>

definition fee_text_rx :: rx where
  "fee_text_rx =
     Alt (Seq (Lit ''fee'') (Seq (Star True AnyNL) (Lit ''$'')))
      (Alt (Seq (Lit ''cost'') (Seq (Star True AnyNL) (Lit ''$'')))
        (Seq (Lit ''$'') (Plus Digit)))"

definition fee_header_ok :: "pystr \<Rightarrow> bool" where
  "fee_header_ok h \<longleftrightarrow> py_in ''fee'' (py_lower h) \<or> py_in ''cost'' (py_lower h)"

definition table_summary :: "pystr list list \<Rightarrow> pystr option" where
  "table_summary table_data =
     (if table_data \<noteq> [] \<and> 1 < length table_data \<and> list_ex fee_header_ok (hd table_data)
      then Some (''Fee schedule with '' @ py_str_nat (length table_data - 1) @ '' permit types'')
      else None)"

fun fee_table_info :: "env \<Rightarrow> node list \<Rightarrow> pystr list" where
  "fee_table_info E [] = []"
| "fee_table_info E (table # tables) =
     (case table_summary (html_table_to_2d E table) of
        None \<Rightarrow> fee_table_info E tables
      | Some summary \<Rightarrow> summary # fee_table_info E tables)"

fun fee_text_info :: "env \<Rightarrow> node list \<Rightarrow> pystr list" where
  "fee_text_info E [] = []"
| "fee_text_info E (element # elements) =
     (let text = clean_text E (get_text element) in
      if text \<noteq> [] \<and> 10 < length text \<and> length text < 200
      then text # fee_text_info E elements
      else fee_text_info E elements)"

definition fee_info :: "env \<Rightarrow> soup \<Rightarrow> pystr list" where
  "fee_info E doc =
     fee_table_info E (take 2 (find_all_class [''table''] fee_table_rx doc)) @
     fee_text_info E (take 3 (find_all_string [''div'', ''p'', ''li''] fee_text_rx doc))"

definition fee_rule :: "env \<Rightarrow> soup \<Rightarrow> permit_record \<Rightarrow> permit_record" where
  "fee_rule E doc r =
     (let info = fee_info E doc in
      if info \<noteq> []
      then r\<lparr>permit_fee := Some (py_join '' | '' (take 3 info)), confidence := confidence r + 2\<rparr>
      else r)"

subsection \<open>Contacts and address (lines 140--154)\<close>

definition contacts_rule :: "env \<Rightarrow> pystr \<Rightarrow> permit_record \<Rightarrow> permit_record" where
  "contacts_rule E html r =
     (case find_contacts E html of (phones, emails) \<Rightarrow>
       (let r1 = (case phones of [] \<Rightarrow> r
                  | p # _ \<Rightarrow> r\<lparr>phone := Some p, confidence := confidence r + 1\<rparr>) in
        case emails of [] \<Rightarrow> r1
        | e # _ \<Rightarrow> r1\<lparr>email := Some e, confidence := confidence r1 + 1\<rparr>))"

definition address_rule :: "env \<Rightarrow> soup \<Rightarrow> permit_record \<Rightarrow> permit_record" where
  "address_rule E doc r =
     (case find_address_block E doc of
        Some a \<Rightarrow> if a \<noteq> [] then r\<lparr>address := Some a, confidence := confidence r + 1\<rparr> else r
      | None \<Rightarrow> r)"

subsection \<open>Office hours (lines 156--165)\<close>

text \<open>\<^verbatim>\<open>hours?.*:.*[ap]m|[ap]m.*hours?|monday.*friday\<close>\<close>

definition hours_rx :: rx where
  "hours_rx =
     Alt (Seq (Lit ''hour'') (Seq (Opt (Lit ''s'')) (Seq (Star True AnyNL)
           (Seq (Lit '':'') (Seq (Star True AnyNL) (Seq (Cls (OneOf ''ap'')) (Lit ''m'')))))))
      (Alt (Seq (Cls (OneOf ''ap'')) (Seq (Lit ''m'') (Seq (Star True AnyNL)
             (Seq (Lit ''hour'') (Opt (Lit ''s''))))))
        (Seq (Lit ''monday'') (Seq (Star True AnyNL) (Lit ''friday''))))"

definition hours_text_ok :: "pystr \<Rightarrow> bool" where
  "hours_text_ok text \<longleftrightarrow>
     py_in ''hour'' (py_lower text) \<and> list_ex (\<lambda>t. py_in t (py_lower text)) [''am'', ''pm'', '':'']"

fun hours_scan :: "env \<Rightarrow> node list \<Rightarrow> permit_record \<Rightarrow> permit_record" where
  "hours_scan E [] r = r"
| "hours_scan E (element # elements) r =
     (let text = clean_text E (get_text element) in
      if hours_text_ok text
      then r\<lparr>hours := Some (take 100 text), confidence := confidence r + 1\<rparr>
      else hours_scan E elements r)"

definition hours_rule :: "env \<Rightarrow> soup \<Rightarrow> permit_record \<Rightarrow> permit_record" where
  "hours_rule E doc r = hours_scan E (find_all_string [''div'', ''p'', ''span''] hours_rx doc) r"

subsection \<open>Processing time (lines 167--180)\<close>

text \<open>\<^verbatim>\<open>KEYWORD.*?(\d+\s+(?:business\s+)?days?)\<close>\<close>

definition time_pattern :: "pystr \<Rightarrow> rx" where
  "time_pattern kw =
     Seq (Lit kw) (Seq (Star False AnyNL) (Seq (Plus Digit) (Seq (Plus Space)
       (Seq (Opt (Seq (Lit ''business'') (Plus Space))) (Seq (Lit ''day'') (Opt (Lit ''s'')))))))"

definition time_patterns :: "rx list" where
  "time_patterns = map time_pattern [''processing'', ''review'', ''turnaround'', ''approval'']"

fun turnaround_scan :: "env \<Rightarrow> pystr \<Rightarrow> rx list \<Rightarrow> permit_record \<Rightarrow> permit_record" where
  "turnaround_scan E html [] r = r"
| "turnaround_scan E html (pattern # patterns) r =
     (case re_search pattern html of
        Some (before, m, after) \<Rightarrow>
          r\<lparr>turnaround_time := Some (clean_text E m), confidence := confidence r + 1\<rparr>
      | None \<Rightarrow> turnaround_scan E html patterns r)"

definition turnaround_rule :: "env \<Rightarrow> pystr \<Rightarrow> permit_record \<Rightarrow> permit_record" where
  "turnaround_rule E html r = turnaround_scan E html time_patterns r"

subsection \<open>What each rule computes\<close>

text \<open>Each rule reads only the page and the collaborators, never the record:
  what it writes and how much confidence it adds are functions of the
  inputs. These are the values.\<close>

definition dept_first :: "env \<Rightarrow> node list \<Rightarrow> pystr option" where
  "dept_first E els = find dept_text_ok (map (\<lambda>el. clean_text E (get_text el)) els)"

text \<open>One entry per selector whose elements contain a qualifying text.\<close>

definition dept_hits :: "env \<Rightarrow> soup \<Rightarrow> pystr list" where
  "dept_hits E doc = List.map_filter (\<lambda>sel. dept_first E (select sel doc)) dept_selectors"

definition service_info :: "env \<Rightarrow> soup \<Rightarrow> pystr list" where
  "service_info E doc = service_collect E (find_all_class [''div'', ''section'', ''td''] service_rx doc)"

definition applications :: "env \<Rightarrow> pystr \<Rightarrow> soup \<Rightarrow> download list" where
  "applications E url doc = collect_apps E url (find_all_href [''a''] doc_rx doc)"

definition hours_first :: "env \<Rightarrow> soup \<Rightarrow> pystr option" where
  "hours_first E doc =
     find hours_text_ok
       (map (\<lambda>el. clean_text E (get_text el)) (find_all_string [''div'', ''p'', ''span''] hours_rx doc))"

fun first_group :: "rx list \<Rightarrow> pystr \<Rightarrow> pystr option" where
  "first_group [] s = None"
| "first_group (p # ps) s =
     (case re_search p s of Some (before, m, after) \<Rightarrow> Some m | None \<Rightarrow> first_group ps s)"

definition address_found :: "env \<Rightarrow> soup \<Rightarrow> bool" where
  "address_found E doc \<longleftrightarrow> py_truthy (find_address_block E doc)"

lemma dept_scan_eq:
  "dept_scan E els r =
     (case dept_first E els of None \<Rightarrow> r
      | Some t \<Rightarrow> r\<lparr>department_name := Some t, confidence := confidence r + 2\<rparr>)"
  by (induction els) (simp_all add: dept_first_def Let_def)

lemma dept_loop_eq:
  "dept_loop E doc sels r =
     (let hs = List.map_filter (\<lambda>sel. dept_first E (select sel doc)) sels in
      if hs = [] then r
      else r\<lparr>department_name := Some (last hs), confidence := confidence r + 2 * length hs\<rparr>)"
proof (induction sels arbitrary: r)
  case (Cons sel sels)
  then show ?case
    by (cases "dept_first E (select sel doc)")
       (simp_all add: dept_scan_eq Let_def map_filter_simps)
qed (simp add: map_filter_simps)

lemma dept_rule_eq:
  "dept_rule E doc r =
     (if dept_hits E doc = [] then r
      else r\<lparr>department_name := Some (last (dept_hits E doc)),
             confidence := confidence r + 2 * length (dept_hits E doc)\<rparr>)"
  by (simp add: dept_rule_def dept_loop_eq dept_hits_def Let_def)

lemma download_rule_eq:
  "download_rule E url doc r =
     r\<lparr>downloadable_applications := take 5 (applications E url doc),
       confidence := confidence r + (if applications E url doc \<noteq> [] then 2 else 0)\<rparr>"
  by (simp add: download_rule_def applications_def Let_def)

lemma hours_scan_eq:
  "hours_scan E els r =
     (case find hours_text_ok (map (\<lambda>el. clean_text E (get_text el)) els) of None \<Rightarrow> r
      | Some t \<Rightarrow> r\<lparr>hours := Some (take 100 t), confidence := confidence r + 1\<rparr>)"
  by (induction els) (simp_all add: Let_def)

lemma hours_rule_eq:
  "hours_rule E doc r =
     (case hours_first E doc of None \<Rightarrow> r
      | Some t \<Rightarrow> r\<lparr>hours := Some (take 100 t), confidence := confidence r + 1\<rparr>)"
  by (simp add: hours_rule_def hours_scan_eq hours_first_def)

lemma turnaround_scan_eq:
  "turnaround_scan E html ps r =
     (case first_group ps html of None \<Rightarrow> r
      | Some m \<Rightarrow> r\<lparr>turnaround_time := Some (clean_text E m), confidence := confidence r + 1\<rparr>)"
  by (induction ps) (auto split: option.splits)

lemma turnaround_rule_eq:
  "turnaround_rule E html r =
     (case first_group time_patterns html of None \<Rightarrow> r
      | Some m \<Rightarrow> r\<lparr>turnaround_time := Some (clean_text E m), confidence := confidence r + 1\<rparr>)"
  by (simp add: turnaround_rule_def turnaround_scan_eq)

lemma address_rule_eq:
  "address_rule E doc r =
     (if address_found E doc
      then r\<lparr>address := find_address_block E doc, confidence := confidence r + 1\<rparr> else r)"
  by (auto simp: address_rule_def address_found_def split: option.splits)

lemma service_rule_eq:
  "service_rule E doc r =
     (if service_info E doc \<noteq> []
      then r\<lparr>processing_instructions := Some (py_join '' | '' (take 3 (service_info E doc))),
             confidence := confidence r + 3\<rparr>
      else r)"
  by (simp add: service_rule_def service_info_def)

lemmas rule_eqs = dept_rule_eq service_rule_eq download_rule_eq address_rule_eq
  hours_rule_eq turnaround_rule_eq

text \<open>The loops of the rules as list functions: filters, \<^verbatim>\<open>map_filter\<close>s and
  the first match of a search.\<close>

lemma service_collect_eq:
  "service_collect E els = map (take 200) (filter service_text_ok (map (\<lambda>s. clean_text E (get_text s)) els))"
  by (induction els) (simp_all add: Let_def)

lemma fee_table_info_eq:
  "fee_table_info E ts = List.map_filter (\<lambda>t. table_summary (html_table_to_2d E t)) ts"
  by (induction ts) (simp_all add: map_filter_simps split: option.splits)

lemma fee_text_info_eq:
  "fee_text_info E els =
   filter (\<lambda>t. t \<noteq> [] \<and> 10 < length t \<and> length t < 200) (map (\<lambda>e. clean_text E (get_text e)) els)"
  by (induction els) (simp_all add: Let_def)

lemma collect_apps_eq:
  "collect_apps E url links =
   List.map_filter (\<lambda>a. if doc_title_ok (clean_text E (get_text a))
       then Option.bind (node_href a) (try_download E url (clean_text E (get_text a))) else None) links"
  by (induction links) (simp_all add: map_filter_simps Let_def split: option.splits)

lemma first_group_find:
  "first_group ps s =
   (case find (\<lambda>p. re_search p s \<noteq> None) ps of None \<Rightarrow> None
    | Some p \<Rightarrow> map_option (\<lambda>(a, m, b). m) (re_search p s))"
  by (induction ps) (auto split: option.splits)

subsection \<open>The patterns of the filters\<close>

lemma lang_Seq_Lit_alts:
  assumes "qs \<noteq> []"
  shows "lang (Seq (Lit p) (alts qs)) w \<longleftrightarrow> lang (alts (map (\<lambda>q. p @ q) qs)) w"
proof -
  have "lang (Seq (Lit p) (alts qs)) w \<longleftrightarrow>
        (\<exists>q\<in>set qs. length w = length p + length q \<and> py_lower w = py_lower p @ py_lower q)"
  proof
    assume "lang (Seq (Lit p) (alts qs)) w"
    then show "\<exists>q\<in>set qs. length w = length p + length q \<and> py_lower w = py_lower p @ py_lower q"
      by (auto simp: lang_alts [OF assms])
  next
    assume "\<exists>q\<in>set qs. length w = length p + length q \<and> py_lower w = py_lower p @ py_lower q"
    then obtain q where q: "q \<in> set qs" "length w = length p + length q"
      "py_lower w = py_lower p @ py_lower q" by blast
    let ?u = "take (length p) w" and ?v = "drop (length p) w"
    have "lang (Lit p) ?u" "lang (alts qs) ?v"
      using q by (simp_all add: lang_alts [OF assms] py_lower_def take_map [symmetric]
          drop_map [symmetric] bexI [of _ q])
    then show "lang (Seq (Lit p) (alts qs)) w"
      unfolding lang_Seq by (metis append_take_drop_id)
  qed
  also have "\<dots> \<longleftrightarrow> lang (alts (map (\<lambda>q. p @ q) qs)) w"
    using assms by (auto simp: lang_alts)
  finally show ?thesis .
qed

lemma class_matches_alts:
  assumes "ws \<noteq> []" "\<forall>w\<in>set ws. w \<noteq> [] \<and> CHR '' '' \<notin> set w \<and> py_lower w = w"
  shows "class_matches (alts ws) cs \<longleftrightarrow> (\<exists>c\<in>set cs. \<exists>w\<in>set ws. sublist w (py_lower c))"
proof -
  have sp: "py_lower_chr CHR '' '' = CHR '' ''" by code_simp
  have "re_found (alts ws) s \<longleftrightarrow> (\<exists>w\<in>set ws. sublist w (py_lower s))" for s
    using assms by (simp add: re_found_alts)
  moreover have "sublist w (py_join '' '' (map py_lower cs)) \<longleftrightarrow> (\<exists>c\<in>set cs. sublist w (py_lower c))"
    if "w \<in> set ws" for w
    using that assms(2) by (simp add: sublist_join_space)
  ultimately show ?thesis
    by (auto simp: class_matches_def list_ex_iff py_lower_join sp)
qed

text \<open>C24. The \<^verbatim>\<open>class_\<close> regex of the service filter (line 68), as
  BeautifulSoup applies it to the \<^verbatim>\<open>class\<close> values and to their
  space-joined string, selects exactly the \<^verbatim>\<open>div\<close>, \<^verbatim>\<open>section\<close> and
  \<^verbatim>\<open>td\<close> elements one of whose classes contains \<^verbatim>\<open>service\<close>,
  \<^verbatim>\<open>permit\<close>, \<^verbatim>\<open>building\<close> or \<^verbatim>\<open>application\<close> in any case.\<close>

theorem service_class_filter:
  "class_filter [''div'', ''section'', ''td''] service_rx (Elem t cs h ns) \<longleftrightarrow>
   t \<in> {''div'', ''section'', ''td''} \<and>
   (\<exists>c\<in>set cs. \<exists>w\<in>{''service'', ''permit'', ''building'', ''application''}. sublist w (py_lower c))"
proof -
  have "\<forall>w\<in>set [''service'', ''permit'', ''building'', ''application''].
          w \<noteq> [] \<and> CHR '' '' \<notin> set w \<and> py_lower w = w"
    by code_simp
  from class_matches_alts [OF _ this] show ?thesis
    by (simp add: service_rx_def)
qed

text \<open>C25. The \<^verbatim>\<open>href\<close> regex \<^verbatim>\<open>\.(pdf|doc|docx)\<close> of the link filter
  (line 83) finds a match exactly when the lowered \<^verbatim>\<open>href\<close> contains
  \<^verbatim>\<open>.pdf\<close> or \<^verbatim>\<open>.doc\<close>, anywhere in it.\<close>

theorem doc_link_filter:
  "re_found doc_rx href \<longleftrightarrow> sublist ''.pdf'' (py_lower href) \<or> sublist ''.doc'' (py_lower href)"
proof -
  have lw: "py_lower ''.pdf'' = ''.pdf''" "py_lower ''.doc'' = ''.doc''" "py_lower ''.docx'' = ''.docx''"
    by code_simp+
  have e: "lang doc_rx m \<longleftrightarrow> lang (alts [''.pdf'', ''.doc'', ''.docx'']) m" for m
    using lang_Seq_Lit_alts [of "[''pdf'', ''doc'', ''docx'']" "''.''" m]
    by (simp add: doc_rx_def del: lang_Seq lang.simps)
  have "re_found doc_rx href \<longleftrightarrow> re_found (alts [''.pdf'', ''.doc'', ''.docx'']) href"
    by (simp only: re_found_iff_infix e)
  also have "\<dots> \<longleftrightarrow> (\<exists>w\<in>set [''.pdf'', ''.doc'', ''.docx'']. sublist w (py_lower href))"
    using re_found_alts [of "[''.pdf'', ''.doc'', ''.docx'']" href] by (simp add: lw del: alts.simps py_lower_Cons)
  also have "\<dots> \<longleftrightarrow> sublist ''.pdf'' (py_lower href) \<or> sublist ''.doc'' (py_lower href)"
  proof -
    have "sublist ''.doc'' ''.docx''" by (simp add: sublist_def) (metis append_Nil)
    then show ?thesis by (auto intro: sublist_order.order.trans)
  qed
  finally show ?thesis .
qed

lemma service_class_filter_witness:
  "class_filter [''div'', ''section'', ''td''] service_rx (Elem ''td'' [''x'', ''ApplicationForm''] None []) \<and>
   \<not> class_filter [''div'', ''section'', ''td''] service_rx (Elem ''td'' [''appl'', ''ication''] None [])"
proof -
  have "''td'' \<in> {''div'', ''section'', ''td''} \<and>
    (\<exists>c\<in>set [''x'', ''ApplicationForm'']. \<exists>w\<in>{''service'', ''permit'', ''building'', ''application''}. sublist w (py_lower c))"
    by code_simp
  moreover have "\<not> (\<exists>c\<in>set [''appl'', ''ication'']. \<exists>w\<in>{''service'', ''permit'', ''building'', ''application''}. sublist w (py_lower c))"
    by code_simp
  ultimately show ?thesis
    using service_class_filter [of "''td''" "[''x'', ''ApplicationForm'']" None "[]"]
      service_class_filter [of "''td''" "[''appl'', ''ication'']" None "[]"] by blast
qed
lemma doc_link_filter_witness:
  "re_found doc_rx ''/files/Form.DOCX?v=2'' \<and> \<not> re_found doc_rx ''/files/pdf-guide.html''"
proof -
  have "sublist ''.doc'' (py_lower ''/files/Form.DOCX?v=2'')" by code_simp
  moreover have "\<not> sublist ''.pdf'' (py_lower ''/files/pdf-guide.html'') \<and> \<not> sublist ''.doc'' (py_lower ''/files/pdf-guide.html'')"
    by code_simp
  ultimately show ?thesis
    using doc_link_filter [of "''/files/Form.DOCX?v=2''"] doc_link_filter [of "''/files/pdf-guide.html''"] by blast
qed
text \<open>C26. A fee-table summary (line 118) is written only for a table of a
  header and at least one row whose header row names a fee or a cost, and the
  number in it reads back, as \<^verbatim>\<open>int\<close> would, as the number of rows below
  the header.\<close>

theorem table_summary_roundtrip:
  "table_summary rows = Some s \<Longrightarrow>
   1 < length rows \<and> list_ex fee_header_ok (hd rows) \<and>
   (\<exists>d. s = ''Fee schedule with '' @ d @ '' permit types'' \<and> d \<noteq> [] \<and>
        (\<forall>c\<in>set d. (48::nat) \<le> of_char c \<and> of_char c \<le> (57::nat)) \<and>
        digits_value d = length rows - 1)"
proof -
  assume S: "table_summary rows = Some s"
  let ?d = "py_str_nat (length rows - 1)"
  have "?d \<noteq> []" by (subst py_str_nat.simps) simp
  with S show ?thesis
    by (auto simp: table_summary_def py_str_nat_roundtrip py_str_nat_digits split: if_splits)
qed

lemma table_summary_roundtrip_witness:
  "table_summary ([''Permit'', ''Cost''] # replicate 11 [''x'', ''y'']) =
     Some ''Fee schedule with 11 permit types'' \<and>
   digits_value ''11'' = length ([''Permit'', ''Cost''] # replicate 11 [''x'', ''y'']) - 1"
proof -
  have T: "table_summary ([''Permit'', ''Cost''] # replicate 11 [''x'', ''y'']) =
     Some ''Fee schedule with 11 permit types''" by code_simp
  from table_summary_roundtrip [OF T] obtain d where
    "''Fee schedule with 11 permit types'' = ''Fee schedule with '' @ d @ '' permit types''"
    "digits_value d = length ([''Permit'', ''Cost''] # replicate 11 [''x'', ''y'']) - 1"
    by blast
  moreover from this(1) have "d = ''11''" by simp
  ultimately show ?thesis using T by simp
qed

end
