(* ===== verification/FastTrack_Parse.thy ===== *)
theory FastTrack_Parse
  imports FastTrack_Rules "HOL-Library.Multiset"
begin

text \<open>
  \<^verbatim>\<open>parse(url, html, soup)\<close> (\<^verbatim>\<open>fasttrack.py\<close>, lines 34--185): the detection
  guard, the record at the start, the eight rules in the source's order, the
  cap of the confidence at \<^verbatim>\<open>1.0\<close> and the floor test \<^verbatim>\<open>> 0.1\<close>. Then the
  same body seen as the spec's builder: a datatype of rules, a step function
  that applies one rule, and the fold of the steps over the source's order.
  The properties give the confidence and each field of a returned record as
  a function of the page, with the source's filters, slices and order.
\<close>

definition parse :: "env \<Rightarrow> pystr \<Rightarrow> pystr \<Rightarrow> soup \<Rightarrow> permit_record option" where
  "parse E url html doc =
     (if \<not> detect url html then None
      else
        let r = initial_record E url html;
            r = dept_rule E doc r;
            r = service_rule E doc r;
            r = download_rule E url doc r;
            r = fee_rule E doc r;
            r = contacts_rule E html r;
            r = address_rule E doc r;
            r = hours_rule E doc r;
            r = turnaround_rule E html r;
            r = r\<lparr>confidence := min (confidence r) 10\<rparr>
        in if 1 < confidence r then Some r else None)"

subsection \<open>The body as a fold of rules\<close>

datatype rule = Dept | Service | Downloads | Fee | Contacts | Address | Hours | Turnaround

fun apply_rule :: "env \<Rightarrow> pystr \<Rightarrow> pystr \<Rightarrow> soup \<Rightarrow> rule \<Rightarrow> permit_record \<Rightarrow> permit_record" where
  "apply_rule E url html doc Dept r = dept_rule E doc r"
| "apply_rule E url html doc Service r = service_rule E doc r"
| "apply_rule E url html doc Downloads r = download_rule E url doc r"
| "apply_rule E url html doc Fee r = fee_rule E doc r"
| "apply_rule E url html doc Contacts r = contacts_rule E html r"
| "apply_rule E url html doc Address r = address_rule E doc r"
| "apply_rule E url html doc Hours r = hours_rule E doc r"
| "apply_rule E url html doc Turnaround r = turnaround_rule E html r"

definition rule_order :: "rule list" where
  "rule_order = [Dept, Service, Downloads, Fee, Contacts, Address, Hours, Turnaround]"

definition finalize :: "permit_record \<Rightarrow> permit_record option" where
  "finalize r =
     (let r' = r\<lparr>confidence := min (confidence r) 10\<rparr> in
      if 1 < confidence r' then Some r' else None)"

text \<open>The confidence a rule adds, as a function of the inputs only.\<close>

fun rule_gain :: "env \<Rightarrow> pystr \<Rightarrow> pystr \<Rightarrow> soup \<Rightarrow> rule \<Rightarrow> nat" where
  "rule_gain E url html doc Dept = 2 * length (dept_hits E doc)"
| "rule_gain E url html doc Service = (if service_info E doc \<noteq> [] then 3 else 0)"
| "rule_gain E url html doc Downloads = (if applications E url doc \<noteq> [] then 2 else 0)"
| "rule_gain E url html doc Fee = (if fee_info E doc \<noteq> [] then 2 else 0)"
| "rule_gain E url html doc Contacts =
     (if fst (find_contacts E html) \<noteq> [] then 1 else 0) +
     (if snd (find_contacts E html) \<noteq> [] then 1 else 0)"
| "rule_gain E url html doc Address = (if address_found E doc then 1 else 0)"
| "rule_gain E url html doc Hours = (if hours_first E doc \<noteq> None then 1 else 0)"
| "rule_gain E url html doc Turnaround = (if first_group time_patterns html \<noteq> None then 1 else 0)"

definition total_gain :: "env \<Rightarrow> pystr \<Rightarrow> pystr \<Rightarrow> soup \<Rightarrow> nat" where
  "total_gain E url html doc = sum_list (map (rule_gain E url html doc) rule_order)"

text \<open>The record the source's body builds before the cap and the floor test.\<close>

abbreviation body :: "env \<Rightarrow> pystr \<Rightarrow> pystr \<Rightarrow> soup \<Rightarrow> permit_record" where
  "body E url html doc \<equiv> fold (apply_rule E url html doc) rule_order (initial_record E url html)"

text \<open>The records the builder can reach from the record at the start, applying
  the rules in any order and any number of times.\<close>

inductive built :: "env \<Rightarrow> pystr \<Rightarrow> pystr \<Rightarrow> soup \<Rightarrow> permit_record \<Rightarrow> bool"
  for E url html doc where
  start: "built E url html doc (initial_record E url html)"
| step: "built E url html doc r \<Longrightarrow> built E url html doc (apply_rule E url html doc x r)"

text \<open>What the source keeps true of the record under construction.\<close>

definition wf_record :: "pystr \<Rightarrow> permit_record \<Rightarrow> bool" where
  "wf_record url r \<longleftrightarrow>
     1 \<le> confidence r \<and> length (downloadable_applications r) \<le> 5 \<and>
     source_url r = url \<and> platform r = ''fasttrack'' \<and> state r \<noteq> []"

subsection \<open>Confidence accounting\<close>

lemmas rule_defs = rule_eqs fee_rule_def contacts_rule_def

lemma apply_rule_confidence [simp]:
  "confidence (apply_rule E url html doc x r) = confidence r + rule_gain E url html doc x"
  by (cases x) (auto simp: rule_defs Let_def split: option.splits list.splits prod.splits)

lemma fold_rules_confidence:
  "confidence (fold (apply_rule E url html doc) xs r) =
   confidence r + sum_list (map (rule_gain E url html doc) xs)"
  by (induction xs arbitrary: r) simp_all

lemma apply_rule_frame:
  "source_url (apply_rule E url html doc x r) = source_url r"
  "platform (apply_rule E url html doc x r) = platform r"
  "state (apply_rule E url html doc x r) = state r"
  "county (apply_rule E url html doc x r) = county r"
  "city (apply_rule E url html doc x r) = city r"
  by (cases x; auto simp: rule_defs Let_def split: option.splits list.splits prod.splits)+

lemma apply_rule_downloads:
  "length (downloadable_applications (apply_rule E url html doc x r)) \<le>
   max 5 (length (downloadable_applications r))"
  by (cases x) (auto simp: rule_defs Let_def split: option.splits list.splits prod.splits)

subsection \<open>The source's body is the fold; the order of the rules does not matter\<close>

lemma parse_fold:
  "parse E url html doc =
     (if \<not> detect url html then None
      else finalize (fold (apply_rule E url html doc) rule_order (initial_record E url html)))"
  by (simp add: parse_def finalize_def rule_order_def Let_def)

lemma apply_rule_commute:
  "apply_rule E url html doc x \<circ> apply_rule E url html doc y =
   apply_rule E url html doc y \<circ> apply_rule E url html doc x"
  by (rule ext, cases x; cases y)
     (auto simp: rule_defs Let_def split: option.splits list.splits prod.splits)

lemma fold_rules_perm:
  "mset xs = mset ys \<Longrightarrow>
   fold (apply_rule E url html doc) xs = fold (apply_rule E url html doc) ys"
  by (rule fold_multiset_equiv) (simp_all add: apply_rule_commute)

subsection \<open>The invariant of construction\<close>

lemma initial_record_wf: "wf_record url (initial_record E url html)"
  by (auto simp: initial_record_def wf_record_def split: prod.splits)
     (metis py_or.elims list.distinct(1))

lemma apply_rule_wf:
  "wf_record url r \<Longrightarrow> wf_record url (apply_rule E url html doc x r)"
  using apply_rule_downloads [of E url html doc x r]
  by (auto simp: wf_record_def apply_rule_frame)

lemma built_fold: "built E url html doc (fold (apply_rule E url html doc) xs (initial_record E url html))"
proof (induction xs rule: rev_induct)
  case Nil
  then show ?case by (simp add: built.start)
next
  case (snoc x xs)
  then show ?case by (simp add: built.step)
qed

lemma fold_rules_wf:
  "wf_record url r \<Longrightarrow> wf_record url (fold (apply_rule E url html doc) xs r)"
  by (induction xs arbitrary: r) (simp_all add: apply_rule_wf)

subsection \<open>Which rule writes which field\<close>

lemma apply_rule_fields:
  "x \<noteq> Dept \<Longrightarrow> department_name (apply_rule E url html doc x r) = department_name r"
  "x \<noteq> Service \<Longrightarrow>
     processing_instructions (apply_rule E url html doc x r) = processing_instructions r"
  "x \<noteq> Fee \<Longrightarrow> permit_fee (apply_rule E url html doc x r) = permit_fee r"
  "x \<noteq> Contacts \<Longrightarrow> phone (apply_rule E url html doc x r) = phone r"
  "x \<noteq> Contacts \<Longrightarrow> email (apply_rule E url html doc x r) = email r"
  "x \<noteq> Address \<Longrightarrow> address (apply_rule E url html doc x r) = address r"
  "x \<noteq> Hours \<Longrightarrow> hours (apply_rule E url html doc x r) = hours r"
  "x \<noteq> Turnaround \<Longrightarrow> turnaround_time (apply_rule E url html doc x r) = turnaround_time r"
  "x \<noteq> Downloads \<Longrightarrow>
     downloadable_applications (apply_rule E url html doc x r) = downloadable_applications r"
  by (cases x; simp add: rule_defs Let_def split: option.splits list.splits prod.splits)+

lemma fold_rules_frame:
  assumes "\<And>x r. x \<in> set xs \<Longrightarrow> f (apply_rule E url html doc x r) = f r"
  shows "f (fold (apply_rule E url html doc) xs r) = f r"
  using assms by (induction xs arbitrary: r) auto

text \<open>Since the rules commute, any one of them may be taken to run last.\<close>

lemma fold_rule_last:
  "X \<in> set rule_order \<Longrightarrow>
   fold (apply_rule E url html doc) rule_order r =
   apply_rule E url html doc X (fold (apply_rule E url html doc) (remove1 X rule_order) r)"
proof -
  assume X: "X \<in> set rule_order"
  then have "mset rule_order = mset (remove1 X rule_order @ [X])" by simp
  then have "fold (apply_rule E url html doc) rule_order =
             fold (apply_rule E url html doc) (remove1 X rule_order @ [X])"
    by (rule fold_rules_perm)
  then show ?thesis by simp
qed

lemma rule_order_distinct: "distinct rule_order"
  by (simp add: rule_order_def)

text \<open>The value of a field written by rule \<open>X\<close> alone: \<open>X\<close> applied to the
  record at the start.\<close>

lemma fold_rules_field:
  assumes "X \<in> set rule_order"
    and "\<And>x r. x \<noteq> X \<Longrightarrow> f (apply_rule E url html doc x r) = f r"
    and "\<And>r r'. f r = f r' \<Longrightarrow> f (apply_rule E url html doc X r) = f (apply_rule E url html doc X r')"
  shows "f (fold (apply_rule E url html doc) rule_order r) = f (apply_rule E url html doc X r)"
proof -
  have "x \<noteq> X" if "x \<in> set (remove1 X rule_order)" for x
    using that rule_order_distinct by (simp add: set_remove1_eq)
  then have "f (fold (apply_rule E url html doc) (remove1 X rule_order) r) = f r"
    by (intro fold_rules_frame assms(2))
  then have "f (apply_rule E url html doc X (fold (apply_rule E url html doc) (remove1 X rule_order) r)) =
             f (apply_rule E url html doc X r)"
    by (rule assms(3))
  then show ?thesis
    by (simp only: fold_rule_last [OF assms(1)])
qed

lemma body_confidence: "confidence (body E url html doc) = 1 + total_gain E url html doc"
  by (simp add: fold_rules_confidence total_gain_def initial_record_def split: prod.splits)

lemma parse_SomeD:
  "parse E url html doc = Some r \<Longrightarrow>
   detect url html \<and> 1 < confidence r \<and>
   r = (body E url html doc)\<lparr>confidence := min (confidence (body E url html doc)) 10\<rparr>"
  by (auto simp: parse_fold finalize_def Let_def split: if_splits)

lemma parse_field:
  assumes "parse E url html doc = Some r"
    and "X \<in> set rule_order"
    and "\<And>x r. x \<noteq> X \<Longrightarrow> f (apply_rule E url html doc x r) = f r"
    and "\<And>r r'. f r = f r' \<Longrightarrow> f (apply_rule E url html doc X r) = f (apply_rule E url html doc X r')"
    and "\<And>r c. f (r\<lparr>confidence := c\<rparr>) = f r"
  shows "f r = f (apply_rule E url html doc X (initial_record E url html))"
proof -
  from assms(1) have "r = (body E url html doc)\<lparr>confidence := min (confidence (body E url html doc)) 10\<rparr>"
    by (blast dest: parse_SomeD)
  then have "f r = f (body E url html doc)" by (simp add: assms(5))
  also have "\<dots> = f (apply_rule E url html doc X (initial_record E url html))"
    by (rule fold_rules_field [OF assms(2-4)])
  finally show ?thesis .
qed

lemma initial_record_fields:
  "department_name (initial_record E url html) = None"
  "processing_instructions (initial_record E url html) = None"
  "permit_fee (initial_record E url html) = None"
  "address (initial_record E url html) = None"
  "phone (initial_record E url html) = None"
  "email (initial_record E url html) = None"
  "hours (initial_record E url html) = None"
  "turnaround_time (initial_record E url html) = None"
  "downloadable_applications (initial_record E url html) = []"
  by (simp_all add: initial_record_def split: prod.splits)

lemma py_join_length:
  "length (py_join sep xs) = sum_list (map length xs) + length sep * (length xs - 1)"
  by (induction sep xs rule: py_join.induct) simp_all

lemma service_collect_length: "t \<in> set (service_collect E els) \<Longrightarrow> length t \<le> 200"
  by (induction els) (auto simp: Let_def split: if_splits)

lemma collect_apps_origin:
  "d \<in> set (collect_apps E url links) \<Longrightarrow>
   \<exists>title href. doc_title_ok title \<and> try_download E url title href = Some d"
  by (induction links) (auto simp: Let_def split: if_splits option.splits)

lemma first_group_match:
  "first_group ps s = Some m \<Longrightarrow> \<exists>p\<in>set ps. \<exists>a b. s = a @ m @ b \<and> lang p m"
proof (induction ps)
  case (Cons p ps)
  show ?case
  proof (cases "re_search p s")
    case (Some t)
    then obtain a m' b where t: "t = (a, m', b)" by (cases t) auto
    with Some Cons.prems have "m' = m" by simp
    with Some t have "search_at p [] s = Some (a, m, b)" by (simp add: re_search_def)
    then have "[] @ s = a @ m @ b \<and> lang p m \<and> prefix [] a" by (rule search_at_sound)
    then show ?thesis by auto
  next
    case None
    with Cons show ?thesis by auto
  qed
qed simp

lemma parse_download_source:
  assumes P: "parse E url html doc = Some r" and D: "d \<in> set (downloadable_applications r)"
  shows "\<exists>title href. doc_title_ok title \<and> try_download E url title href = Some d"
proof -
  have "downloadable_applications r =
        downloadable_applications (apply_rule E url html doc Downloads (initial_record E url html))"
    by (rule parse_field [OF P]) (auto simp: rule_order_def apply_rule_fields download_rule_eq)
  with D have "d \<in> set (applications E url doc)"
    by (auto simp: download_rule_eq dest: in_set_takeD)
  then show ?thesis
    unfolding applications_def by (rule collect_apps_origin)
qed

lemma collect_apps_link:
  "d \<in> set (collect_apps E url links) \<Longrightarrow>
   \<exists>a\<in>set links. \<exists>href. node_href a = Some href \<and> doc_title_ok (clean_text E (get_text a)) \<and>
     try_download E url (clean_text E (get_text a)) href = Some d"
  by (induction links) (auto simp: Let_def split: if_splits option.splits)

lemma parse_download_link:
  assumes P: "parse E url html doc = Some r" and D: "d \<in> set (downloadable_applications r)"
  shows "\<exists>a\<in>set (find_all_href [''a''] doc_rx doc). \<exists>href. node_href a = Some href \<and>
           doc_title_ok (clean_text E (get_text a)) \<and>
           try_download E url (clean_text E (get_text a)) href = Some d"
proof -
  have "downloadable_applications r =
        downloadable_applications (apply_rule E url html doc Downloads (initial_record E url html))"
    by (rule parse_field [OF P]) (auto simp: rule_order_def apply_rule_fields download_rule_eq)
  with D have "d \<in> set (applications E url doc)"
    by (auto simp: download_rule_eq dest: in_set_takeD)
  then show ?thesis
    unfolding applications_def by (rule collect_apps_link)
qed

section \<open>Properties of \<^verbatim>\<open>parse\<close>\<close>

text \<open>C1. The extractor re-validates detection: on a page the detector rejects,
  \<^verbatim>\<open>parse\<close> returns \<^verbatim>\<open>None\<close>, whatever the collaborators and the document.\<close>

theorem parse_requires_detect: "\<not> detect url html \<Longrightarrow> parse E url html doc = None"
  by (simp add: parse_def)

text \<open>C2. A returned record's confidence lies strictly above the base
  \<^verbatim>\<open>0.1\<close> and at most \<^verbatim>\<open>1.0\<close> (in tenths: \<open>1 < c \<le> 10\<close>).\<close>

theorem parse_confidence_bounds:
  "parse E url html doc = Some r \<Longrightarrow> 1 < confidence r \<and> confidence r \<le> 10"
  by (auto dest: parse_SomeD)

text \<open>C3. A returned record lists at most five downloadable applications, and
  keeps the page's URL and the platform tag.\<close>

theorem parse_wf:
  "parse E url html doc = Some r \<Longrightarrow>
   length (downloadable_applications r) \<le> 5 \<and> source_url r = url \<and> platform r = ''fasttrack''"
proof -
  assume "parse E url html doc = Some r"
  then have r: "r = (body E url html doc)\<lparr>confidence := min (confidence (body E url html doc)) 10\<rparr>"
    by (blast dest: parse_SomeD)
  have "wf_record url (body E url html doc)"
    by (rule fold_rules_wf [OF initial_record_wf])
  with r show ?thesis by (simp add: wf_record_def)
qed

text \<open>C4. \<^verbatim>\<open>parse\<close> returns a record exactly when the page is detected and at
  least one rule adds confidence.\<close>

theorem parse_some_iff:
  "parse E url html doc \<noteq> None \<longleftrightarrow> detect url html \<and> 0 < total_gain E url html doc"
  by (auto simp: parse_fold finalize_def Let_def body_confidence)

text \<open>C5. The confidence model: the base \<^verbatim>\<open>0.1\<close> plus the increment of every
  rule that fired, capped at \<^verbatim>\<open>1.0\<close>.\<close>

theorem parse_confidence_eq:
  "parse E url html doc = Some r \<Longrightarrow> confidence r = min 10 (1 + total_gain E url html doc)"
  by (auto dest!: parse_SomeD simp: body_confidence)

text \<open>C7. The department name \<^verbatim>\<open>parse\<close> reports is the qualifying text of the
  \<^emph>\<open>last\<close> selector that has one: the \<^verbatim>\<open>break\<close> of line 64 leaves only the
  inner loop, so each later selector overwrites the name.\<close>

theorem parse_department_name:
  "parse E url html doc = Some r \<Longrightarrow>
   department_name r = (if dept_hits E doc = [] then None else Some (last (dept_hits E doc)))"
proof -
  assume P: "parse E url html doc = Some r"
  have "department_name r = department_name (apply_rule E url html doc Dept (initial_record E url html))"
    by (rule parse_field [OF P]) (auto simp: rule_order_def apply_rule_fields dept_rule_eq)
  then show ?thesis by (simp add: dept_rule_eq initial_record_fields)
qed

text \<open>C8. The order of the rules does not matter: running the rule steps in
  any permutation of the source's order gives the same result.\<close>

theorem parse_rule_order_irrelevant:
  "mset rs = mset rule_order \<Longrightarrow>
   parse E url html doc =
     (if \<not> detect url html then None
      else finalize (fold (apply_rule E url html doc) rs (initial_record E url html)))"
proof -
  assume "mset rs = mset rule_order"
  then have "fold (apply_rule E url html doc) rule_order = fold (apply_rule E url html doc) rs"
    by (intro fold_rules_perm) simp
  then show ?thesis by (simp only: parse_fold)
qed

text \<open>C9. Every record the builder reaches, by any sequence of rules, has
  confidence at least the base, at most five downloads, the page's URL, the
  platform tag and a non-empty state.\<close>

theorem built_wf: "built E url html doc r \<Longrightarrow> wf_record url r"
proof (induction rule: built.induct)
  case start
  show ?case by (rule initial_record_wf)
next
  case (step r x)
  from step.IH show ?case by (rule apply_rule_wf)
qed

text \<open>C10. Confidence never decreases during construction: along any run of
  rules, a later record has at least the confidence of an earlier one.\<close>

theorem confidence_monotone:
  "i \<le> j \<Longrightarrow>
   confidence (fold (apply_rule E url html doc) (take i xs) r) \<le>
   confidence (fold (apply_rule E url html doc) (take j xs) r)"
proof -
  assume "i \<le> j"
  then have "take j xs = take i xs @ take (j - i) (drop i xs)"
    by (metis le_add_diff_inverse take_add)
  then show ?thesis by (simp add: fold_rules_confidence)
qed

text \<open>Phone and e-mail are the first of the numbers and addresses the
  contact finder returns, if any.\<close>

theorem parse_contacts_first:
  "parse E url html doc = Some r \<Longrightarrow>
   phone r = py_first (fst (find_contacts E html)) \<and> email r = py_first (snd (find_contacts E html))"
proof -
  assume P: "parse E url html doc = Some r"
  have "phone r = phone (apply_rule E url html doc Contacts (initial_record E url html))"
    by (rule parse_field [OF P]) (auto simp: rule_order_def apply_rule_fields contacts_rule_def Let_def
        split: prod.splits list.splits)
  moreover have "email r = email (apply_rule E url html doc Contacts (initial_record E url html))"
    by (rule parse_field [OF P]) (auto simp: rule_order_def apply_rule_fields contacts_rule_def Let_def
        split: prod.splits list.splits)
  ultimately show ?thesis
    by (auto simp: contacts_rule_def initial_record_fields Let_def split: prod.splits list.splits)
qed

text \<open>C17. The reported office hours are at most 100 characters, cut from a text
  that mentions hours and a time marker.\<close>

theorem parse_hours:
  "parse E url html doc = Some r \<Longrightarrow> hours r = Some h \<Longrightarrow>
   length h \<le> 100 \<and> (\<exists>t. h = take 100 t \<and> hours_text_ok t)"
proof -
  assume P: "parse E url html doc = Some r" and H: "hours r = Some h"
  have "hours r = hours (apply_rule E url html doc Hours (initial_record E url html))"
    by (rule parse_field [OF P]) (auto simp: rule_order_def apply_rule_fields hours_rule_eq
        split: option.splits)
  with H obtain t where "hours_first E doc = Some t" "h = take 100 t"
    by (auto simp: hours_rule_eq initial_record_fields split: option.splits)
  moreover from this(1) have "hours_text_ok t"
    by (auto simp: hours_first_def find_Some_iff)
  ultimately show ?thesis by auto
qed

text \<open>C19. The reported processing time is the cleaned text of a match, in the
  raw page, of one of the four time patterns.\<close>

theorem parse_turnaround:
  "parse E url html doc = Some r \<Longrightarrow> turnaround_time r = Some t \<Longrightarrow>
   \<exists>kw\<in>set [''processing'', ''review'', ''turnaround'', ''approval''].
     \<exists>a m b. html = a @ m @ b \<and> lang (time_pattern kw) m \<and> t = clean_text E m"
proof -
  assume P: "parse E url html doc = Some r" and T: "turnaround_time r = Some t"
  have "turnaround_time r =
        turnaround_time (apply_rule E url html doc Turnaround (initial_record E url html))"
    by (rule parse_field [OF P]) (auto simp: rule_order_def apply_rule_fields turnaround_rule_eq
        split: option.splits)
  with T obtain m where m: "first_group time_patterns html = Some m" "t = clean_text E m"
    by (auto simp: turnaround_rule_eq initial_record_fields split: option.splits)
  from first_group_match [OF m(1)] obtain p a b
    where "p \<in> set time_patterns" "html = a @ m @ b" "lang p m" by blast
  moreover from this(1) obtain kw
    where "kw \<in> set [''processing'', ''review'', ''turnaround'', ''approval'']" "p = time_pattern kw"
    by (auto simp: time_patterns_def)
  ultimately show ?thesis using m(2) by blast
qed

text \<open>The processing instructions join at most three service texts of at
  most 200 characters each, so they are at most 606 characters long.\<close>

theorem parse_instructions_length:
  "parse E url html doc = Some r \<Longrightarrow> processing_instructions r = Some p \<Longrightarrow> length p \<le> 606"
proof -
  assume P: "parse E url html doc = Some r" and I: "processing_instructions r = Some p"
  have "processing_instructions r =
        processing_instructions (apply_rule E url html doc Service (initial_record E url html))"
    by (rule parse_field [OF P]) (auto simp: rule_order_def apply_rule_fields service_rule_eq)
  with I have p: "p = py_join '' | '' (take 3 (service_info E doc))"
    by (auto simp: service_rule_eq initial_record_fields split: if_splits)
  let ?xs = "take 3 (service_info E doc)"
  have "\<forall>t\<in>set ?xs. length t \<le> 200"
    by (auto simp: service_info_def dest: in_set_takeD service_collect_length)
  then have "sum_list (map length ?xs) \<le> length ?xs * 200"
    by (rule sum_list_map_le_const)
  moreover have "length ?xs \<le> 3" by simp
  ultimately show ?thesis by (simp add: p py_join_length)
qed

text \<open>C11. Every reported download comes from an anchor whose text names a
  permit document and whose \<^verbatim>\<open>href\<close> is either root-relative and resolved by
  \<^verbatim>\<open>urljoin\<close>, or starts with \<^verbatim>\<open>http\<close> and is kept as it is.\<close>

theorem parse_download_origin:
  "parse E url html doc = Some r \<Longrightarrow> d \<in> set (downloadable_applications r) \<Longrightarrow>
   \<exists>title href. doc_title_ok title \<and>
     ((prefix ''/'' href \<and> (\<exists>h. urljoin E url href = Some h \<and> make_download E title h = Some d)) \<or>
      (prefix ''http'' href \<and> make_download E title href = Some d))"
proof -
  assume "parse E url html doc = Some r" "d \<in> set (downloadable_applications r)"
  then obtain title href where "doc_title_ok title" "try_download E url title href = Some d"
    by (blast dest: parse_download_source)
  then show ?thesis
    by (auto simp: try_download_def split: if_splits option.splits)
qed

text \<open>C20. The jurisdiction of a returned record is the one the inference
  collaborator gave, with \<^verbatim>\<open>Unknown\<close> for a missing or empty state; no rule
  changes it.\<close>

theorem parse_jurisdiction:
  "parse E url html doc = Some r \<Longrightarrow> guess_jurisdiction E html = (st, co, ci) \<Longrightarrow>
   state r = py_or st ''Unknown'' \<and> county r = co \<and> city r = ci"
proof -
  assume P: "parse E url html doc = Some r" and G: "guess_jurisdiction E html = (st, co, ci)"
  have D: "Dept \<in> set rule_order" by (simp add: rule_order_def)
  have "state r = state (apply_rule E url html doc Dept (initial_record E url html))"
    by (rule parse_field [OF P D]) (simp_all add: apply_rule_frame del: apply_rule.simps)
  moreover have "county r = county (apply_rule E url html doc Dept (initial_record E url html))"
    by (rule parse_field [OF P D]) (simp_all add: apply_rule_frame del: apply_rule.simps)
  moreover have "city r = city (apply_rule E url html doc Dept (initial_record E url html))"
    by (rule parse_field [OF P D]) (simp_all add: apply_rule_frame del: apply_rule.simps)
  ultimately show ?thesis
    using G by (simp add: apply_rule_frame initial_record_def del: apply_rule.simps)
qed

text \<open>C15. The fee of a returned record: the summaries of the first two tables
  whose class names a fee, cost or charge, then the texts of the first three
  fee elements of more than 10 and fewer than 200 characters; the first
  three of these items joined by \<^verbatim>\<open>" | "\<close>, and no fee when there is none.\<close>

theorem parse_fee:
  "parse E url html doc = Some r \<Longrightarrow>
   permit_fee r =
     (let items =
        List.map_filter (\<lambda>t. table_summary (html_table_to_2d E t))
          (take 2 (find_all_class [''table''] fee_table_rx doc)) @
        filter (\<lambda>t. t \<noteq> [] \<and> 10 < length t \<and> length t < 200)
          (map (\<lambda>e. clean_text E (get_text e)) (take 3 (find_all_string [''div'', ''p'', ''li''] fee_text_rx doc)))
      in if items = [] then None else Some (py_join '' | '' (take 3 items)))"
proof -
  assume P: "parse E url html doc = Some r"
  have "permit_fee r = permit_fee (apply_rule E url html doc Fee (initial_record E url html))"
    by (rule parse_field [OF P]) (auto simp: rule_order_def apply_rule_fields fee_rule_def Let_def)
  then show ?thesis
    by (simp add: fee_rule_def fee_info_def fee_table_info_eq fee_text_info_eq Let_def initial_record_fields)
qed

text \<open>The address of a returned record is the block the address
  collaborator found, when it found a non-empty one, and absent otherwise.\<close>

theorem parse_address:
  "parse E url html doc = Some r \<Longrightarrow>
   address r = (if address_found E doc then find_address_block E doc else None)"
proof -
  assume P: "parse E url html doc = Some r"
  have "address r = address (apply_rule E url html doc Address (initial_record E url html))"
    by (rule parse_field [OF P]) (auto simp: rule_order_def apply_rule_fields address_rule_eq)
  then show ?thesis
    by (simp add: address_rule_eq initial_record_fields)
qed

text \<open>C12. With the standard library's \<^verbatim>\<open>urljoin\<close> and a plain
  \<^verbatim>\<open>Download\<close>, on a page at \<open>http(s)://host...\<close>, every reported download
  comes from an anchor of the page that the link filter selects: its title is
  the anchor's cleaned text, which names a permit document, and its URL is
  \<^verbatim>\<open>urljoin(url, href)\<close>, with the page's scheme, when the anchor's
  \<^verbatim>\<open>href\<close> starts with a slash, and the \<^verbatim>\<open>href\<close> itself, which starts with
  \<^verbatim>\<open>http\<close>, otherwise. No other \<^verbatim>\<open>href\<close> gives a download.\<close>

theorem parse_download_resolved:
  assumes P: "parse E url html doc = Some r" and D: "d \<in> set (downloadable_applications r)"
    and E: "urljoin E = py_urljoin" "make_download E = plain_download"
    and U: "url = s @ ''://'' @ n @ rest" "s \<in> {''http'', ''https''}" "n \<noteq> []"
      "\<forall>c\<in>set n. c \<notin> set ''/?#[]''" "rest = [] \<or> hd rest \<in> set ''/?#''"
      "\<forall>c\<in>set (n @ rest). (32::nat) < of_char c"
  shows "\<exists>a\<in>set (find_all_href [''a''] doc_rx doc). \<exists>href. node_href a = Some href \<and>
           dl_title d = clean_text E (get_text a) \<and> doc_title_ok (dl_title d) \<and>
           (if prefix ''/'' href
            then py_urljoin url href = Some (dl_url d) \<and> prefix (s @ ''://'') (dl_url d)
            else prefix ''http'' href \<and> dl_url d = href)"
proof -
  obtain a href where A: "a \<in> set (find_all_href [''a''] doc_rx doc)" "node_href a = Some href"
    and T: "doc_title_ok (clean_text E (get_text a))"
      "try_download E url (clean_text E (get_text a)) href = Some d"
    using parse_download_link [OF P D] by blast
  define title where "title = clean_text E (get_text a)"
  have T': "try_download E url title href = Some d" "doc_title_ok title"
    using T by (simp_all add: title_def)
  have *: "dl_title d = title \<and> doc_title_ok title \<and>
        (if prefix ''/'' href
         then py_urljoin url href = Some (dl_url d) \<and> prefix (s @ ''://'') (dl_url d)
         else prefix ''http'' href \<and> dl_url d = href)"
  proof (cases "prefix ''/'' href")
    case True
    then obtain p where h: "href = CHR ''/'' # p" by (auto simp: prefix_def)
    with True T' E obtain j where J: "py_urljoin url href = Some j" "d = \<lparr>dl_title = title, dl_url = j\<rparr>"
      by (auto simp: try_download_def plain_download_def split: option.splits)
    from urljoin_slash [OF U(2-6), of p] J(1) obtain t where "j = s @ ''://'' @ t"
      by (auto simp: U(1) h)
    with True J T'(2) show ?thesis by auto
  next
    case False
    with T' E have "prefix ''http'' href" "d = \<lparr>dl_title = title, dl_url = href\<rparr>"
      by (auto simp: try_download_def plain_download_def split: if_splits)
    with False T'(2) show ?thesis by auto
  qed
  then have "node_href a = Some href \<and> dl_title d = clean_text E (get_text a) \<and>
      doc_title_ok (dl_title d) \<and>
      (if prefix ''/'' href
       then py_urljoin url href = Some (dl_url d) \<and> prefix (s @ ''://'') (dl_url d)
       else prefix ''http'' href \<and> dl_url d = href)"
    using A(2) by (simp add: title_def)
  with A(1) show ?thesis by blast
qed

text \<open>C14. The processing instructions: the cleaned texts of the
  \<^verbatim>\<open>div\<close>, \<^verbatim>\<open>section\<close> and \<^verbatim>\<open>td\<close> elements whose class matches the service
  pattern, kept when they pass the length and keyword test, each cut to 200
  characters; the first three joined by \<^verbatim>\<open>" | "\<close>, and none when no text
  passes.\<close>

theorem parse_instructions:
  "parse E url html doc = Some r \<Longrightarrow>
   processing_instructions r =
     (let info = map (take 200) (filter service_text_ok
                   (map (\<lambda>s. clean_text E (get_text s)) (find_all_class [''div'', ''section'', ''td''] service_rx doc)))
      in if info = [] then None else Some (py_join '' | '' (take 3 info)))"
proof -
  assume P: "parse E url html doc = Some r"
  have "processing_instructions r =
        processing_instructions (apply_rule E url html doc Service (initial_record E url html))"
    by (rule parse_field [OF P]) (auto simp: rule_order_def apply_rule_fields service_rule_eq)
  then show ?thesis
    by (simp add: service_rule_eq service_info_def service_collect_eq Let_def initial_record_fields)
qed

text \<open>C13. The downloads are the first five, in document order, of the
  anchors the link filter selects whose cleaned text names a permit document,
  whose \<^verbatim>\<open>href\<close> exists and for which the \<^verbatim>\<open>try\<close> block builds a download.\<close>

theorem parse_downloads:
  "parse E url html doc = Some r \<Longrightarrow>
   downloadable_applications r =
     take 5 (List.map_filter (\<lambda>a. if doc_title_ok (clean_text E (get_text a))
               then Option.bind (node_href a) (try_download E url (clean_text E (get_text a))) else None)
             (find_all_href [''a''] doc_rx doc))"
proof -
  assume P: "parse E url html doc = Some r"
  have "downloadable_applications r =
        downloadable_applications (apply_rule E url html doc Downloads (initial_record E url html))"
    by (rule parse_field [OF P]) (auto simp: rule_order_def apply_rule_fields download_rule_eq)
  then show ?thesis
    by (simp add: download_rule_eq applications_def collect_apps_eq)
qed

text \<open>C16. The office hours are the first 100 characters of the first
  qualifying text among the \<^verbatim>\<open>div\<close>, \<^verbatim>\<open>p\<close> and \<^verbatim>\<open>span\<close> elements, in
  document order, whose \<^verbatim>\<open>.string\<close> exists and matches the hours pattern:
  an element whose text is split over several children has no
  \<^verbatim>\<open>.string\<close> and is never read.\<close>

theorem parse_hours_string:
  "parse E url html doc = Some r \<Longrightarrow>
   hours r = map_option (take 100)
     (find hours_text_ok (map (clean_text E)
        (List.map_filter (\<lambda>el. if is_tag [''div'', ''p'', ''span''] el then
             (case node_string el of Some s \<Rightarrow> if re_found hours_rx s then Some s else None | None \<Rightarrow> None)
           else None) (descendants doc))))"
proof -
  assume P: "parse E url html doc = Some r"
  have "hours r = hours (apply_rule E url html doc Hours (initial_record E url html))"
    by (rule parse_field [OF P]) (auto simp: rule_order_def apply_rule_fields hours_rule_eq
        split: option.splits)
  moreover have "map (\<lambda>el. clean_text E (get_text el)) (find_all_string [''div'', ''p'', ''span''] hours_rx doc) =
    map (clean_text E) (map get_text (find_all_string [''div'', ''p'', ''span''] hours_rx doc))"
    by simp
  ultimately show ?thesis
    by (simp only: find_all_string_strings) (simp add: hours_rule_eq hours_first_def initial_record_fields
        split: option.splits)
qed

text \<open>C18. The processing time comes from the first of the four time patterns,
  in list order, that occurs in the raw page, and is the cleaned text of its
  leftmost whole match (\<^verbatim>\<open>match.group()\<close>).\<close>

theorem parse_turnaround_first:
  "parse E url html doc = Some r \<Longrightarrow>
   turnaround_time r =
     map_option (\<lambda>(a, m, b). clean_text E m)
       (case find (\<lambda>p. re_search p html \<noteq> None) time_patterns of None \<Rightarrow> None | Some p \<Rightarrow> re_search p html)"
proof -
  assume P: "parse E url html doc = Some r"
  have "turnaround_time r =
        turnaround_time (apply_rule E url html doc Turnaround (initial_record E url html))"
    by (rule parse_field [OF P]) (auto simp: rule_order_def apply_rule_fields turnaround_rule_eq
        split: option.splits)
  then show ?thesis
    by (auto simp: turnaround_rule_eq first_group_find initial_record_fields split: option.splits)
qed

end
