(* ===== verification/Orchestrator.thy ===== *)
theory Orchestrator
  imports FastTrack_Parse
begin

text \<open>
  The orchestrator of the spec (sections 2 and 9), which is not in the
  repository and is modelled from the spec: a registry of platform plugins,
  each a detector and an extractor (the record \<open>plugin\<close>, the spec's
  \<^verbatim>\<open>PlatformPlugin\<close> interface); the orchestrator tries the detectors in
  registry order and calls the extractor of the first that accepts the page,
  once. The FastTrack plugin is \<^verbatim>\<open>detect\<close> and \<^verbatim>\<open>parse\<close> of
  \<^verbatim>\<open>fasttrack.py\<close> (\<open>fasttrack_plugin\<close>) and keeps the plugin contract
  \<open>plugin_ok\<close>. The orchestrator is given twice: as a function
  (\<open>orchestrate\<close>) and as a step relation over its control states
  (\<open>ostep\<close>), which terminates, always reaches its final state, and
  refines the function. These lemmas hold for any plugins: they are facts of
  the spec's design, not of \<^verbatim>\<open>fasttrack.py\<close>.
\<close>

record plugin =
  p_name :: pystr
  p_detect :: "pystr \<Rightarrow> pystr \<Rightarrow> bool"
  p_extract :: "pystr \<Rightarrow> pystr \<Rightarrow> soup \<Rightarrow> permit_record option"

definition fasttrack_plugin :: "env \<Rightarrow> plugin" where
  "fasttrack_plugin E = \<lparr>p_name = ''fasttrack'', p_detect = detect, p_extract = parse E\<rparr>"

fun orchestrate :: "plugin list \<Rightarrow> pystr \<Rightarrow> pystr \<Rightarrow> soup \<Rightarrow> permit_record option" where
  "orchestrate [] url html doc = None"
| "orchestrate (p # ps) url html doc =
     (if p_detect p url html then p_extract p url html doc else orchestrate ps url html doc)"

text \<open>The control states: plugins still to try, the extractor being called,
  and the answer.\<close>

datatype ostate = Trying "plugin list" | Extracting plugin | Done "permit_record option"

inductive ostep :: "pystr \<Rightarrow> pystr \<Rightarrow> soup \<Rightarrow> ostate \<Rightarrow> ostate \<Rightarrow> bool"
  for url html doc where
  none_left: "ostep url html doc (Trying []) (Done None)"
| detected: "p_detect p url html \<Longrightarrow> ostep url html doc (Trying (p # ps)) (Extracting p)"
| skipped: "\<not> p_detect p url html \<Longrightarrow> ostep url html doc (Trying (p # ps)) (Trying ps)"
| extracted: "ostep url html doc (Extracting p) (Done (p_extract p url html doc))"

code_pred ostep .

inductive_cases ostep_TryingE: "ostep url html doc (Trying ps) s"
inductive_cases ostep_ExtractingE: "ostep url html doc (Extracting p) s"
inductive_cases ostep_DoneE: "ostep url html doc (Done r) s"

text \<open>The contract of a plugin: its extractor returns a record only for a
  page its detector accepts, tagged with the plugin's name.\<close>

definition plugin_ok :: "plugin \<Rightarrow> bool" where
  "plugin_ok p \<longleftrightarrow>
     (\<forall>url html doc r. p_extract p url html doc = Some r \<longrightarrow>
        p_detect p url html \<and> platform r = p_name p)"

fun ostate_measure :: "ostate \<Rightarrow> nat" where
  "ostate_measure (Trying ps) = length ps + 2"
| "ostate_measure (Extracting p) = 1"
| "ostate_measure (Done r) = 0"

subsection \<open>Lemmas\<close>

lemma ostep_measure: "ostep url html doc s t \<Longrightarrow> ostate_measure t < ostate_measure s"
  by (induction rule: ostep.induct) simp_all

lemma ostep_deterministic: "ostep url html doc s t \<Longrightarrow> ostep url html doc s t' \<Longrightarrow> t = t'"
  by (induction rule: ostep.induct) (auto elim: ostep_TryingE ostep_ExtractingE)

lemma ostep_Done_final: "\<not> ostep url html doc (Done r) s"
  by (auto elim: ostep_DoneE)

lemma ostep_relpowp_bound: "(ostep url html doc ^^ n) s t \<Longrightarrow> n \<le> ostate_measure s"
proof (induction n arbitrary: s)
  case (Suc n)
  then obtain s' where "ostep url html doc s s'" "(ostep url html doc ^^ n) s' t"
    by (blast dest: relpowp_Suc_D2)
  with Suc.IH [of s'] show ?case using ostep_measure [of url html doc s s'] by simp
qed simp

lemma orchestrate_run: "(ostep url html doc)\<^sup>*\<^sup>* (Trying ps) (Done (orchestrate ps url html doc))"
proof (induction ps)
  case Nil
  show ?case by (simp add: none_left r_into_rtranclp)
next
  case (Cons p ps)
  show ?case
  proof (cases "p_detect p url html")
    case True
    then have "ostep url html doc (Trying (p # ps)) (Extracting p)" by (rule detected)
    moreover have "ostep url html doc (Extracting p) (Done (p_extract p url html doc))" by (rule extracted)
    ultimately show ?thesis using True by auto
  next
    case False
    then have "ostep url html doc (Trying (p # ps)) (Trying ps)" by (rule skipped)
    with Cons.IH False show ?thesis by (auto intro: converse_rtranclp_into_rtranclp)
  qed
qed

text \<open>In a deterministic relation, a state reachable from \<open>a\<close> reaches every
  final state reachable from \<open>a\<close>.\<close>

lemma det_rtranclp_to_final:
  assumes det: "\<And>x y z. R x y \<Longrightarrow> R x z \<Longrightarrow> y = z"
    and fin: "\<And>y. \<not> R c y"
    and ab: "R\<^sup>*\<^sup>* a b" and ac: "R\<^sup>*\<^sup>* a c"
  shows "R\<^sup>*\<^sup>* b c"
  using ab
proof (induction rule: rtranclp_induct)
  case base
  show ?case by (rule ac)
next
  case (step b b')
  from step.IH have "b = c \<or> (\<exists>y. R b y \<and> R\<^sup>*\<^sup>* y c)"
    by (blast elim: converse_rtranclpE)
  then show ?case
  proof
    assume "b = c"
    with step.hyps(2) fin show ?thesis by blast
  next
    assume "\<exists>y. R b y \<and> R\<^sup>*\<^sup>* y c"
    with det [OF \<open>R b b'\<close>] show ?thesis by blast
  qed
qed

lemma orchestrate_filter:
  "orchestrate ps url html doc =
     (case filter (\<lambda>p. p_detect p url html) ps of [] \<Rightarrow> None | p # _ \<Rightarrow> p_extract p url html doc)"
  by (induction ps) auto

lemma fasttrack_plugin_ok: "plugin_ok (fasttrack_plugin E)"
proof -
  have "detect url html \<and> platform r = ''fasttrack''" if "parse E url html doc = Some r" for url html doc r
  proof -
    from parse_SomeD [OF that] have "detect url html"
      and r: "r = (body E url html doc)\<lparr>confidence := min (confidence (body E url html doc)) 10\<rparr>"
      by auto
    moreover have "platform (body E url html doc) = platform (initial_record E url html)"
      by (rule fold_rules_frame) (simp add: apply_rule_frame del: apply_rule.simps)
    ultimately show ?thesis
      by (simp add: initial_record_def split: prod.splits)
  qed
  then show ?thesis
    by (auto simp: plugin_ok_def fasttrack_plugin_def)
qed

lemma orchestrate_fasttrack_only: "orchestrate [fasttrack_plugin E] url html doc = parse E url html doc"
  by (simp add: fasttrack_plugin_def parse_def)

subsection \<open>Properties of the orchestrator\<close>

text \<open>The orchestrator terminates: its step relation has no infinite run,
  and a run from a state has at most as many steps as that state's measure
  (the number of plugins left to try plus two).\<close>

theorem orchestrator_terminates:
  "wfp (\<lambda>t s. ostep url html doc s t) \<and>
   ((ostep url html doc ^^ n) s t \<longrightarrow> n \<le> ostate_measure s)"
  using ostep_measure ostep_relpowp_bound
  by (auto intro: wfp_if_convertible_to_nat [where f = ostate_measure])

text \<open>Whatever state a run from the registry has reached, it goes on to
  the final state \<open>Done\<close> with the functional orchestrator's answer; no state
  in between is stuck.\<close>

theorem orchestrator_reaches_done:
  "(ostep url html doc)\<^sup>*\<^sup>* (Trying ps) s \<Longrightarrow>
   (ostep url html doc)\<^sup>*\<^sup>* s (Done (orchestrate ps url html doc))"
  by (rule det_rtranclp_to_final [OF _ _ _ orchestrate_run])
     (auto intro: ostep_deterministic simp: ostep_Done_final)

text \<open>The step relation refines the functional orchestrator: a run from the
  registry ends in \<open>Done r\<close> exactly when \<open>r\<close> is the functional answer.\<close>

theorem ostep_refines_orchestrate:
  "(ostep url html doc)\<^sup>*\<^sup>* (Trying ps) (Done r) \<longleftrightarrow> r = orchestrate ps url html doc"
proof
  assume A: "(ostep url html doc)\<^sup>*\<^sup>* (Trying ps) (Done r)"
  have "(ostep url html doc)\<^sup>*\<^sup>* (Done r) (Done (orchestrate ps url html doc))"
    by (rule det_rtranclp_to_final [OF ostep_deterministic ostep_Done_final A orchestrate_run])
  then show "r = orchestrate ps url html doc"
    by (auto elim: converse_rtranclpE simp: ostep_Done_final)
next
  assume "r = orchestrate ps url html doc"
  then show "(ostep url html doc)\<^sup>*\<^sup>* (Trying ps) (Done r)" by (simp add: orchestrate_run)
qed

text \<open>With plugins that keep the plugin contract, a record the orchestrator
  returns comes from the first plugin of the registry whose detector accepts
  the page, and carries that plugin's name as its platform.\<close>

theorem orchestrate_contract:
  "list_all plugin_ok ps \<Longrightarrow> orchestrate ps url html doc = Some r \<Longrightarrow>
   \<exists>p qs. filter (\<lambda>p. p_detect p url html) ps = p # qs \<and>
          p_extract p url html doc = Some r \<and> platform r = p_name p"
proof -
  assume ok: "list_all plugin_ok ps" and o: "orchestrate ps url html doc = Some r"
  then obtain p qs where f: "filter (\<lambda>p. p_detect p url html) ps = p # qs"
    and e: "p_extract p url html doc = Some r"
    by (auto simp: orchestrate_filter split: list.splits)
  from f have "p \<in> set (filter (\<lambda>p. p_detect p url html) ps)" by simp
  then have "p \<in> set ps" by simp
  with ok have "plugin_ok p" by (simp add: list_all_iff)
  with e have "platform r = p_name p" by (simp add: plugin_ok_def)
  with f e show ?thesis by blast
qed

text \<open>When at most one registered plugin accepts a page, the order of the
  registry does not matter (the spec's plugins are order-independent except
  for the priority of the first match).\<close>

theorem orchestrate_order_independent:
  "mset ps = mset qs \<Longrightarrow> length (filter (\<lambda>p. p_detect p url html) ps) \<le> 1 \<Longrightarrow>
   orchestrate ps url html doc = orchestrate qs url html doc"
proof -
  assume m: "mset ps = mset qs" and one: "length (filter (\<lambda>p. p_detect p url html) ps) \<le> 1"
  let ?P = "\<lambda>p. p_detect p url html"
  have fm: "mset (filter ?P ps) = mset (filter ?P qs)" using m by simp
  have "filter ?P ps = filter ?P qs"
  proof (cases "filter ?P ps")
    case Nil
    with fm show ?thesis by simp
  next
    case (Cons p rest)
    with one have "rest = []" by simp
    with Cons fm have q: "mset (filter ?P qs) = {#p#}" by simp
    then have "length (filter ?P qs) = 1" by (metis size_mset size_single)
    then obtain x where x: "filter ?P qs = [x]" by (auto simp: length_Suc_conv)
    with q have "x = p" by simp
    with Cons \<open>rest = []\<close> x show ?thesis by simp
  qed
  then show ?thesis by (simp add: orchestrate_filter)
qed

end
