(* ===== verification/Spec2Isabelle.thy ===== *)
theory Spec2Isabelle
  imports Orchestrator
begin

text \<open>
  \<^bold>\<open>A verification model of the FastTrack platform plugin.\<close>

  The repository's core is one platform plugin,
  \<^verbatim>\<open>src/scraper/rules/platforms/fasttrack.py\<close>, with two functions: the
  detector \<^verbatim>\<open>detect(url, html)\<close> (lines 12--31), which reports whether a
  page belongs to the FastTrack permit platform, and the extractor
  \<^verbatim>\<open>parse(url, html, soup)\<close> (lines 34--185), which re-checks detection,
  builds a \<^verbatim>\<open>Record\<close> by eight independent extraction rules over the parsed
  page, each adding a fixed confidence increment, caps the confidence at
  \<^verbatim>\<open>1.0\<close> and returns the record only if its confidence exceeds the base
  \<^verbatim>\<open>0.1\<close>. The plugin calls Python's \<^verbatim>\<open>re\<close>, BeautifulSoup queries, the
  repository's utilities (\<^verbatim>\<open>clean_text\<close>, \<^verbatim>\<open>find_contacts\<close>,
  \<^verbatim>\<open>find_address_block\<close>, \<^verbatim>\<open>html_table_to_2d\<close>, \<^verbatim>\<open>guess_jurisdiction\<close>),
  \<^verbatim>\<open>urljoin\<close> and the \<^verbatim>\<open>Download\<close> constructor; it keeps no state between
  calls.

  \<^bold>\<open>Theories.\<close>
  \<^item> \<open>Prelude\<close>: the Python string operations the plugin uses
    (\<^verbatim>\<open>lower\<close>, \<^verbatim>\<open>startswith\<close>, \<^verbatim>\<open>in\<close>, \<^verbatim>\<open>join\<close>, \<^verbatim>\<open>str(int)\<close>,
    truthiness) as executable functions; \<^verbatim>\<open>in\<close> is shown equal to the
    library's \<open>sublist\<close>.
  \<^item> \<open>PyRe\<close>: the subset of \<^verbatim>\<open>re\<close> the patterns use, as Python's backtracking
    matcher in continuation-passing style (\<open>bt\<close>) and \<^verbatim>\<open>re.search\<close>
    (\<open>re_search\<close>), with a declarative meaning \<open>lang\<close>; the matcher is
    sound and complete for it and the search returns the leftmost match.
  \<^item> \<open>Soup\<close>: the parsed page as a tree, \<^verbatim>\<open>get_text\<close>, \<^verbatim>\<open>.string\<close>,
    \<^verbatim>\<open>find_all\<close> with \<^verbatim>\<open>class_\<close>, \<^verbatim>\<open>href\<close> and \<^verbatim>\<open>text\<close> filters, and
    \<^verbatim>\<open>select\<close>, all in document order.
  \<^item> \<open>UrlParse\<close>: the standard library's \<^verbatim>\<open>urllib.parse.urljoin\<close> of
    CPython 3.12 with the \<^verbatim>\<open>urlsplit\<close>, \<^verbatim>\<open>urlparse\<close>, \<^verbatim>\<open>urlunsplit\<close>
    and \<^verbatim>\<open>urlunparse\<close> it is built from (\<open>py_urljoin\<close>), the
    \<^verbatim>\<open>ValueError\<close>s of \<^verbatim>\<open>urlsplit\<close> as \<open>None\<close>: an unbalanced
    bracket in the network location, and a bracketed host that is not an
    IPv6 address or an IPvFuture literal. It reproduces the RFC 3986
    examples of CPython's tests; the rebuilt path has no dot segment; a
    reference starting with a slash on an \<^verbatim>\<open>http(s)\<close> page becomes an
    absolute URL with the page's scheme; a root-relative one keeps the
    page's host, a network-path one \<open>//h...\<close> lands on the host \<open>h\<close> it
    names, and one with a bracketed host fails exactly when
    \<^verbatim>\<open>_check_bracketed_netloc\<close> refuses it (checked against CPython on
    bracketed references, an \<^verbatim>\<open>@\<close> inside the brackets included).
  \<^item> \<open>IpAddress\<close> (imported by \<open>UrlParse\<close>): the parts of CPython 3.12's
    \<^verbatim>\<open>ipaddress\<close> that \<^verbatim>\<open>urlsplit\<close> calls, \<^verbatim>\<open>IPv4Address\<close>
    (\<open>ipv4_address\<close>, \<^verbatim>\<open>_parse_octet\<close>), \<^verbatim>\<open>IPv6Address\<close>
    (\<open>ipv6_address\<close>: hextets, the \<^verbatim>\<open>::\<close>, an embedded IPv4 suffix, a scope
    id) and \<^verbatim>\<open>ip_address\<close>, with \<^verbatim>\<open>_check_bracketed_host\<close> and
    \<^verbatim>\<open>_check_bracketed_netloc\<close> of \<^verbatim>\<open>urllib.parse\<close>. Addresses are their
    values (Python ints, \<open>nat\<close>), built with the library's bit operations
    as the source shifts and ors them. A supporting lemma shows that
    \<^verbatim>\<open>IPv4Address\<close> accepts exactly the dotted quads \<^verbatim>\<open>str\<close> prints.
  \<^item> \<open>Models\<close>: \<^verbatim>\<open>Record\<close> and \<^verbatim>\<open>Download\<close> as records, the collaborators
    as the record \<open>env\<close> (the plugin's interface: every theorem about
    \<^verbatim>\<open>parse\<close> holds for all of them), and a sample environment for
    evaluating particular pages, whose \<^verbatim>\<open>urljoin\<close> is \<open>py_urljoin\<close>.
  \<^item> \<open>Detect\<close>: \<^verbatim>\<open>detect\<close>, its indicator list and its loop.
  \<^item> \<open>FastTrack_Rules\<close>: the eight rules of \<^verbatim>\<open>parse\<close>, one definition per
    source block (\<open>dept_rule\<close>, \<open>service_rule\<close>, \<open>download_rule\<close>,
    \<open>fee_rule\<close>, \<open>contacts_rule\<close>, \<open>address_rule\<close>, \<open>hours_rule\<close>,
    \<open>turnaround_rule\<close>), each loop a recursive function with the source's
    \<^verbatim>\<open>break\<close>/\<^verbatim>\<open>continue\<close>, and a closed form of what each rule writes;
    each loop is also shown equal to a list function (a filter, a
    \<open>map_filter\<close> or a \<open>find\<close>).
  \<^item> \<open>FastTrack_Parse\<close>: \<open>parse\<close> as the source writes it, and the same body
    as a fold of a step function over a datatype of rules (the builder of
    the spec's design notes); the invariant of construction; the
    properties of \<^verbatim>\<open>parse\<close>, field by field, each stated as a closed
    form over the page with the source's slices and filters (department,
    instructions, downloads, fee, hours, processing time, jurisdiction), and
    for the confidence; the composition with \<open>py_urljoin\<close> ties every
    download to an anchor of the page and its \<^verbatim>\<open>href\<close>.
  \<^item> \<open>Orchestrator\<close>: the orchestrator of the spec (sections 2 and 9; not
    in the repository, so modelled from the spec): a registry of plugins
    (record \<open>plugin\<close>: name, detector, extractor), FastTrack's \<^verbatim>\<open>detect\<close>
    and \<^verbatim>\<open>parse\<close> as one plugin (\<open>fasttrack_plugin\<close>), which keeps the
    plugin contract \<open>plugin_ok\<close>; the orchestrator as a function
    (\<open>orchestrate\<close>: first accepting detector, its extractor once) and as
    an inductive step relation \<open>ostep\<close> over control states. As lemmas
    that hold for any plugins, and so say nothing of \<^verbatim>\<open>fasttrack.py\<close>
    beyond the plugin contract: the relation
    is deterministic, terminates (a measure: plugins left plus two), reaches
    its final state from every reachable state, and refines the function; the
    answer comes from the first accepting plugin and does not depend on the
    registry's order when at most one plugin accepts.
  \<^item> this theory: sample pages, the witnesses of the properties on them,
    and evaluations of the spec's scenarios, of the findings and of a page
    whose links have bracketed IPv6 and IPv4 hosts (checks of the model on
    fixed inputs, not properties).

  \<^bold>\<open>Modelling choices.\<close> Strings are lists of \<open>char\<close>, one per code point,
  so the model covers code points below 256; \<^verbatim>\<open>lower\<close> and \<^verbatim>\<open>re.I\<close> are
  exact there. Confidence is a natural number of tenths: exact decimal
  arithmetic, where the source adds binary floating-point numbers. Loops
  are structural recursion over the lists the source iterates, so every
  function is total and no fuel is needed; the regex matcher terminates by
  the size of the pattern and the length of the input. The one loop whose
  termination is a theorem is the orchestrator's run over its registry.

  \<^bold>\<open>Not modelled.\<close> The HTML parser (the tree is given), the network layer,
  the bodies of the utilities (they are parameters), float rounding, code
  points of 256 and above, and the other platform plugins (not in the
  repository; the orchestrator's theorems hold for any plugins, and one
  stand-in plugin is used for evaluations). The NFKC check
  \<^verbatim>\<open>urlsplit\<close> makes of a non-ASCII network location
  (\<^verbatim>\<open>_checknetloc\<close>) raises only when a character normalises to one of
  \<^verbatim>\<open>/ ? # @ :\<close>; no code point below 256 does (the characters that do,
  such as U+2044 and the full-width forms, lie above), so on the strings of
  the model the check never raises and it is left out. Of
  \<^verbatim>\<open>ipaddress\<close>, only the string constructors are modelled: the
  classes' other methods are not called by \<^verbatim>\<open>urlsplit\<close>.
\<close>

section \<open>Sample pages\<close>

text \<open>Pages of the spec's scenarios and of the findings. Each is given as the
  URL, the raw HTML and the parsed tree the extractor receives.\<close>

definition page_of :: "node list \<Rightarrow> soup" where
  "page_of ns = Elem ''[document]'' [] None ns"

text \<open>The record \<^verbatim>\<open>parse\<close> starts from under the sample environment.\<close>

definition blank :: "pystr \<Rightarrow> permit_record" where
  "blank url =
     \<lparr>source_url = url, platform = ''fasttrack'', state = ''Unknown'', county = None,
      city = None, department_name = None, processing_instructions = None, permit_fee = None,
      phone = None, email = None, address = None, hours = None, turnaround_time = None,
      downloadable_applications = [], confidence = 1\<rparr>"

definition url_A :: pystr where
  "url_A = ''https://ocfl.net/onlineservices/permits''"

definition html_A :: pystr where
  "html_A = ''<p>FastTrack Online Services</p>''"

definition url_X :: pystr where
  "url_X = ''https://county.gov/x''"

definition html_X :: pystr where
  "html_X = ''<p>Welcome</p>''"

definition page_X :: soup where
  "page_X = page_of [Elem ''p'' [] None [Text ''Welcome'']]"

definition html_B :: pystr where
  "html_B = ''<h1>Building Department</h1>''"

definition page_B :: soup where
  "page_B = page_of [Elem ''h1'' [] None [Text ''Building Department'']]"

definition html_H :: pystr where
  "html_H = ''<h1>Building Department</h1><h2>Planning Division</h2> FastTrack''"

definition page_H :: soup where
  "page_H = page_of [Elem ''h1'' [] None [Text ''Building Department''],
                     Elem ''h2'' [] None [Text ''Planning Division'']]"

definition record_H :: permit_record where
  "record_H = (blank url_X)\<lparr>department_name := Some ''Planning Division'', confidence := 5\<rparr>"

definition html_D :: pystr where
  "html_D = ''<a href=\"/forms/permit-app.pdf\">Permit Application Form</a> FastTrack''"

definition page_D :: soup where
  "page_D = page_of [Elem ''a'' [] (Some ''/forms/permit-app.pdf'') [Text ''Permit Application Form'']]"

definition html_R :: pystr where
  "html_R = ''<a href=\"forms/permit-app.pdf\">Permit Application Form</a> FastTrack''"

definition page_R :: soup where
  "page_R = page_of [Elem ''a'' [] (Some ''forms/permit-app.pdf'') [Text ''Permit Application Form'']]"

definition page_Q :: soup where
  "page_Q = page_of [Elem ''a'' [] (Some ''httpdocs/permit-app.pdf'') [Text ''Permit Application Form'']]"

definition html_E :: pystr where
  "html_E = ''<table class=\"fee-table\">...</table> FastTrack''"

definition page_E :: soup where
  "page_E = page_of [Elem ''table'' [''fee-table''] None
     [Elem ''tr'' [] None [Elem ''th'' [] None [Text ''Permit Type''], Elem ''th'' [] None [Text ''Fee'']],
      Elem ''tr'' [] None [Elem ''td'' [] None [Text ''Residential''], Elem ''td'' [] None [Text ''100'']],
      Elem ''tr'' [] None [Elem ''td'' [] None [Text ''Commercial''], Elem ''td'' [] None [Text ''250'']],
      Elem ''tr'' [] None [Elem ''td'' [] None [Text ''Demolition''], Elem ''td'' [] None [Text ''75'']],
      Elem ''tr'' [] None [Elem ''td'' [] None [Text ''Fence''], Elem ''td'' [] None [Text ''50'']]]]"

definition html_F :: pystr where
  "html_F = ''<p>Processing time: 10 business days for residential permits</p> FastTrack''"

definition page_F :: soup where
  "page_F = page_of [Elem ''p'' [] None [Text ''Processing time: 10 business days for residential permits'']]"

definition html_O :: pystr where
  "html_O = ''<p>Office hours: 8:00 am - 5:00 pm</p> FastTrack''"

definition page_O :: soup where
  "page_O = page_of [Elem ''p'' [] None [Text ''Office hours: 8:00 am - 5:00 pm'']]"

definition hours_para_N :: node where
  "hours_para_N = Elem ''p'' [] None [Elem ''b'' [] None [Text ''Office Hours:''], Text '' 8:00 am - 5:00 pm'']"

definition page_N :: soup where
  "page_N = page_of [hours_para_N]"

definition html_S :: pystr where
  "html_S = ''<div class=\"permit-info\">Building permit applications are reviewed weekly.</div> FastTrack''"

definition page_S :: soup where
  "page_S = page_of [Elem ''div'' [''permit-info''] None
     [Text ''Building permit applications are reviewed weekly.'']]"

text \<open>Three document links: a root-relative one with dot segments, a
  network-path one whose host has an unbalanced bracket, and one that only
  starts with \<^verbatim>\<open>http\<close>.\<close>

definition html_L :: pystr where
  "html_L = ''<a href=\"/forms/../forms/permit-app.pdf\">Permit Application</a> ... FastTrack''"

definition page_L :: soup where
  "page_L = page_of
     [Elem ''a'' [] (Some ''/forms/../forms/permit-app.pdf'') [Text ''Permit Application''],
      Elem ''a'' [] (Some ''//[::1/permit.pdf'') [Text ''Permit Form''],
      Elem ''a'' [] (Some ''httpdocs/checklist.pdf'') [Text ''Checklist'']]"

definition download_L1 :: download where
  "download_L1 = \<lparr>dl_title = ''Permit Application'', dl_url = ''https://county.gov/forms/permit-app.pdf''\<rparr>"

definition record_L :: permit_record where
  "record_L = (blank url_X)\<lparr>downloadable_applications :=
     [download_L1, \<lparr>dl_title = ''Checklist'', dl_url = ''httpdocs/checklist.pdf''\<rparr>], confidence := 3\<rparr>"

text \<open>Two network-path links with bracketed hosts: an IPv6 literal, which
  \<^verbatim>\<open>urljoin\<close> accepts, and an IPv4 literal, which it refuses.\<close>

definition html_V :: pystr where
  "html_V = ''<a href=\"//[::1]/permit.pdf\">Permit Form</a> ... FastTrack''"

definition page_V :: soup where
  "page_V = page_of
     [Elem ''a'' [] (Some ''//[::1]/permit.pdf'') [Text ''Permit Form''],
      Elem ''a'' [] (Some ''//[127.0.0.1]/form.pdf'') [Text ''Application Form'']]"

text \<open>A second platform plugin for the orchestrator's registry: it accepts
  pages that mention Accela and extracts nothing.\<close>

definition other_plugin :: plugin where
  "other_plugin =
     \<lparr>p_name = ''accela'', p_detect = (\<lambda>u h. py_in ''accela'' (py_lower h)),
      p_extract = (\<lambda>u h d. None)\<rparr>"

text \<open>An environment whose jurisdiction guess has an empty state, and whose
  address finder finds a block.\<close>

definition env_J :: env where
  "env_J = sample_env\<lparr>guess_jurisdiction := (\<lambda>h. (Some [], Some ''Orange'', Some ''Orlando'')),
                      find_address_block := (\<lambda>d. Some ''201 S Rosalind Ave'')\<rparr>"

definition record_HJ :: permit_record where
  "record_HJ = record_H\<lparr>county := Some ''Orange'', city := Some ''Orlando'',
                        address := Some ''201 S Rosalind Ave'', confidence := 6\<rparr>"

section \<open>Evaluations used by the witnesses\<close>

lemma parse_page_H: "parse sample_env url_X html_H page_H = Some record_H"
  by code_simp

lemma detect_page_X: "\<not> detect url_X html_X"
  by code_simp

lemma parse_page_O:
  "parse sample_env url_X html_O page_O =
   Some ((blank url_X)\<lparr>hours := Some ''Office hours: 8:00 am - 5:00 pm'', confidence := 2\<rparr>)"
  by code_simp

lemma parse_page_F:
  "parse sample_env url_X html_F page_F =
   Some ((blank url_X)\<lparr>turnaround_time := Some ''Processing time: 10 business days'', confidence := 2\<rparr>)"
  by code_simp

lemma parse_page_S:
  "parse sample_env url_X html_S page_S =
   Some ((blank url_X)\<lparr>processing_instructions := Some ''Building permit applications are reviewed weekly.'',
         confidence := 4\<rparr>)"
  by code_simp

lemma parse_page_D:
  "parse sample_env url_X html_D page_D =
   Some ((blank url_X)\<lparr>downloadable_applications :=
           [\<lparr>dl_title = ''Permit Application Form'', dl_url = ''https://county.gov/forms/permit-app.pdf''\<rparr>],
         confidence := 3\<rparr>)"
  by code_simp

lemma parse_page_E:
  "parse sample_env url_X html_E page_E =
   Some ((blank url_X)\<lparr>permit_fee := Some ''Fee schedule with 4 permit types'', confidence := 3\<rparr>)"
  by code_simp

lemma parse_page_HJ: "parse env_J url_X html_H page_H = Some record_HJ"
  by code_simp

text \<open>The link with the unbalanced bracket raises inside the \<^verbatim>\<open>try\<close> and
  is skipped; the other two are kept.\<close>

lemma parse_page_L: "parse sample_env url_X html_L page_L = Some record_L"
  by code_simp

lemma other_plugin_skips_H: "\<not> p_detect other_plugin url_X html_H"
  by (simp add: other_plugin_def html_H_def; code_simp)

lemma fasttrack_detects_H: "p_detect (fasttrack_plugin sample_env) url_X html_H"
  by (simp add: fasttrack_plugin_def url_X_def html_H_def; code_simp)

lemma orchestrate_page_H:
  "orchestrate [other_plugin, fasttrack_plugin sample_env] url_X html_H page_H = Some record_H"
  using other_plugin_skips_H fasttrack_detects_H parse_page_H by (simp add: fasttrack_plugin_def)

section \<open>Witnesses of the properties of \<^verbatim>\<open>parse\<close>\<close>

theorem parse_requires_detect_witness:
  "\<not> detect url_X html_X \<and> parse sample_env url_X html_X page_X = None"
  using parse_requires_detect [OF detect_page_X] detect_page_X by simp

theorem parse_confidence_bounds_witness:
  "parse sample_env url_X html_H page_H = Some record_H \<and>
   1 < confidence record_H \<and> confidence record_H \<le> 10"
  using parse_confidence_bounds [OF parse_page_H] parse_page_H by simp

theorem parse_wf_witness:
  "parse sample_env url_X html_H page_H = Some record_H \<and>
   length (downloadable_applications record_H) \<le> 5 \<and> source_url record_H = url_X \<and>
   platform record_H = ''fasttrack''"
  using parse_wf [OF parse_page_H] parse_page_H by simp

theorem parse_some_iff_witness:
  "parse sample_env url_X html_H page_H \<noteq> None \<and> detect url_X html_H \<and>
   0 < total_gain sample_env url_X html_H page_H"
  using parse_some_iff [of sample_env url_X html_H page_H] parse_page_H by simp

theorem parse_confidence_eq_witness:
  "parse sample_env url_X html_H page_H = Some record_H \<and>
   confidence record_H = min 10 (1 + total_gain sample_env url_X html_H page_H)"
  using parse_confidence_eq [OF parse_page_H] parse_page_H by simp

theorem parse_department_name_witness:
  "parse sample_env url_X html_H page_H = Some record_H \<and>
   department_name record_H =
     (if dept_hits sample_env page_H = [] then None else Some (last (dept_hits sample_env page_H)))"
  using parse_department_name [OF parse_page_H] parse_page_H by simp

theorem parse_rule_order_irrelevant_witness:
  "mset (rev rule_order) = mset rule_order \<and>
   parse sample_env url_X html_H page_H =
     (if \<not> detect url_X html_H then None
      else finalize (fold (apply_rule sample_env url_X html_H page_H) (rev rule_order)
                      (initial_record sample_env url_X html_H)))"
proof -
  have m: "mset (rev rule_order) = mset rule_order" by simp
  show ?thesis using parse_rule_order_irrelevant [OF m] m by simp
qed

theorem built_wf_witness:
  "built sample_env url_X html_H page_H
     (apply_rule sample_env url_X html_H page_H Dept (initial_record sample_env url_X html_H)) \<and>
   wf_record url_X
     (apply_rule sample_env url_X html_H page_H Dept (initial_record sample_env url_X html_H))"
proof -
  have b: "built sample_env url_X html_H page_H
     (apply_rule sample_env url_X html_H page_H Dept (initial_record sample_env url_X html_H))"
    by (rule built.step [OF built.start])
  show ?thesis using built_wf [OF b] b by simp
qed

theorem confidence_monotone_witness:
  "(1::nat) \<le> 8 \<and>
   confidence (fold (apply_rule sample_env url_X html_H page_H) (take 1 rule_order)
                 (initial_record sample_env url_X html_H)) \<le>
   confidence (fold (apply_rule sample_env url_X html_H page_H) (take 8 rule_order)
                 (initial_record sample_env url_X html_H))"
  using confidence_monotone [of 1 8] by simp

theorem parse_contacts_first_witness:
  "parse sample_env url_X html_H page_H = Some record_H \<and>
   phone record_H = py_first (fst (find_contacts sample_env html_H)) \<and>
   email record_H = py_first (snd (find_contacts sample_env html_H))"
  using parse_contacts_first [OF parse_page_H] parse_page_H by simp

theorem parse_hours_witness:
  "parse sample_env url_X html_O page_O =
     Some ((blank url_X)\<lparr>hours := Some ''Office hours: 8:00 am - 5:00 pm'', confidence := 2\<rparr>) \<and>
   length ''Office hours: 8:00 am - 5:00 pm'' \<le> 100 \<and>
   (\<exists>t. ''Office hours: 8:00 am - 5:00 pm'' = take 100 t \<and> hours_text_ok t)"
  using parse_hours [OF parse_page_O] parse_page_O by simp

theorem parse_turnaround_witness:
  "parse sample_env url_X html_F page_F =
     Some ((blank url_X)\<lparr>turnaround_time := Some ''Processing time: 10 business days'', confidence := 2\<rparr>) \<and>
   (\<exists>kw\<in>set [''processing'', ''review'', ''turnaround'', ''approval''].
     \<exists>a m b. html_F = a @ m @ b \<and> lang (time_pattern kw) m \<and>
       ''Processing time: 10 business days'' = clean_text sample_env m)"
  using parse_turnaround [OF parse_page_F] parse_page_F by simp

theorem parse_instructions_length_witness:
  "parse sample_env url_X html_S page_S =
     Some ((blank url_X)\<lparr>processing_instructions := Some ''Building permit applications are reviewed weekly.'',
           confidence := 4\<rparr>) \<and>
   length ''Building permit applications are reviewed weekly.'' \<le> 606"
  using parse_instructions_length [OF parse_page_S] parse_page_S by simp

theorem parse_download_origin_witness:
  "parse sample_env url_X html_D page_D =
     Some ((blank url_X)\<lparr>downloadable_applications :=
             [\<lparr>dl_title = ''Permit Application Form'', dl_url = ''https://county.gov/forms/permit-app.pdf''\<rparr>],
           confidence := 3\<rparr>) \<and>
   (\<exists>title href. doc_title_ok title \<and>
     ((prefix ''/'' href \<and> (\<exists>h. urljoin sample_env url_X href = Some h \<and>
          make_download sample_env title h =
            Some \<lparr>dl_title = ''Permit Application Form'', dl_url = ''https://county.gov/forms/permit-app.pdf''\<rparr>)) \<or>
      (prefix ''http'' href \<and> make_download sample_env title href =
            Some \<lparr>dl_title = ''Permit Application Form'', dl_url = ''https://county.gov/forms/permit-app.pdf''\<rparr>)))"
  using parse_download_origin [OF parse_page_D] parse_page_D by simp

theorem parse_jurisdiction_witness:
  "parse env_J url_X html_H page_H = Some record_HJ \<and>
   guess_jurisdiction env_J html_H = (Some [], Some ''Orange'', Some ''Orlando'') \<and>
   state record_HJ = ''Unknown'' \<and> county record_HJ = Some ''Orange'' \<and> city record_HJ = Some ''Orlando''"
proof -
  have G: "guess_jurisdiction env_J html_H = (Some [], Some ''Orange'', Some ''Orlando'')"
    by (simp add: env_J_def)
  show ?thesis
    using parse_jurisdiction [OF parse_page_HJ G] parse_page_HJ G by simp
qed

theorem parse_fee_witness:
  "parse sample_env url_X html_E page_E =
     Some ((blank url_X)\<lparr>permit_fee := Some ''Fee schedule with 4 permit types'', confidence := 3\<rparr>) \<and>
   Some ''Fee schedule with 4 permit types'' =
     (let items =
        List.map_filter (\<lambda>t. table_summary (html_table_to_2d sample_env t))
          (take 2 (find_all_class [''table''] fee_table_rx page_E)) @
        filter (\<lambda>t. t \<noteq> [] \<and> 10 < length t \<and> length t < 200)
          (map (\<lambda>e. clean_text sample_env (get_text e))
            (take 3 (find_all_string [''div'', ''p'', ''li''] fee_text_rx page_E)))
      in if items = [] then None else Some (py_join '' | '' (take 3 items)))"
  using parse_fee [OF parse_page_E] parse_page_E by simp

theorem parse_address_witness:
  "parse env_J url_X html_H page_H = Some record_HJ \<and>
   Some ''201 S Rosalind Ave'' =
     (if address_found env_J page_H then find_address_block env_J page_H else None)"
  using parse_address [OF parse_page_HJ] parse_page_HJ by (simp add: record_HJ_def)

theorem parse_download_resolved_witness:
  "parse sample_env url_X html_L page_L = Some record_L \<and>
   (\<exists>a\<in>set (find_all_href [''a''] doc_rx page_L). \<exists>href. node_href a = Some href \<and>
      dl_title download_L1 = clean_text sample_env (get_text a) \<and> doc_title_ok (dl_title download_L1) \<and>
      (if prefix ''/'' href
       then py_urljoin url_X href = Some (dl_url download_L1) \<and> prefix (''https'' @ ''://'') (dl_url download_L1)
       else prefix ''http'' href \<and> dl_url download_L1 = href))"
proof -
  have h: "download_L1 \<in> set (downloadable_applications record_L)"
    "urljoin sample_env = py_urljoin" "make_download sample_env = plain_download"
    "url_X = ''https'' @ ''://'' @ ''county.gov'' @ ''/x''"
    by (simp_all add: record_L_def sample_env_def url_X_def)
  have u: "''https'' \<in> {''http'', ''https''}" "''county.gov'' \<noteq> []"
    "\<forall>c\<in>set ''county.gov''. c \<notin> set ''/?#[]''" "''/x'' = [] \<or> hd ''/x'' \<in> set ''/?#''"
    "\<forall>c\<in>set (''county.gov'' @ ''/x''). (32::nat) < of_char c"
    by code_simp+
  show ?thesis
    using parse_download_resolved [OF parse_page_L h u] parse_page_L by simp
qed

theorem parse_instructions_witness:
  "parse sample_env url_X html_S page_S =
     Some ((blank url_X)\<lparr>processing_instructions := Some ''Building permit applications are reviewed weekly.'',
           confidence := 4\<rparr>) \<and>
   Some ''Building permit applications are reviewed weekly.'' =
     (let info = map (take 200) (filter service_text_ok
                   (map (\<lambda>s. clean_text sample_env (get_text s))
                     (find_all_class [''div'', ''section'', ''td''] service_rx page_S)))
      in if info = [] then None else Some (py_join '' | '' (take 3 info)))"
  using parse_instructions [OF parse_page_S] parse_page_S by simp

theorem parse_downloads_witness:
  "parse sample_env url_X html_L page_L = Some record_L \<and>
   [download_L1, \<lparr>dl_title = ''Checklist'', dl_url = ''httpdocs/checklist.pdf''\<rparr>] =
     take 5 (List.map_filter (\<lambda>a. if doc_title_ok (clean_text sample_env (get_text a))
               then Option.bind (node_href a) (try_download sample_env url_X (clean_text sample_env (get_text a)))
               else None)
             (find_all_href [''a''] doc_rx page_L))"
  using parse_downloads [OF parse_page_L] parse_page_L by (simp add: record_L_def)

theorem parse_hours_string_witness:
  "parse sample_env url_X html_O page_O =
     Some ((blank url_X)\<lparr>hours := Some ''Office hours: 8:00 am - 5:00 pm'', confidence := 2\<rparr>) \<and>
   Some ''Office hours: 8:00 am - 5:00 pm'' = map_option (take 100)
     (find hours_text_ok (map (clean_text sample_env)
        (List.map_filter (\<lambda>el. if is_tag [''div'', ''p'', ''span''] el then
             (case node_string el of Some s \<Rightarrow> if re_found hours_rx s then Some s else None | None \<Rightarrow> None)
           else None) (descendants page_O))))"
  using parse_hours_string [OF parse_page_O] parse_page_O by simp

theorem parse_turnaround_first_witness:
  "parse sample_env url_X html_F page_F =
     Some ((blank url_X)\<lparr>turnaround_time := Some ''Processing time: 10 business days'', confidence := 2\<rparr>) \<and>
   Some ''Processing time: 10 business days'' =
     map_option (\<lambda>(a, m, b). clean_text sample_env m)
       (case find (\<lambda>p. re_search p html_F \<noteq> None) time_patterns of None \<Rightarrow> None
        | Some p \<Rightarrow> re_search p html_F)"
  using parse_turnaround_first [OF parse_page_F] parse_page_F by simp

section \<open>The orchestrator on sample pages\<close>

theorem orchestrator_terminates_witness:
  "(ostep url_X html_H page_H ^^ 2) (Trying [fasttrack_plugin sample_env]) (Done (Some record_H)) \<and>
   2 \<le> ostate_measure (Trying [fasttrack_plugin sample_env])"
proof -
  have s1: "ostep url_X html_H page_H (Trying [fasttrack_plugin sample_env]) (Extracting (fasttrack_plugin sample_env))"
    using fasttrack_detects_H by (rule detected)
  have s2: "ostep url_X html_H page_H (Extracting (fasttrack_plugin sample_env)) (Done (Some record_H))"
    using extracted [of url_X html_H page_H "fasttrack_plugin sample_env"] parse_page_H
    by (simp add: fasttrack_plugin_def)
  have R: "(ostep url_X html_H page_H ^^ 2) (Trying [fasttrack_plugin sample_env]) (Done (Some record_H))"
    using s1 s2 by (auto simp: numeral_2_eq_2 intro: relpowp_Suc_I2)
  with orchestrator_terminates [of url_X html_H page_H 2 "Trying [fasttrack_plugin sample_env]" "Done (Some record_H)"]
  show ?thesis by blast
qed

theorem orchestrator_reaches_done_witness:
  "(ostep url_X html_H page_H)\<^sup>*\<^sup>* (Trying [other_plugin, fasttrack_plugin sample_env])
      (Trying [fasttrack_plugin sample_env]) \<and>
   (ostep url_X html_H page_H)\<^sup>*\<^sup>* (Trying [fasttrack_plugin sample_env]) (Done (Some record_H))"
proof -
  have S: "(ostep url_X html_H page_H)\<^sup>*\<^sup>* (Trying [other_plugin, fasttrack_plugin sample_env])
      (Trying [fasttrack_plugin sample_env])"
    using skipped [OF other_plugin_skips_H] by blast
  from orchestrator_reaches_done [OF S] orchestrate_page_H S show ?thesis by simp
qed

theorem ostep_refines_orchestrate_witness:
  "(ostep url_X html_H page_H)\<^sup>*\<^sup>* (Trying [other_plugin, fasttrack_plugin sample_env]) (Done (Some record_H))"
  using ostep_refines_orchestrate [of url_X html_H page_H "[other_plugin, fasttrack_plugin sample_env]" "Some record_H"]
    orchestrate_page_H by simp

theorem orchestrate_contract_witness:
  "list_all plugin_ok [other_plugin, fasttrack_plugin sample_env] \<and>
   orchestrate [other_plugin, fasttrack_plugin sample_env] url_X html_H page_H = Some record_H \<and>
   (\<exists>p qs. filter (\<lambda>p. p_detect p url_X html_H) [other_plugin, fasttrack_plugin sample_env] = p # qs \<and>
      p_extract p url_X html_H page_H = Some record_H \<and> platform record_H = p_name p)"
proof -
  have ok: "list_all plugin_ok [other_plugin, fasttrack_plugin sample_env]"
    using fasttrack_plugin_ok [of sample_env] by (simp add: plugin_ok_def other_plugin_def)
  from orchestrate_contract [OF ok orchestrate_page_H] ok orchestrate_page_H show ?thesis by blast
qed

theorem orchestrate_order_independent_witness:
  "mset [fasttrack_plugin sample_env, other_plugin] = mset [other_plugin, fasttrack_plugin sample_env] \<and>
   length (filter (\<lambda>p. p_detect p url_X html_H) [fasttrack_plugin sample_env, other_plugin]) \<le> 1 \<and>
   orchestrate [fasttrack_plugin sample_env, other_plugin] url_X html_H page_H = Some record_H"
proof -
  have m: "mset [fasttrack_plugin sample_env, other_plugin] = mset [other_plugin, fasttrack_plugin sample_env]"
    by (simp add: add_mset_commute)
  have l: "length (filter (\<lambda>p. p_detect p url_X html_H) [fasttrack_plugin sample_env, other_plugin]) \<le> 1"
    using other_plugin_skips_H by simp
  from orchestrate_order_independent [OF m l, of page_H] orchestrate_page_H m l show ?thesis by simp
qed

section \<open>The spec's scenarios, evaluated\<close>

text \<open>Scenario B: a page whose only signal is the header
  \<^verbatim>\<open><h1>Building Department</h1>\<close> gives the department name and confidence
  \<^verbatim>\<open>0.1 + 0.2\<close>.\<close>

theorem scenario_B:
  "parse sample_env url_A (html_B @ html_A) page_B =
   Some ((blank url_A)\<lparr>department_name := Some ''Building Department'', confidence := 3\<rparr>)"
  by code_simp

text \<open>Scenario C: a detected page on which no rule fires yields no record.\<close>

theorem scenario_C: "detect url_A html_A \<and> parse sample_env url_A html_A page_X = None"
  by code_simp

text \<open>Scenario D: the root-relative link \<^verbatim>\<open>/forms/permit-app.pdf\<close> with
  text \<^verbatim>\<open>Permit Application Form\<close> on \<^verbatim>\<open>https://county.gov/x\<close> becomes the
  download \<^verbatim>\<open>https://county.gov/forms/permit-app.pdf\<close>.\<close>

theorem scenario_D:
  "map_option (map dl_url \<circ> downloadable_applications) (parse sample_env url_X html_D page_D) =
   Some [''https://county.gov/forms/permit-app.pdf'']"
  by code_simp

text \<open>Scenario E: a fee table with header row \<^verbatim>\<open>Permit Type | Fee\<close> and four
  data rows is summarised as \<^verbatim>\<open>Fee schedule with 4 permit types\<close>.\<close>

theorem scenario_E:
  "map_option permit_fee (parse sample_env url_X html_E page_E) =
   Some (Some ''Fee schedule with 4 permit types'')"
  by code_simp

text \<open>Scenario F: \<^verbatim>\<open>Processing time: 10 business days for residential
  permits\<close> gives the processing time, matched by the \<^verbatim>\<open>processing\<close> pattern
  (the lazy \<^verbatim>\<open>.*?\<close> stops at the first day count), and confidence \<^verbatim>\<open>0.1 + 0.1\<close>.\<close>

theorem scenario_F:
  "map_option (\<lambda>r. (turnaround_time r, confidence r)) (parse sample_env url_X html_F page_F) =
   Some (Some ''Processing time: 10 business days'', 2)"
  by code_simp

section \<open>The findings on sample pages\<close>

text \<open>The department name is overwritten by a later selector and its
  increment counted once per selector: with an \<^verbatim>\<open>h1\<close> and an \<^verbatim>\<open>h2\<close> that
  both qualify, the record names the \<^verbatim>\<open>h2\<close> text and has confidence
  \<^verbatim>\<open>0.1 + 0.2 + 0.2\<close>, where the spec expects the first match and \<^verbatim>\<open>0.3\<close>.\<close>

theorem finding_dept_overwrite:
  "map_option (\<lambda>r. (department_name r, confidence r)) (parse sample_env url_X html_H page_H) =
   Some (Some ''Planning Division'', 5)"
  by code_simp

text \<open>An \<^verbatim>\<open>href\<close> that merely starts with \<^verbatim>\<open>http\<close> is kept as it is:
  \<^verbatim>\<open>httpdocs/permit-app.pdf\<close> becomes a download URL that is not absolute.\<close>

theorem finding_http_prefix_kept:
  "map dl_url (applications sample_env url_X page_Q) = [''httpdocs/permit-app.pdf'']"
  by code_simp

text \<open>A relative \<^verbatim>\<open>href\<close> that does not start with \<^verbatim>\<open>/\<close> is dropped, not
  joined against the page URL: the link is selected, yields no download, and
  the page yields no record.\<close>

theorem finding_relative_href_skipped:
  "find_all_href [''a''] doc_rx page_R \<noteq> [] \<and> applications sample_env url_X page_R = [] \<and>
   parse sample_env url_X html_R page_R = None"
  by code_simp

text \<open>Office hours split over inline markup are not found: the paragraph's
  text qualifies, but the \<^verbatim>\<open>text=\<close> filter reads \<^verbatim>\<open>.string\<close>, which is
  \<^verbatim>\<open>None\<close> for an element with several children.\<close>

theorem finding_hours_nested:
  "hours_text_ok (clean_text sample_env (get_text hours_para_N)) \<and> hours_first sample_env page_N = None"
  by code_simp

text \<open>A download link whose host is in brackets is kept only when the
  bracketed host is an IPv6 address (or an IPvFuture literal): on
  \<^verbatim>\<open>https://county.gov/x\<close>, \<^verbatim>\<open>//[::1]/permit.pdf\<close> becomes
  \<^verbatim>\<open>https://[::1]/permit.pdf\<close>, while \<^verbatim>\<open>//[127.0.0.1]/form.pdf\<close> makes
  \<^verbatim>\<open>urljoin\<close> raise \<^verbatim>\<open>ValueError\<close> inside the \<^verbatim>\<open>try\<close> and is skipped;
  the record has the one download and confidence \<^verbatim>\<open>0.1 + 0.2\<close>.\<close>

theorem scenario_bracketed_hosts:
  "parse sample_env url_X html_V page_V =
   Some ((blank url_X)\<lparr>downloadable_applications :=
           [\<lparr>dl_title = ''Permit Form'', dl_url = ''https://[::1]/permit.pdf''\<rparr>],
         confidence := 3\<rparr>)"
  by code_simp

end
